theory Spec2Isabelle
  imports Complex_Main "HOL-Library.Multiset"
begin

section \<open>SlowHull: an incremental 3D convex hull\<close>

text \<open>
  A shallow embedding of \<^verbatim>\<open>SlowHull/src/SlowHull.cpp\<close>.

  The arithmetic is modelled twice. In this section coordinates and distances are real
  numbers: the \<^verbatim>\<open>float\<close> and \<^verbatim>\<open>double\<close> values of the source are read as the reals they
  stand for, and every arithmetic operation is exact. The section on single and double
  precision repeats the definitions with every operation rounded; with the rounding that
  changes nothing they are the definitions of this section (\<open>Hull_exact\<close>). Facts about the
  face table, the half-edge set, the indices and the comparisons with the tolerance follow
  the order of the operations and are proved for both; facts that rest on an identity of
  real arithmetic (a point of a plane is at the distance zero from it, a normalised vector is
  parallel to the vector it was made from) are facts of the definitions without rounding
  only, and are marked as such.

  Indices are \<^verbatim>\<open>int\<close> in the source (with \<open>-1\<close> as the failure sentinel) and integers here.

  An unchecked \<^verbatim>\<open>operator[]\<close> outside the bounds of its vector and the use of an
  invalidated iterator are undefined behaviour in C++; the model makes both a value of the
  result type.
\<close>

subsection \<open>Vectors\<close>

datatype vec3 = Vec3 (vx: real) (vy: real) (vz: real)

datatype vec4 = Vec4 (px: real) (py: real) (pz: real) (pw: real)

datatype ivec3 = IVec3 (tx: int) (ty: int) (tz: int)

datatype ivec2 = IVec2 (ex: int) (ey: int)

definition sub3 :: "vec3 \<Rightarrow> vec3 \<Rightarrow> vec3" where
  "sub3 a b = Vec3 (vx a - vx b) (vy a - vy b) (vz a - vz b)"

definition scale3 :: "vec3 \<Rightarrow> real \<Rightarrow> vec3" where
  "scale3 v s = Vec3 (vx v * s) (vy v * s) (vz v * s)"

definition div3 :: "vec3 \<Rightarrow> real \<Rightarrow> vec3" where
  "div3 v s = Vec3 (vx v / s) (vy v / s) (vz v / s)"

definition dot3 :: "vec3 \<Rightarrow> vec3 \<Rightarrow> real" where
  "dot3 a b = vx a * vx b + vy a * vy b + vz a * vz b"

definition cross3 :: "vec3 \<Rightarrow> vec3 \<Rightarrow> vec3" where
  "cross3 a b = Vec3 (vy a * vz b - vy b * vz a) (vz a * vx b - vz b * vx a)
                     (vx a * vy b - vx b * vy a)"

definition length3 :: "vec3 \<Rightarrow> real" where
  "length3 v = sqrt (dot3 v v)"

definition distance3 :: "vec3 \<Rightarrow> vec3 \<Rightarrow> real" where
  "distance3 a b = length3 (sub3 b a)"

definition abs3 :: "vec3 \<Rightarrow> vec3" where
  "abs3 v = Vec3 (\<bar>vx v\<bar>) (\<bar>vy v\<bar>) (\<bar>vz v\<bar>)"

subsection \<open>Undefined behaviour as a result\<close>

datatype error = IndexOutOfRange | IteratorInvalidated

definition bindE :: "error + 'a \<Rightarrow> ('a \<Rightarrow> error + 'b) \<Rightarrow> error + 'b" where
  "bindE m f = (case m of Inl e \<Rightarrow> Inl e | Inr x \<Rightarrow> f x)"

text \<open>\<^verbatim>\<open>v[i]\<close> with an \<^verbatim>\<open>int\<close> index, and with a slot index.\<close>

definition nth_int :: "'a list \<Rightarrow> int \<Rightarrow> error + 'a" where
  "nth_int xs i = (if 0 \<le> i \<and> i < int (length xs) then Inr (xs ! nat i) else Inl IndexOutOfRange)"

definition look :: "'a list \<Rightarrow> nat \<Rightarrow> error + 'a" where
  "look xs j = (if j < length xs then Inr (xs ! j) else Inl IndexOutOfRange)"

text \<open>A \<^verbatim>\<open>for\<close> loop over a range whose body may fail.\<close>

fun foldE :: "('s \<Rightarrow> 'a \<Rightarrow> error + 's) \<Rightarrow> 'a list \<Rightarrow> 's \<Rightarrow> error + 's" where
  "foldE f [] s = Inr s"
| "foldE f (x # xs) s = bindE (f s x) (foldE f xs)"

subsection \<open>Geometric primitives\<close>

definition DistanceToVector :: "vec3 \<Rightarrow> vec3 \<Rightarrow> real" where
  "DistanceToVector pt v = length3 (sub3 pt (scale3 v (dot3 pt v)))"

definition DistanceToPlane :: "vec3 \<Rightarrow> vec4 \<Rightarrow> real" where
  "DistanceToPlane pt plane = dot3 (Vec3 (px plane) (py plane) (pz plane)) pt - pw plane"

definition PlaneOfPts :: "vec3 \<Rightarrow> vec3 \<Rightarrow> vec3 \<Rightarrow> vec4" where
  "PlaneOfPts a b c =
     (let crx = cross3 (sub3 c a) (sub3 b a);
          n = length3 crx
      in if n = 0 then Vec4 0 0 0 0
         else Vec4 (vx crx / n) (vy crx / n) (vz crx / n) (dot3 crx a / n))"

subsection \<open>Seed selection\<close>

definition furthest_step :: "vec3 list \<Rightarrow> int \<times> real \<Rightarrow> nat \<Rightarrow> int \<times> real" where
  "furthest_step pts acc i =
     (let d = distance3 (pts ! 0) (pts ! i)
      in if d > snd acc then (int i, d) else acc)"

definition third_step :: "vec3 list \<Rightarrow> vec3 \<Rightarrow> int \<times> real \<Rightarrow> nat \<Rightarrow> int \<times> real" where
  "third_step pts n acc i =
     (let off = DistanceToVector (sub3 (pts ! i) (pts ! 0)) n
      in if off > snd acc then (int i, off) else acc)"

text \<open>
  \<^verbatim>\<open>NonCollinearTriple\<close> reads \<^verbatim>\<open>pts[0]\<close> and \<^verbatim>\<open>pts[1]\<close> before any test; both
  loops stay below \<^verbatim>\<open>len\<close>. The pair carried by each loop is the index found so far and
  the running maximum (\<^verbatim>\<open>furthest, dist\<close> and \<^verbatim>\<open>third, offset\<close>).

  The division by \<^verbatim>\<open>dist\<close> is reached with \<^verbatim>\<open>dist > precision\<close>. Only with a negative
  tolerance can \<^verbatim>\<open>dist\<close> be zero there; all points then coincide with the point 0, the
  source gets a direction of NaN components and no offset compares greater, and here
  \<open>x / 0 = 0\<close> makes every offset zero: either way \<^verbatim>\<open>third\<close> stays \<open>-1\<close>.
\<close>

definition NonCollinearTriple :: "vec3 list \<Rightarrow> real \<Rightarrow> error + ivec3" where
  "NonCollinearTriple pts precision =
     (let len = length pts in
      if len < 2 then Inl IndexOutOfRange
      else
        let fd = foldl (furthest_step pts) (1, distance3 (pts ! 0) (pts ! 1)) [2..<len];
            furthest = fst fd;
            dist = snd fd
        in if dist \<le> precision then Inr (IVec3 (- 1) (- 1) (- 1))
           else
             let n = div3 (sub3 (pts ! 0) (pts ! nat furthest)) dist;
                 third = fst (foldl (third_step pts n) (- 1, dist * precision) [1..<len])
             in if third < 0 then Inr (IVec3 (- 1) (- 1) (- 1))
                else Inr (IVec3 0 furthest third))"

fun NonCoplanar_from :: "nat \<Rightarrow> vec3 list \<Rightarrow> vec4 \<Rightarrow> real \<Rightarrow> int \<times> bool" where
  "NonCoplanar_from i [] plane precision = (- 1, False)"
| "NonCoplanar_from i (p # ps) plane precision =
     (let dist = DistanceToPlane p plane
      in if \<bar>dist\<bar> > precision then (int i, dist > precision)
         else NonCoplanar_from (Suc i) ps plane precision)"

definition NonCoplanar :: "vec3 list \<Rightarrow> vec4 \<Rightarrow> real \<Rightarrow> int \<times> bool" where
  "NonCoplanar pts plane precision = NonCoplanar_from 0 pts plane precision"

text \<open>
  The head of \<^verbatim>\<open>Hull\<close>: the length test, the seed triple, the candidate plane, the
  fourth point, and the labelling \<^verbatim>\<open>a, b, c, d\<close>. \<open>None\<close> is the early return of the
  empty vector. The triple is used to index \<^verbatim>\<open>pts\<close> without any test of the sentinel.
\<close>

definition Hull_seed :: "vec3 list \<Rightarrow> real \<Rightarrow> error + (int \<times> int \<times> int \<times> int) option" where
  "Hull_seed pts precision =
     (if length pts < 4 then Inr None
      else
        bindE (NonCollinearTriple pts precision) (\<lambda>trip.
        bindE (nth_int pts (tx trip)) (\<lambda>p0.
        bindE (nth_int pts (ty trip)) (\<lambda>p1.
        bindE (nth_int pts (tz trip)) (\<lambda>p2.
          let plane = PlaneOfPts p0 p1 p2;
              dd = NonCoplanar pts plane precision;
              d = fst dd;
              dIsAboveTrip = snd dd
          in if d < 0 then Inr None
             else Inr (Some (tx trip,
                             if dIsAboveTrip then tz trip else ty trip,
                             if dIsAboveTrip then ty trip else tz trip,
                             d)))))))"

subsection \<open>The face table\<close>

record face_table =
  triangles :: "ivec3 list"
  planes :: "vec4 list"
  dropped :: "nat list"
  kept :: "bool list"

definition empty_table :: face_table where
  "empty_table = \<lparr>triangles = [], planes = [], dropped = [], kept = []\<rparr>"

definition AddTri :: "vec3 list \<Rightarrow> int \<Rightarrow> int \<Rightarrow> int \<Rightarrow> face_table \<Rightarrow> error + face_table" where
  "AddTri pts a b c ft =
     (let tri = IVec3 c b a in
      bindE (nth_int pts a) (\<lambda>pa.
      bindE (nth_int pts b) (\<lambda>pb.
      bindE (nth_int pts c) (\<lambda>pc.
        let plane = PlaneOfPts pa pb pc in
        if dropped ft \<noteq> [] then
          let idx = last (dropped ft) in
          if idx < length (triangles ft) \<and> idx < length (planes ft) \<and> idx < length (kept ft)
          then Inr (ft\<lparr>triangles := (triangles ft)[idx := tri],
                       planes := (planes ft)[idx := plane],
                       kept := (kept ft)[idx := True],
                       dropped := butlast (dropped ft)\<rparr>)
          else Inl IndexOutOfRange
        else Inr (ft\<lparr>triangles := triangles ft @ [tri],
                       planes := planes ft @ [plane],
                       kept := kept ft @ [True]\<rparr>)))))"

subsection \<open>The half-edge set\<close>

text \<open>
  \<^verbatim>\<open>std::unordered_set<glm::ivec2>\<close> is a duplicate-free list. \<^verbatim>\<open>insert\<close> adds an
  element that is not yet there. The order in which a range-\<^verbatim>\<open>for\<close> visits the
  elements is not fixed by the language: it is the parameter \<open>ord\<close>, a function of the
  index of the point being processed and of the elements in the order of their insertion.
  Whatever \<open>ord\<close> is, the order visited is a rearrangement of the elements.
\<close>

definition insert_edge :: "ivec2 \<Rightarrow> ivec2 list \<Rightarrow> ivec2 list" where
  "insert_edge e hs = (if e \<in> set hs then hs else hs @ [e])"

definition iter_order :: "(nat \<Rightarrow> ivec2 list \<Rightarrow> ivec2 list) \<Rightarrow> nat \<Rightarrow> ivec2 list \<Rightarrow> ivec2 list" where
  "iter_order ord i hs = (if mset (ord i hs) = mset hs then ord i hs else hs)"

subsection \<open>Processing one point\<close>

text \<open>One iteration of the conflict scan, for the slot \<open>j\<close> and the point \<open>i\<close>.\<close>

definition scan_step ::
  "vec3 list \<Rightarrow> real \<Rightarrow> nat \<Rightarrow> face_table \<times> ivec2 list \<Rightarrow> nat \<Rightarrow> error + face_table \<times> ivec2 list" where
  "scan_step pts precision i st j =
     (let ft = fst st; halfEdges = snd st in
      bindE (look (kept ft) j) (\<lambda>k.
        if \<not> k then Inr st
        else
          bindE (nth_int pts (int i)) (\<lambda>p.
          bindE (look (planes ft) j) (\<lambda>plane.
            if DistanceToPlane p plane > precision then
              bindE (look (triangles ft) j) (\<lambda>t.
                Inr (ft\<lparr>dropped := dropped ft @ [j], kept := (kept ft)[j := False]\<rparr>,
                     insert_edge (IVec2 (ty t) (tx t))
                       (insert_edge (IVec2 (tz t) (ty t))
                         (insert_edge (IVec2 (tx t) (tz t)) halfEdges))))
            else Inr st))))"

text \<open>
  The loop over the half-edge set. \<open>visited\<close> holds the elements already visited and
  still in the set, \<open>e # rest\<close> the element under the iterator and those still to come.
  \<^verbatim>\<open>erase\<close> of the reversed edge looks at the whole set. Erasing the element under the
  iterator (an edge equal to its own reverse) invalidates the iterator that the loop then
  increments.
\<close>

function horizon_loop ::
  "vec3 list \<Rightarrow> int \<Rightarrow> ivec2 list \<Rightarrow> ivec2 list \<Rightarrow> face_table \<Rightarrow> error + face_table" where
  "horizon_loop pts i visited [] ft = Inr ft"
| "horizon_loop pts i visited (e # rest) ft =
     (let r = IVec2 (ey e) (ex e) in
      if r = e then Inl IteratorInvalidated
      else if r \<in> set visited \<or> r \<in> set rest
      then horizon_loop pts i (removeAll r visited @ [e]) (removeAll r rest) ft
      else bindE (AddTri pts (ex e) (ey e) i ft) (horizon_loop pts i (visited @ [e]) rest))"
  by pat_completeness auto
termination
  by (relation "measure (\<lambda>(pts, i, visited, rest, ft). length rest)")
     (auto simp: less_Suc_eq_le)

definition process_point ::
  "(nat \<Rightarrow> ivec2 list \<Rightarrow> ivec2 list) \<Rightarrow> vec3 list \<Rightarrow> real \<Rightarrow> nat \<Rightarrow> face_table \<Rightarrow> error + face_table" where
  "process_point ord pts precision i ft =
     bindE (foldE (scan_step pts precision i) [0..<length (triangles ft)] (ft, []))
       (\<lambda>st. horizon_loop pts (int i) [] (iter_order ord i (snd st)) (fst st))"

subsection \<open>The hull\<close>

definition point_step ::
  "(nat \<Rightarrow> ivec2 list \<Rightarrow> ivec2 list) \<Rightarrow> vec3 list \<Rightarrow> real \<Rightarrow> int \<times> int \<times> int \<times> int \<Rightarrow>
   face_table \<Rightarrow> nat \<Rightarrow> error + face_table" where
  "point_step ord pts precision seed ft i =
     (case seed of (a, b, c, d) \<Rightarrow>
        if int i = a \<or> int i = b \<or> int i = c \<or> int i = d then Inr ft
        else process_point ord pts precision i ft)"

definition seed_table :: "vec3 list \<Rightarrow> int \<times> int \<times> int \<times> int \<Rightarrow> error + face_table" where
  "seed_table pts seed =
     (case seed of (a, b, c, d) \<Rightarrow>
        bindE (AddTri pts a b c empty_table) (\<lambda>f1.
        bindE (AddTri pts d b a f1) (\<lambda>f2.
        bindE (AddTri pts c d a f2) (\<lambda>f3.
        AddTri pts b d c f3))))"

text \<open>The face table at the end of the loop over the points; \<open>None\<close> when \<^verbatim>\<open>Hull\<close>
  returns early.\<close>

definition Hull_table ::
  "(nat \<Rightarrow> ivec2 list \<Rightarrow> ivec2 list) \<Rightarrow> vec3 list \<Rightarrow> real \<Rightarrow> error + face_table option" where
  "Hull_table ord pts precision =
     bindE (Hull_seed pts precision) (\<lambda>s.
       case s of
         None \<Rightarrow> Inr None
       | Some seed \<Rightarrow>
           bindE (seed_table pts seed) (\<lambda>f4.
           bindE (foldE (point_step ord pts precision seed) [0..<length pts] f4) (\<lambda>ft.
           Inr (Some ft))))"

definition compact_step :: "face_table \<Rightarrow> ivec3 list \<Rightarrow> nat \<Rightarrow> error + ivec3 list" where
  "compact_step ft out i =
     bindE (look (kept ft) i) (\<lambda>k.
       if \<not> k then Inr out
       else bindE (look (triangles ft) i) (\<lambda>t. Inr (out @ [t])))"

definition compact :: "face_table \<Rightarrow> error + ivec3 list" where
  "compact ft = foldE (compact_step ft) [0..<length (triangles ft)] []"

definition Hull ::
  "(nat \<Rightarrow> ivec2 list \<Rightarrow> ivec2 list) \<Rightarrow> vec3 list \<Rightarrow> real \<Rightarrow> error + ivec3 list" where
  "Hull ord pts precision =
     bindE (Hull_table ord pts precision) (\<lambda>r.
       case r of None \<Rightarrow> Inr [] | Some ft \<Rightarrow> compact ft)"

text \<open>The overload without a tolerance.\<close>

definition scale_step :: "real \<Rightarrow> vec3 \<Rightarrow> real" where
  "scale_step scale p =
     (let a = abs3 p;
          s1 = (if vx a > scale then vx a else scale);
          s2 = (if vy a > s1 then vy a else s1)
      in if vz a > s2 then vz a else s2)"

definition Hull_default ::
  "(nat \<Rightarrow> ivec2 list \<Rightarrow> ivec2 list) \<Rightarrow> vec3 list \<Rightarrow> error + ivec3 list" where
  "Hull_default ord pts = Hull ord pts (1 / 10 ^ 9 * foldl scale_step 0 pts)"

section \<open>Single and double precision\<close>

text \<open>
  The vectors of the source are \<^verbatim>\<open>glm::vec3\<close> and \<^verbatim>\<open>glm::vec4\<close>, with components of
  type \<^verbatim>\<open>float\<close>; the tolerance, the values returned by \<^verbatim>\<open>DistanceToVector\<close> and
  \<^verbatim>\<open>DistanceToPlane\<close> and the running maxima of seed selection are \<^verbatim>\<open>double\<close>. The
  definitions of this section repeat those of the previous section with the result of every
  arithmetic operation rounded, so that the two can be compared: what is proved of the
  definitions without rounding is a fact of the algorithm over the real numbers, and it is a
  fact of the program only where rounding cannot change it.

  The input points are taken to be \<^verbatim>\<open>float\<close> values and the tolerance a \<^verbatim>\<open>double\<close>.
  Infinities and NaN are not modelled: a rounded result has no largest exponent, and
  \<open>x / 0 = 0\<close> as before. What is proved for every rounding does not depend on this; what is
  evaluated in single precision below involves no number above \<open>1000\<close> and no division by
  zero. Each operation is rounded on its own, as a compiler does that does not contract a
  product and a sum into one fused operation.
\<close>

subsection \<open>Rounding\<close>

text \<open>
  Rounding to the nearest integer, a tie going to the even one, and rounding to the nearest
  number with \<open>p\<close> significant bits and exponent at least \<open>emin\<close> (IEEE 754
  round-to-nearest-even with gradual underflow): \<^verbatim>\<open>float\<close> has \<open>24\<close> bits and the least
  exponent \<open>-126\<close>, \<^verbatim>\<open>double\<close> has \<open>53\<close> bits and the least exponent \<open>-1022\<close>.
\<close>

definition half_even :: "real \<Rightarrow> int" where
  "half_even x =
     (let f = \<lfloor>x\<rfloor>; r = x - of_int f
      in if r < 1 / 2 then f else if 1 / 2 < r then f + 1 else if even f then f else f + 1)"

definition pow2 :: "int \<Rightarrow> real" where
  "pow2 k = (if 0 \<le> k then 2 ^ nat k else 1 / 2 ^ nat (- k))"

definition round_to :: "nat \<Rightarrow> int \<Rightarrow> real \<Rightarrow> real" where
  "round_to p emin x =
     (if x = 0 then 0
      else let e = max emin \<lfloor>log 2 \<bar>x\<bar>\<rfloor>;
               u = pow2 (e - int p + 1)
           in of_int (half_even (x / u)) * u)"

definition float32 :: "real \<Rightarrow> real" where
  "float32 = round_to 24 (- 126)"

definition float64 :: "real \<Rightarrow> real" where
  "float64 = round_to 53 (- 1022)"

text \<open>
  The arithmetic is a parameter of the definitions that follow: \<open>flt\<close> rounds the result of
  an operation on \<^verbatim>\<open>float\<close> operands, \<open>dbl\<close> that of an operation on \<^verbatim>\<open>double\<close> operands.
  \<open>ieee\<close> is IEEE 754 arithmetic with rounding to the nearest, the arithmetic of
  \<^verbatim>\<open>float\<close> and \<^verbatim>\<open>double\<close>; \<open>exact\<close> rounds nothing.
\<close>

record rounding =
  flt :: "real \<Rightarrow> real"
  dbl :: "real \<Rightarrow> real"

definition ieee :: rounding where
  "ieee = \<lparr>flt = float32, dbl = float64\<rparr>"

definition exact :: rounding where
  "exact = \<lparr>flt = (\<lambda>x. x), dbl = (\<lambda>x. x)\<rparr>"

subsection \<open>Vectors and geometric primitives, rounded\<close>

text \<open>
  The operations of glm in the order in which it evaluates them: \<^verbatim>\<open>dot\<close> multiplies
  componentwise and adds the products from left to right, \<^verbatim>\<open>cross\<close> subtracts two
  products in each component, \<^verbatim>\<open>length\<close> is the square root of \<^verbatim>\<open>dot(v, v)\<close>, and a
  vector is divided by a scalar componentwise. \<^verbatim>\<open>DistanceToPlane\<close> subtracts in
  \<^verbatim>\<open>float\<close> and returns the difference as a \<^verbatim>\<open>double\<close>.
\<close>

definition sub3_r :: "rounding \<Rightarrow> vec3 \<Rightarrow> vec3 \<Rightarrow> vec3" where
  "sub3_r R a b = Vec3 (flt R (vx a - vx b)) (flt R (vy a - vy b)) (flt R (vz a - vz b))"

definition scale3_r :: "rounding \<Rightarrow> vec3 \<Rightarrow> real \<Rightarrow> vec3" where
  "scale3_r R v s = Vec3 (flt R (vx v * s)) (flt R (vy v * s)) (flt R (vz v * s))"

definition div3_r :: "rounding \<Rightarrow> vec3 \<Rightarrow> real \<Rightarrow> vec3" where
  "div3_r R v s = Vec3 (flt R (vx v / s)) (flt R (vy v / s)) (flt R (vz v / s))"

definition dot3_r :: "rounding \<Rightarrow> vec3 \<Rightarrow> vec3 \<Rightarrow> real" where
  "dot3_r R a b =
     flt R (flt R (flt R (vx a * vx b) + flt R (vy a * vy b)) + flt R (vz a * vz b))"

definition cross3_r :: "rounding \<Rightarrow> vec3 \<Rightarrow> vec3 \<Rightarrow> vec3" where
  "cross3_r R a b =
     Vec3 (flt R (flt R (vy a * vz b) - flt R (vy b * vz a)))
          (flt R (flt R (vz a * vx b) - flt R (vz b * vx a)))
          (flt R (flt R (vx a * vy b) - flt R (vx b * vy a)))"

definition length3_r :: "rounding \<Rightarrow> vec3 \<Rightarrow> real" where
  "length3_r R v = flt R (sqrt (dot3_r R v v))"

definition distance3_r :: "rounding \<Rightarrow> vec3 \<Rightarrow> vec3 \<Rightarrow> real" where
  "distance3_r R a b = length3_r R (sub3_r R b a)"

definition DistanceToVector_r :: "rounding \<Rightarrow> vec3 \<Rightarrow> vec3 \<Rightarrow> real" where
  "DistanceToVector_r R pt v = length3_r R (sub3_r R pt (scale3_r R v (dot3_r R pt v)))"

definition DistanceToPlane_r :: "rounding \<Rightarrow> vec3 \<Rightarrow> vec4 \<Rightarrow> real" where
  "DistanceToPlane_r R pt plane =
     flt R (dot3_r R (Vec3 (px plane) (py plane) (pz plane)) pt - pw plane)"

definition PlaneOfPts_r :: "rounding \<Rightarrow> vec3 \<Rightarrow> vec3 \<Rightarrow> vec3 \<Rightarrow> vec4" where
  "PlaneOfPts_r R a b c =
     (let crx = cross3_r R (sub3_r R c a) (sub3_r R b a);
          n = length3_r R crx
      in if n = 0 then Vec4 0 0 0 0
         else Vec4 (flt R (vx crx / n)) (flt R (vy crx / n)) (flt R (vz crx / n))
                   (flt R (dot3_r R crx a / n)))"

subsection \<open>Seed selection, rounded\<close>

text \<open>
  \<^verbatim>\<open>dist\<close> is a \<^verbatim>\<open>float\<close> and \<^verbatim>\<open>precision\<close> a \<^verbatim>\<open>double\<close>: the comparisons convert
  without rounding, and the product \<^verbatim>\<open>dist * precision\<close> is a product of doubles.
\<close>

definition furthest_step_r :: "rounding \<Rightarrow> vec3 list \<Rightarrow> int \<times> real \<Rightarrow> nat \<Rightarrow> int \<times> real" where
  "furthest_step_r R pts acc i =
     (let d = distance3_r R (pts ! 0) (pts ! i)
      in if d > snd acc then (int i, d) else acc)"

definition third_step_r ::
  "rounding \<Rightarrow> vec3 list \<Rightarrow> vec3 \<Rightarrow> int \<times> real \<Rightarrow> nat \<Rightarrow> int \<times> real" where
  "third_step_r R pts n acc i =
     (let off = DistanceToVector_r R (sub3_r R (pts ! i) (pts ! 0)) n
      in if off > snd acc then (int i, off) else acc)"

definition NonCollinearTriple_r :: "rounding \<Rightarrow> vec3 list \<Rightarrow> real \<Rightarrow> error + ivec3" where
  "NonCollinearTriple_r R pts precision =
     (let len = length pts in
      if len < 2 then Inl IndexOutOfRange
      else
        let fd = foldl (furthest_step_r R pts) (1, distance3_r R (pts ! 0) (pts ! 1)) [2..<len];
            furthest = fst fd;
            dist = snd fd
        in if dist \<le> precision then Inr (IVec3 (- 1) (- 1) (- 1))
           else
             let n = div3_r R (sub3_r R (pts ! 0) (pts ! nat furthest)) dist;
                 third = fst (foldl (third_step_r R pts n) (- 1, dbl R (dist * precision)) [1..<len])
             in if third < 0 then Inr (IVec3 (- 1) (- 1) (- 1))
                else Inr (IVec3 0 furthest third))"

fun NonCoplanar_from_r :: "rounding \<Rightarrow> nat \<Rightarrow> vec3 list \<Rightarrow> vec4 \<Rightarrow> real \<Rightarrow> int \<times> bool" where
  "NonCoplanar_from_r R i [] plane precision = (- 1, False)"
| "NonCoplanar_from_r R i (p # ps) plane precision =
     (let dist = DistanceToPlane_r R p plane
      in if \<bar>dist\<bar> > precision then (int i, dist > precision)
         else NonCoplanar_from_r R (Suc i) ps plane precision)"

definition NonCoplanar_r :: "rounding \<Rightarrow> vec3 list \<Rightarrow> vec4 \<Rightarrow> real \<Rightarrow> int \<times> bool" where
  "NonCoplanar_r R pts plane precision = NonCoplanar_from_r R 0 pts plane precision"

definition Hull_seed_r ::
  "rounding \<Rightarrow> vec3 list \<Rightarrow> real \<Rightarrow> error + (int \<times> int \<times> int \<times> int) option" where
  "Hull_seed_r R pts precision =
     (if length pts < 4 then Inr None
      else
        bindE (NonCollinearTriple_r R pts precision) (\<lambda>trip.
        bindE (nth_int pts (tx trip)) (\<lambda>p0.
        bindE (nth_int pts (ty trip)) (\<lambda>p1.
        bindE (nth_int pts (tz trip)) (\<lambda>p2.
          let plane = PlaneOfPts_r R p0 p1 p2;
              dd = NonCoplanar_r R pts plane precision;
              d = fst dd;
              dIsAboveTrip = snd dd
          in if d < 0 then Inr None
             else Inr (Some (tx trip,
                             if dIsAboveTrip then tz trip else ty trip,
                             if dIsAboveTrip then ty trip else tz trip,
                             d)))))))"

subsection \<open>The face table and the loop over the points, rounded\<close>

text \<open>
  Only \<^verbatim>\<open>PlaneOfPts\<close> and \<^verbatim>\<open>DistanceToPlane\<close> compute here; the operations on the face table
  and on the half-edge set are those of the section before.
\<close>

definition AddTri_r ::
  "rounding \<Rightarrow> vec3 list \<Rightarrow> int \<Rightarrow> int \<Rightarrow> int \<Rightarrow> face_table \<Rightarrow> error + face_table" where
  "AddTri_r R pts a b c ft =
     (let tri = IVec3 c b a in
      bindE (nth_int pts a) (\<lambda>pa.
      bindE (nth_int pts b) (\<lambda>pb.
      bindE (nth_int pts c) (\<lambda>pc.
        let plane = PlaneOfPts_r R pa pb pc in
        if dropped ft \<noteq> [] then
          let idx = last (dropped ft) in
          if idx < length (triangles ft) \<and> idx < length (planes ft) \<and> idx < length (kept ft)
          then Inr (ft\<lparr>triangles := (triangles ft)[idx := tri],
                       planes := (planes ft)[idx := plane],
                       kept := (kept ft)[idx := True],
                       dropped := butlast (dropped ft)\<rparr>)
          else Inl IndexOutOfRange
        else Inr (ft\<lparr>triangles := triangles ft @ [tri],
                       planes := planes ft @ [plane],
                       kept := kept ft @ [True]\<rparr>)))))"

definition scan_step_r ::
  "rounding \<Rightarrow> vec3 list \<Rightarrow> real \<Rightarrow> nat \<Rightarrow> face_table \<times> ivec2 list \<Rightarrow> nat \<Rightarrow>
   error + face_table \<times> ivec2 list" where
  "scan_step_r R pts precision i st j =
     (let ft = fst st; halfEdges = snd st in
      bindE (look (kept ft) j) (\<lambda>k.
        if \<not> k then Inr st
        else
          bindE (nth_int pts (int i)) (\<lambda>p.
          bindE (look (planes ft) j) (\<lambda>plane.
            if DistanceToPlane_r R p plane > precision then
              bindE (look (triangles ft) j) (\<lambda>t.
                Inr (ft\<lparr>dropped := dropped ft @ [j], kept := (kept ft)[j := False]\<rparr>,
                     insert_edge (IVec2 (ty t) (tx t))
                       (insert_edge (IVec2 (tz t) (ty t))
                         (insert_edge (IVec2 (tx t) (tz t)) halfEdges))))
            else Inr st))))"

function horizon_loop_r ::
  "rounding \<Rightarrow> vec3 list \<Rightarrow> int \<Rightarrow> ivec2 list \<Rightarrow> ivec2 list \<Rightarrow> face_table \<Rightarrow> error + face_table" where
  "horizon_loop_r R pts i visited [] ft = Inr ft"
| "horizon_loop_r R pts i visited (e # rest) ft =
     (let r = IVec2 (ey e) (ex e) in
      if r = e then Inl IteratorInvalidated
      else if r \<in> set visited \<or> r \<in> set rest
      then horizon_loop_r R pts i (removeAll r visited @ [e]) (removeAll r rest) ft
      else bindE (AddTri_r R pts (ex e) (ey e) i ft) (horizon_loop_r R pts i (visited @ [e]) rest))"
  by pat_completeness auto
termination
  by (relation "measure (\<lambda>(R, pts, i, visited, rest, ft). length rest)")
     (auto simp: less_Suc_eq_le)

definition process_point_r ::
  "rounding \<Rightarrow> (nat \<Rightarrow> ivec2 list \<Rightarrow> ivec2 list) \<Rightarrow> vec3 list \<Rightarrow> real \<Rightarrow> nat \<Rightarrow> face_table \<Rightarrow>
   error + face_table" where
  "process_point_r R ord pts precision i ft =
     bindE (foldE (scan_step_r R pts precision i) [0..<length (triangles ft)] (ft, []))
       (\<lambda>st. horizon_loop_r R pts (int i) [] (iter_order ord i (snd st)) (fst st))"

definition point_step_r ::
  "rounding \<Rightarrow> (nat \<Rightarrow> ivec2 list \<Rightarrow> ivec2 list) \<Rightarrow> vec3 list \<Rightarrow> real \<Rightarrow>
   int \<times> int \<times> int \<times> int \<Rightarrow> face_table \<Rightarrow> nat \<Rightarrow> error + face_table" where
  "point_step_r R ord pts precision seed ft i =
     (case seed of (a, b, c, d) \<Rightarrow>
        if int i = a \<or> int i = b \<or> int i = c \<or> int i = d then Inr ft
        else process_point_r R ord pts precision i ft)"

definition seed_table_r ::
  "rounding \<Rightarrow> vec3 list \<Rightarrow> int \<times> int \<times> int \<times> int \<Rightarrow> error + face_table" where
  "seed_table_r R pts seed =
     (case seed of (a, b, c, d) \<Rightarrow>
        bindE (AddTri_r R pts a b c empty_table) (\<lambda>f1.
        bindE (AddTri_r R pts d b a f1) (\<lambda>f2.
        bindE (AddTri_r R pts c d a f2) (\<lambda>f3.
        AddTri_r R pts b d c f3))))"

definition Hull_table_r ::
  "rounding \<Rightarrow> (nat \<Rightarrow> ivec2 list \<Rightarrow> ivec2 list) \<Rightarrow> vec3 list \<Rightarrow> real \<Rightarrow>
   error + face_table option" where
  "Hull_table_r R ord pts precision =
     bindE (Hull_seed_r R pts precision) (\<lambda>s.
       case s of
         None \<Rightarrow> Inr None
       | Some seed \<Rightarrow>
           bindE (seed_table_r R pts seed) (\<lambda>f4.
           bindE (foldE (point_step_r R ord pts precision seed) [0..<length pts] f4) (\<lambda>ft.
           Inr (Some ft))))"

definition Hull_r ::
  "rounding \<Rightarrow> (nat \<Rightarrow> ivec2 list \<Rightarrow> ivec2 list) \<Rightarrow> vec3 list \<Rightarrow> real \<Rightarrow> error + ivec3 list" where
  "Hull_r R ord pts precision =
     bindE (Hull_table_r R ord pts precision) (\<lambda>r.
       case r of None \<Rightarrow> Inr [] | Some ft \<Rightarrow> compact ft)"

text \<open>
  The overload without a tolerance: \<^verbatim>\<open>scale\<close> is a \<^verbatim>\<open>float\<close> found by comparisons alone; the
  literal \<^verbatim>\<open>1e-9\<close> is the \<^verbatim>\<open>double\<close> nearest to \<open>1 / 10 ^ 9\<close>, and the product is a product of doubles.
\<close>

definition Hull_default_r ::
  "rounding \<Rightarrow> (nat \<Rightarrow> ivec2 list \<Rightarrow> ivec2 list) \<Rightarrow> vec3 list \<Rightarrow> error + ivec3 list" where
  "Hull_default_r R ord pts =
     Hull_r R ord pts (dbl R (dbl R (1 / 10 ^ 9) * foldl scale_step 0 pts))"

section \<open>Vocabulary of the properties\<close>

subsection \<open>Invariants of the face table\<close>

text \<open>
  The three vectors \<^verbatim>\<open>triangles\<close>, \<^verbatim>\<open>planes\<close> and \<^verbatim>\<open>kept\<close> are parallel, and
  \<^verbatim>\<open>dropped\<close> lists the dead slots, each once.
\<close>

definition table_inv :: "face_table \<Rightarrow> bool" where
  "table_inv ft \<longleftrightarrow>
     length (planes ft) = length (triangles ft) \<and>
     length (kept ft) = length (triangles ft) \<and>
     distinct (dropped ft) \<and>
     set (dropped ft) = {j. j < length (kept ft) \<and> \<not> kept ft ! j}"

text \<open>
  The face tables that the two mutating operations of \<^verbatim>\<open>Hull\<close>, \<^verbatim>\<open>AddTri\<close> and one
  iteration of the conflict scan, can produce from the empty table. Every value that the
  face table takes between two such operations during a call of \<^verbatim>\<open>Hull\<close> is one of them.
\<close>

inductive table_reach :: "vec3 list \<Rightarrow> real \<Rightarrow> face_table \<Rightarrow> bool" for pts precision where
  reach_empty: "table_reach pts precision empty_table"
| reach_add: "table_reach pts precision ft \<Longrightarrow> AddTri pts a b c ft = Inr ft' \<Longrightarrow>
     table_reach pts precision ft'"
| reach_scan: "table_reach pts precision ft \<Longrightarrow>
     scan_step pts precision i (ft, hs) j = Inr (ft', hs') \<Longrightarrow> table_reach pts precision ft'"

subsection \<open>Inputs worked through\<close>

text \<open>
  The corners of a tetrahedron on the axes and a fifth point just outside two of its faces
  and a quarter below the third, with the tolerance one half. The half-edge set is visited in
  the order of insertion.
\<close>

definition pts5 :: "vec3 list" where
  "pts5 = [Vec3 0 0 0, Vec3 4 0 0, Vec3 0 4 0, Vec3 0 0 4, Vec3 (- 1) (- 1) (- (1 / 4))]"

definition tol5 :: real where
  "tol5 = 1 / 2"

definition insertion_order :: "nat \<Rightarrow> ivec2 list \<Rightarrow> ivec2 list" where
  "insertion_order i hs = hs"

definition tab4 :: face_table where
  "tab4 = \<lparr>triangles = [IVec3 2 1 0, IVec3 0 1 3, IVec3 0 3 2, IVec3 2 3 1],
           planes = [PlaneOfPts (Vec3 0 0 0) (Vec3 4 0 0) (Vec3 0 4 0),
                     PlaneOfPts (Vec3 0 0 4) (Vec3 4 0 0) (Vec3 0 0 0),
                     PlaneOfPts (Vec3 0 4 0) (Vec3 0 0 4) (Vec3 0 0 0),
                     PlaneOfPts (Vec3 4 0 0) (Vec3 0 0 4) (Vec3 0 4 0)],
           dropped = [],
           kept = [True, True, True, True]\<rparr>"

definition edges5 :: "ivec2 list" where
  "edges5 = [IVec2 0 3, IVec2 3 1, IVec2 1 0, IVec2 0 2, IVec2 2 3, IVec2 3 0]"

definition tab4_scanned :: face_table where
  "tab4_scanned = tab4\<lparr>dropped := [1, 2], kept := [True, False, False, True]\<rparr>"

definition tab6 :: face_table where
  "tab6 = \<lparr>triangles = [IVec3 2 1 0, IVec3 4 0 1, IVec3 4 1 3, IVec3 2 3 1, IVec3 4 2 0, IVec3 4 3 2],
           planes = [PlaneOfPts (Vec3 0 0 0) (Vec3 4 0 0) (Vec3 0 4 0),
                     PlaneOfPts (Vec3 4 0 0) (Vec3 0 0 0) (Vec3 (- 1) (- 1) (- (1 / 4))),
                     PlaneOfPts (Vec3 0 0 4) (Vec3 4 0 0) (Vec3 (- 1) (- 1) (- (1 / 4))),
                     PlaneOfPts (Vec3 4 0 0) (Vec3 0 0 4) (Vec3 0 4 0),
                     PlaneOfPts (Vec3 0 0 0) (Vec3 0 4 0) (Vec3 (- 1) (- 1) (- (1 / 4))),
                     PlaneOfPts (Vec3 0 4 0) (Vec3 0 0 4) (Vec3 (- 1) (- 1) (- (1 / 4)))],
           dropped = [],
           kept = [True, True, True, True, True, True]\<rparr>"

text \<open>Degenerate inputs of four points: on a line, all equal, all at the origin.\<close>

definition collinear4 :: "vec3 list" where
  "collinear4 = [Vec3 0 0 0, Vec3 1 0 0, Vec3 2 0 0, Vec3 3 0 0]"

definition same4 :: "vec3 list" where
  "same4 = [Vec3 1 1 1, Vec3 1 1 1, Vec3 1 1 1, Vec3 1 1 1]"

definition origin4 :: "vec3 list" where
  "origin4 = [Vec3 0 0 0, Vec3 0 0 0, Vec3 0 0 0, Vec3 0 0 0]"

subsection \<open>Stored planes and winding\<close>

text \<open>
  A slot holds the triangle \<open>t\<close> and the plane \<open>pl\<close> as \<^verbatim>\<open>AddTri\<close> writes them: the plane is
  that of the three points of \<open>t\<close> taken in reverse order. \<open>wound\<close> is the orientation that
  the interface promises for a triangle, measured against the normal of a plane.
\<close>

definition stored_plane :: "vec3 list \<Rightarrow> ivec3 \<Rightarrow> vec4 \<Rightarrow> bool" where
  "stored_plane pts t pl \<longleftrightarrow>
     0 \<le> tx t \<and> tx t < int (length pts) \<and> 0 \<le> ty t \<and> ty t < int (length pts) \<and>
     0 \<le> tz t \<and> tz t < int (length pts) \<and>
     pl = PlaneOfPts (pts ! nat (tz t)) (pts ! nat (ty t)) (pts ! nat (tx t))"

definition wound :: "vec3 list \<Rightarrow> ivec3 \<Rightarrow> vec4 \<Rightarrow> bool" where
  "wound pts t pl \<longleftrightarrow>
     (\<exists>k>0. cross3 (sub3 (pts ! nat (ty t)) (pts ! nat (tx t)))
                    (sub3 (pts ! nat (tz t)) (pts ! nat (tx t)))
             = scale3 (Vec3 (px pl) (py pl) (pz pl)) k)"

subsection \<open>Half edges, conflicts and new faces\<close>

text \<open>
  The reverse of a half edge; the call of \<^verbatim>\<open>AddTri\<close> in the body of the loop over the
  half-edge set; the three half edges that the conflict scan inserts for a triangle, in the
  order of insertion.
\<close>

definition rev_edge :: "ivec2 \<Rightarrow> ivec2" where
  "rev_edge e = IVec2 (ey e) (ex e)"

definition add_face :: "vec3 list \<Rightarrow> int \<Rightarrow> face_table \<Rightarrow> ivec2 \<Rightarrow> error + face_table" where
  "add_face pts i ft e = AddTri pts (ex e) (ey e) i ft"

definition tri_edges :: "ivec3 \<Rightarrow> ivec2 list" where
  "tri_edges t = [IVec2 (tx t) (tz t), IVec2 (tz t) (ty t), IVec2 (ty t) (tx t)]"

text \<open>
  The test of the conflict scan for the point \<open>i\<close> and the slot \<open>j\<close>, and the state of the scan
  after the slots below \<open>m\<close>.
\<close>

definition in_conflict :: "vec3 list \<Rightarrow> real \<Rightarrow> nat \<Rightarrow> face_table \<Rightarrow> nat \<Rightarrow> bool" where
  "in_conflict pts precision i ft j \<longleftrightarrow>
     kept ft ! j \<and> precision < DistanceToPlane (pts ! i) (planes ft ! j)"

definition scanned ::
  "vec3 list \<Rightarrow> real \<Rightarrow> nat \<Rightarrow> face_table \<Rightarrow> nat \<Rightarrow> face_table \<times> ivec2 list \<Rightarrow> bool" where
  "scanned pts precision i ft m st \<longleftrightarrow>
     triangles (fst st) = triangles ft \<and> planes (fst st) = planes ft \<and>
     length (kept (fst st)) = length (kept ft) \<and>
     kept (fst st) =
       map (\<lambda>j. if j < m then kept ft ! j \<and> \<not> in_conflict pts precision i ft j else kept ft ! j)
         [0..<length (kept ft)] \<and>
     dropped (fst st) = dropped ft @ filter (in_conflict pts precision i ft) [0..<m] \<and>
     set (snd st) = (\<Union>j\<in>{j. j < m \<and> in_conflict pts precision i ft j}. set (tri_edges (triangles ft ! j))) \<and>
     distinct (snd st)"

text \<open>
  How the loop over the half-edge set changes the face table while it processes the point
  \<open>i\<close>: a slot is left as it was, or it now holds a live face \<open>(i, e.y, e.x)\<close> for an edge
  \<open>e\<close> of \<open>E\<close> and was not live before.
\<close>

definition extends :: "int \<Rightarrow> ivec2 set \<Rightarrow> face_table \<Rightarrow> face_table \<Rightarrow> bool" where
  "extends i E ft ft' \<longleftrightarrow>
     length (triangles ft) \<le> length (triangles ft') \<and>
     (\<forall>j<length (triangles ft').
        (j < length (triangles ft) \<and> triangles ft' ! j = triangles ft ! j \<and>
         planes ft' ! j = planes ft ! j \<and> kept ft' ! j = kept ft ! j) \<or>
        (kept ft' ! j \<and> (j < length (triangles ft) \<longrightarrow> \<not> kept ft ! j) \<and>
         (\<exists>e\<in>E. triangles ft' ! j = IVec3 i (ey e) (ex e))))"

subsection \<open>Invariants of the loop over the points\<close>

text \<open>
  A triangle of the face table while the point \<open>m\<close> is the next to be processed: three
  different indices, each a seed index (a member of \<open>S\<close>) or the index of a point already
  processed.
\<close>

definition tri_ok :: "int set \<Rightarrow> nat \<Rightarrow> ivec3 \<Rightarrow> bool" where
  "tri_ok S m t \<longleftrightarrow>
     distinct [tx t, ty t, tz t] \<and>
     (tx t \<in> S \<or> 0 \<le> tx t \<and> tx t < int m) \<and>
     (ty t \<in> S \<or> 0 \<le> ty t \<and> ty t < int m) \<and>
     (tz t \<in> S \<or> 0 \<le> tz t \<and> tz t < int m)"

text \<open>
  What the conflict scan leaves behind, while the point \<open>m\<close> is the next to be processed: a
  live face has no point in front of it, beyond the tolerance, among the points that were
  processed (not skipped as seed points, the members of \<open>S\<close>) after the face was made. A seed
  face has a seed index first; a later face has the point it was made for first.
\<close>

definition scanned_behind :: "vec3 list \<Rightarrow> real \<Rightarrow> int set \<Rightarrow> nat \<Rightarrow> face_table \<Rightarrow> bool" where
  "scanned_behind pts precision S m ft \<longleftrightarrow>
     (\<forall>j<length (triangles ft). kept ft ! j \<longrightarrow>
        (\<forall>i<m. int i \<notin> S \<longrightarrow>
           (tx (triangles ft ! j) \<in> S \<or> tx (triangles ft ! j) < int i) \<longrightarrow>
           DistanceToPlane (pts ! i) (planes ft ! j) \<le> precision))"

subsection \<open>Face tables and stored planes under rounding\<close>

text \<open>
  The face tables that \<^verbatim>\<open>AddTri\<close> and the iterations of the conflict scan can produce from
  the empty table when the arithmetic is \<open>R\<close>, and what a slot holds as \<^verbatim>\<open>AddTri\<close> writes it:
  the triangle \<open>t\<close> and the plane that \<^verbatim>\<open>PlaneOfPts\<close> computes, with the arithmetic \<open>R\<close>, from
  the three points of \<open>t\<close> taken in reverse order.
\<close>

inductive table_reach_r :: "rounding \<Rightarrow> vec3 list \<Rightarrow> real \<Rightarrow> face_table \<Rightarrow> bool"
  for R pts precision where
  reach_empty_r: "table_reach_r R pts precision empty_table"
| reach_add_r: "table_reach_r R pts precision ft \<Longrightarrow> AddTri_r R pts a b c ft = Inr ft' \<Longrightarrow>
     table_reach_r R pts precision ft'"
| reach_scan_r: "table_reach_r R pts precision ft \<Longrightarrow>
     scan_step_r R pts precision i (ft, hs) j = Inr (ft', hs') \<Longrightarrow> table_reach_r R pts precision ft'"

definition stored_plane_r :: "rounding \<Rightarrow> vec3 list \<Rightarrow> ivec3 \<Rightarrow> vec4 \<Rightarrow> bool" where
  "stored_plane_r R pts t pl \<longleftrightarrow>
     0 \<le> tx t \<and> tx t < int (length pts) \<and> 0 \<le> ty t \<and> ty t < int (length pts) \<and>
     0 \<le> tz t \<and> tz t < int (length pts) \<and>
     pl = PlaneOfPts_r R (pts ! nat (tz t)) (pts ! nat (ty t)) (pts ! nat (tx t))"

text \<open>
  The call of \<^verbatim>\<open>AddTri\<close> in the loop over the half-edge set, the test of the conflict
  scan, the state of the scan after the slots below \<open>m\<close>, and what the scan leaves behind,
  as in the vocabulary above, with the arithmetic \<open>R\<close>.
\<close>

definition add_face_r :: "rounding \<Rightarrow> vec3 list \<Rightarrow> int \<Rightarrow> face_table \<Rightarrow> ivec2 \<Rightarrow> error + face_table" where
  "add_face_r R pts i ft e = AddTri_r R pts (ex e) (ey e) i ft"

definition in_conflict_r :: "rounding \<Rightarrow> vec3 list \<Rightarrow> real \<Rightarrow> nat \<Rightarrow> face_table \<Rightarrow> nat \<Rightarrow> bool" where
  "in_conflict_r R pts precision i ft j \<longleftrightarrow>
     kept ft ! j \<and> precision < DistanceToPlane_r R (pts ! i) (planes ft ! j)"

definition scanned_r ::
  "rounding \<Rightarrow> vec3 list \<Rightarrow> real \<Rightarrow> nat \<Rightarrow> face_table \<Rightarrow> nat \<Rightarrow> face_table \<times> ivec2 list \<Rightarrow> bool" where
  "scanned_r R pts precision i ft m st \<longleftrightarrow>
     triangles (fst st) = triangles ft \<and> planes (fst st) = planes ft \<and>
     length (kept (fst st)) = length (kept ft) \<and>
     kept (fst st) =
       map (\<lambda>j. if j < m then kept ft ! j \<and> \<not> in_conflict_r R pts precision i ft j else kept ft ! j)
         [0..<length (kept ft)] \<and>
     dropped (fst st) = dropped ft @ filter (in_conflict_r R pts precision i ft) [0..<m] \<and>
     set (snd st) = (\<Union>j\<in>{j. j < m \<and> in_conflict_r R pts precision i ft j}. set (tri_edges (triangles ft ! j))) \<and>
     distinct (snd st)"

definition scanned_behind_r ::
  "rounding \<Rightarrow> vec3 list \<Rightarrow> real \<Rightarrow> int set \<Rightarrow> nat \<Rightarrow> face_table \<Rightarrow> bool" where
  "scanned_behind_r R pts precision S m ft \<longleftrightarrow>
     (\<forall>j<length (triangles ft). kept ft ! j \<longrightarrow>
        (\<forall>i<m. int i \<notin> S \<longrightarrow>
           (tx (triangles ft ! j) \<in> S \<or> tx (triangles ft ! j) < int i) \<longrightarrow>
           DistanceToPlane_r R (pts ! i) (planes ft ! j) \<le> precision))"

subsection \<open>An input worked through in single precision\<close>

text \<open>
  Four points with small integer coordinates, the corners of a tetrahedron: the points 0, 1
  and 2 span the plane \<open>3 x + 4 y = 7\<close>, whose unit normal \<open>(3/5, 4/5, 0)\<close> is not a vector of
  \<^verbatim>\<open>float\<close> numbers, and the point 3 lies at the distance 5 from that plane. \<open>tolF\<close> is the
  tolerance that the overload without a tolerance derives for these points, and \<open>tolH\<close> a
  tolerance above the rounding errors.
\<close>

definition ptsF :: "vec3 list" where
  "ptsF = [Vec3 1 1 0, Vec3 1 1 5, Vec3 5 (- 2) 0, Vec3 4 5 0]"

definition tolF :: real where
  "tolF = dbl ieee (dbl ieee (1 / 10 ^ 9) * foldl scale_step 0 ptsF)"

definition tolH :: real where
  "tolH = 1 / 1024"

text \<open>
  The face tables of the run with the tolerance \<open>tolF\<close>: after the four seed faces, after the
  conflict scan for the point 3, and at the end. The planes that no comparison reads are left
  as \<^verbatim>\<open>PlaneOfPts\<close> computes them.
\<close>

definition tabF4 :: face_table where
  "tabF4 = \<lparr>triangles = [IVec3 2 1 0, IVec3 0 1 0, IVec3 0 0 2, IVec3 2 0 1],
            planes = [Vec4 (- (5033165 / 8388608)) (- (13421773 / 16777216)) 0 (- (11744051 / 8388608)),
                      Vec4 0 0 0 0,
                      Vec4 0 0 0 0,
                      Vec4 (5033165 / 8388608) (13421773 / 16777216) 0 (11744051 / 8388608)],
            dropped = [],
            kept = [True, True, True, True]\<rparr>"

definition scannedF :: face_table where
  "scannedF = tabF4\<lparr>dropped := [3], kept := [True, True, True, False]\<rparr>"

definition tabF6 :: face_table where
  "tabF6 = \<lparr>triangles = [IVec3 2 1 0, IVec3 0 1 0, IVec3 0 0 2, IVec3 3 1 2, IVec3 3 0 1, IVec3 3 2 0],
            planes = [Vec4 (- (5033165 / 8388608)) (- (13421773 / 16777216)) 0 (- (11744051 / 8388608)),
                      Vec4 0 0 0 0,
                      Vec4 0 0 0 0,
                      PlaneOfPts_r ieee (Vec3 5 (- 2) 0) (Vec3 1 1 5) (Vec3 4 5 0),
                      PlaneOfPts_r ieee (Vec3 1 1 5) (Vec3 1 1 0) (Vec3 4 5 0),
                      PlaneOfPts_r ieee (Vec3 1 1 0) (Vec3 5 (- 2) 0) (Vec3 4 5 0)],
            dropped = [],
            kept = [True, True, True, True, True, True]\<rparr>"

text \<open>The face table of the run with the tolerance \<open>tolH\<close>: the four seed faces.\<close>

definition tabH :: face_table where
  "tabH = \<lparr>triangles = [IVec3 2 1 0, IVec3 0 1 3, IVec3 0 3 2, IVec3 2 3 1],
           planes = [Vec4 (- (5033165 / 8388608)) (- (13421773 / 16777216)) 0 (- (11744051 / 8388608)),
                     PlaneOfPts_r ieee (Vec3 4 5 0) (Vec3 1 1 5) (Vec3 1 1 0),
                     PlaneOfPts_r ieee (Vec3 5 (- 2) 0) (Vec3 4 5 0) (Vec3 1 1 0),
                     PlaneOfPts_r ieee (Vec3 1 1 5) (Vec3 4 5 0) (Vec3 5 (- 2) 0)],
           dropped = [],
           kept = [True, True, True, True]\<rparr>"

text \<open>
  The face tables of the run on the input of five points, in single precision: the planes of
  the seed faces as computed, those of the faces made for the point 4 as \<^verbatim>\<open>PlaneOfPts\<close>
  computes them.
\<close>

definition tab4_ieee :: face_table where
  "tab4_ieee = \<lparr>triangles = [IVec3 2 1 0, IVec3 0 1 3, IVec3 0 3 2, IVec3 2 3 1],
            planes = [Vec4 0 0 (- 1) 0,
                      Vec4 0 (- 1) 0 0,
                      Vec4 (- 1) 0 0 0,
                      Vec4 (4843165 / 8388608) (4843165 / 8388608) (4843165 / 8388608) (4843165 / 2097152)],
            dropped = [],
            kept = [True, True, True, True]\<rparr>"

definition tab4_scanned_ieee :: face_table where
  "tab4_scanned_ieee = tab4_ieee\<lparr>dropped := [1, 2], kept := [True, False, False, True]\<rparr>"

definition tab6_ieee :: face_table where
  "tab6_ieee = \<lparr>triangles = [IVec3 2 1 0, IVec3 4 0 1, IVec3 4 1 3, IVec3 2 3 1, IVec3 4 2 0, IVec3 4 3 2],
            planes = [Vec4 0 0 (- 1) 0,
                      PlaneOfPts_r ieee (Vec3 4 0 0) (Vec3 0 0 0) (Vec3 (- 1) (- 1) (- (1 / 4))),
                      PlaneOfPts_r ieee (Vec3 0 0 4) (Vec3 4 0 0) (Vec3 (- 1) (- 1) (- (1 / 4))),
                      Vec4 (4843165 / 8388608) (4843165 / 8388608) (4843165 / 8388608) (4843165 / 2097152),
                      PlaneOfPts_r ieee (Vec3 0 0 0) (Vec3 0 4 0) (Vec3 (- 1) (- 1) (- (1 / 4))),
                      PlaneOfPts_r ieee (Vec3 0 4 0) (Vec3 0 0 4) (Vec3 (- 1) (- 1) (- (1 / 4)))],
            dropped = [],
            kept = [True, True, True, True, True, True]\<rparr>"

section \<open>Basic facts\<close>

subsection \<open>Results\<close>

lemma bindE_Inr [simp]: "bindE (Inr x) f = f x"
  by (simp add: bindE_def)

lemma bindE_Inl [simp]: "bindE (Inl e) f = Inl e"
  by (simp add: bindE_def)

lemma bindE_eq_Inr: "bindE m f = Inr y \<longleftrightarrow> (\<exists>x. m = Inr x \<and> f x = Inr y)"
  by (cases m) simp_all

lemma nth_int_eq_Inr: "nth_int xs i = Inr x \<longleftrightarrow> 0 \<le> i \<and> i < int (length xs) \<and> x = xs ! nat i"
  by (auto simp: nth_int_def)

lemma look_eq_Inr: "look xs j = Inr x \<longleftrightarrow> j < length xs \<and> x = xs ! j"
  by (auto simp: look_def)

subsection \<open>Comparisons with a square root\<close>

lemma less_sqrt_iff: "0 \<le> c \<Longrightarrow> (c < sqrt x) = (c * c < x)"
proof -
  assume c: "0 \<le> c"
  then have e: "sqrt (c * c) = c" by simp
  have "(sqrt (c * c) < sqrt x) = (c * c < x)" by (rule real_sqrt_less_iff)
  then show ?thesis by (simp only: e)
qed

lemma sqrt_le_iff: "0 \<le> c \<Longrightarrow> (sqrt x \<le> c) = (x \<le> c * c)"
  using less_sqrt_iff [of c x] by auto

lemma less_quotient_iff:
  fixes t s n :: real
  assumes t: "0 \<le> t" and n: "0 \<le> n" and z: "n = 0 \<longrightarrow> s = 0"
  shows "(t < s / n) = (0 < s \<and> t * t * (n * n) < s * s)"
proof (cases "n = 0")
  case True
  with z t show ?thesis by simp
next
  case False
  with n have np: "0 < n" by simp
  have tn: "0 \<le> t * n" using t n by simp
  have "(t < s / n) = (t * n < s)" using np by (simp add: pos_less_divide_eq)
  also have "\<dots> = (0 < s \<and> (t * n) * (t * n) < s * s)"
  proof
    assume h: "t * n < s"
    with tn have "0 < s" by simp
    moreover have "(t * n) * (t * n) < s * s"
      using h tn by (simp add: mult_strict_mono')
    ultimately show "0 < s \<and> (t * n) * (t * n) < s * s" by simp
  next
    assume h: "0 < s \<and> (t * n) * (t * n) < s * s"
    show "t * n < s"
    proof (rule ccontr)
      assume "\<not> t * n < s"
      then have "s \<le> t * n" by simp
      with h have "s * s \<le> (t * n) * (t * n)" by (simp add: mult_mono)
      with h show False by simp
    qed
  qed
  also have "(t * n) * (t * n) = t * t * (n * n)" by (simp add: algebra_simps)
  finally show ?thesis .
qed

subsection \<open>Planes through three points\<close>

lemma length3_nonneg: "0 \<le> length3 v"
  by (simp add: length3_def dot3_def)

lemma length3_square: "length3 v * length3 v = dot3 v v"
  by (simp add: length3_def dot3_def)

lemma length3_zero_iff: "length3 v = 0 \<longleftrightarrow> v = Vec3 0 0 0"
proof -
  have "dot3 v v = 0 \<longleftrightarrow> vx v = 0 \<and> vy v = 0 \<and> vz v = 0"
    unfolding dot3_def
    by (metis add_nonneg_eq_0_iff mult_eq_0_iff zero_le_square add_nonneg_nonneg)
  then show ?thesis
    by (cases v) (simp add: length3_def)
qed

lemma DistanceToPlane_PlaneOfPts:
  "DistanceToPlane p (PlaneOfPts a b c) =
     dot3 (cross3 (sub3 c a) (sub3 b a)) (sub3 p a) / length3 (cross3 (sub3 c a) (sub3 b a))"
proof -
  define crx where "crx = cross3 (sub3 c a) (sub3 b a)"
  have s: "dot3 crx (sub3 p a) = dot3 crx p - dot3 crx a"
    by (simp add: dot3_def sub3_def algebra_simps)
  show ?thesis
    unfolding crx_def [symmetric]
    by (simp add: PlaneOfPts_def Let_def DistanceToPlane_def crx_def [symmetric] s
        diff_divide_distrib) (simp add: dot3_def add_divide_distrib)
qed

lemma conflict_iff:
  assumes "0 \<le> t"
  shows "(t < DistanceToPlane p (PlaneOfPts a b c)) =
         (0 < dot3 (cross3 (sub3 c a) (sub3 b a)) (sub3 p a) \<and>
          t * t * dot3 (cross3 (sub3 c a) (sub3 b a)) (cross3 (sub3 c a) (sub3 b a))
            < dot3 (cross3 (sub3 c a) (sub3 b a)) (sub3 p a)
              * dot3 (cross3 (sub3 c a) (sub3 b a)) (sub3 p a))"
proof -
  define crx where "crx = cross3 (sub3 c a) (sub3 b a)"
  have z: "length3 crx = 0 \<longrightarrow> dot3 crx (sub3 p a) = 0"
    by (simp add: length3_zero_iff dot3_def)
  show ?thesis
    unfolding DistanceToPlane_PlaneOfPts crx_def [symmetric]
    using less_quotient_iff [OF assms length3_nonneg z]
    by (simp add: length3_square)
qed

lemma DistanceToPlane_swap:
  "DistanceToPlane p (PlaneOfPts a c b) = - DistanceToPlane p (PlaneOfPts a b c)"
proof -
  have c: "cross3 (sub3 b a) (sub3 c a) = scale3 (cross3 (sub3 c a) (sub3 b a)) (- 1)"
    by (simp add: cross3_def scale3_def)
  have l: "length3 (scale3 v (- 1)) = length3 v" for v
    by (simp add: length3_def dot3_def scale3_def)
  have d: "dot3 (scale3 v (- 1)) w = - dot3 v w" for v w
    by (simp add: dot3_def scale3_def)
  show ?thesis
    by (simp add: DistanceToPlane_PlaneOfPts c l d)
qed

lemma abs_conflict_iff:
  assumes "0 \<le> t"
  shows "(t < \<bar>DistanceToPlane p (PlaneOfPts a b c)\<bar>) =
         (t * t * dot3 (cross3 (sub3 c a) (sub3 b a)) (cross3 (sub3 c a) (sub3 b a))
            < dot3 (cross3 (sub3 c a) (sub3 b a)) (sub3 p a)
              * dot3 (cross3 (sub3 c a) (sub3 b a)) (sub3 p a))"
proof -
  define crx where "crx = cross3 (sub3 c a) (sub3 b a)"
  define s where "s = dot3 crx (sub3 p a)"
  define n where "n = length3 crx"
  have n: "0 \<le> n" by (simp add: n_def length3_nonneg)
  have z: "n = 0 \<longrightarrow> s = 0" "n = 0 \<longrightarrow> - s = 0"
    by (simp_all add: n_def s_def length3_zero_iff dot3_def)
  have "(t < \<bar>s / n\<bar>) = (t < s / n \<or> t < (- s) / n)"
    unfolding minus_divide_left [symmetric] by linarith
  also have "\<dots> = ((0 < s \<or> s < 0) \<and> t * t * (n * n) < s * s)"
    using less_quotient_iff [OF assms n z(1)] less_quotient_iff [OF assms n z(2)]
    by auto
  also have "\<dots> = (t * t * (n * n) < s * s)"
  proof -
    have nn: "0 \<le> t * t * (n * n)" by simp
    have "s \<noteq> 0" if "t * t * (n * n) < s * s"
    proof
      assume "s = 0"
      with that have "t * t * (n * n) < 0" by simp
      with nn show False by linarith
    qed
    then show ?thesis by auto
  qed
  finally show ?thesis
    unfolding DistanceToPlane_PlaneOfPts crx_def [symmetric] s_def [symmetric] n_def [symmetric]
    by (simp add: n_def length3_square)
qed

subsection \<open>Loops\<close>

lemma foldE_append: "foldE f (xs @ ys) s = bindE (foldE f xs s) (foldE f ys)"
  by (induction xs arbitrary: s) (auto simp: bindE_def split: sum.splits)

lemma foldE_inv:
  assumes "foldE f xs s = Inr s'" and "P s"
    and "\<And>x s s'. x \<in> set xs \<Longrightarrow> P s \<Longrightarrow> f s x = Inr s' \<Longrightarrow> P s'"
  shows "P s'"
  using assms
proof (induction xs arbitrary: s)
  case Nil
  then show ?case by simp
next
  case (Cons x xs)
  from Cons.prems(1) obtain s1 where s1: "f s x = Inr s1" "foldE f xs s1 = Inr s'"
    by (auto simp: bindE_eq_Inr)
  have "P s1" using Cons.prems(3) [of x s s1] Cons.prems(2) s1 by simp
  moreover have "\<And>y t t'. y \<in> set xs \<Longrightarrow> P t \<Longrightarrow> f t y = Inr t' \<Longrightarrow> P t'"
    using Cons.prems(3) by auto
  ultimately show ?case using Cons.IH [OF s1(2)] by blast
qed

lemma foldE_upt_inv:
  assumes "foldE f [0..<n] s = Inr s'" and "I 0 s"
    and "\<And>i s s'. i < n \<Longrightarrow> I i s \<Longrightarrow> f s i = Inr s' \<Longrightarrow> I (Suc i) s'"
  shows "I n s'"
  using assms
proof (induction n arbitrary: s')
  case 0
  then show ?case by simp
next
  case (Suc n)
  from Suc.prems(1) obtain s1 where s1: "foldE f [0..<n] s = Inr s1" "f s1 n = Inr s'"
    by (auto simp: foldE_append bindE_eq_Inr)
  have "I n s1" using Suc.IH [OF s1(1) Suc.prems(2)] Suc.prems(3) by simp
  then show ?case using Suc.prems(3) [of n s1 s'] s1(2) by simp
qed

lemma AddTri_Inr:
  assumes "AddTri pts a b c ft = Inr ft'"
  shows "0 \<le> a \<and> a < int (length pts) \<and> 0 \<le> b \<and> b < int (length pts) \<and>
         0 \<le> c \<and> c < int (length pts) \<and>
         (if dropped ft \<noteq> [] then
            last (dropped ft) < length (triangles ft) \<and> last (dropped ft) < length (planes ft) \<and>
            last (dropped ft) < length (kept ft) \<and>
            ft' = ft\<lparr>triangles := (triangles ft)[last (dropped ft) := IVec3 c b a],
                      planes := (planes ft)[last (dropped ft) :=
                                  PlaneOfPts (pts ! nat a) (pts ! nat b) (pts ! nat c)],
                      kept := (kept ft)[last (dropped ft) := True],
                      dropped := butlast (dropped ft)\<rparr>
          else ft' = ft\<lparr>triangles := triangles ft @ [IVec3 c b a],
                         planes := planes ft @ [PlaneOfPts (pts ! nat a) (pts ! nat b) (pts ! nat c)],
                         kept := kept ft @ [True]\<rparr>)"
  using assms
  by (auto simp: AddTri_def Let_def bindE_eq_Inr nth_int_eq_Inr split: if_splits)

lemma scan_step_Inr:
  assumes "scan_step pts precision i (ft, hs) j = Inr (ft', hs')"
  shows "j < length (kept ft) \<and>
         (if kept ft ! j \<and> precision < DistanceToPlane (pts ! i) (planes ft ! j)
          then i < length pts \<and> j < length (planes ft) \<and> j < length (triangles ft) \<and>
               ft' = ft\<lparr>dropped := dropped ft @ [j], kept := (kept ft)[j := False]\<rparr> \<and>
               hs' = insert_edge (IVec2 (ty (triangles ft ! j)) (tx (triangles ft ! j)))
                       (insert_edge (IVec2 (tz (triangles ft ! j)) (ty (triangles ft ! j)))
                         (insert_edge (IVec2 (tx (triangles ft ! j)) (tz (triangles ft ! j))) hs))
          else ft' = ft \<and> hs' = hs)"
  using assms
  by (auto simp: scan_step_def Let_def bindE_eq_Inr nth_int_eq_Inr look_eq_Inr split: if_splits)

lemma table_inv_empty: "table_inv empty_table"
  by (simp add: table_inv_def empty_table_def)

lemma set_butlast_distinct: "distinct xs \<Longrightarrow> xs \<noteq> [] \<Longrightarrow> set (butlast xs) = set xs - {last xs}"
  by (induction xs rule: rev_induct) auto

lemma table_inv_AddTri:
  assumes "table_inv ft" and "AddTri pts a b c ft = Inr ft'"
  shows "table_inv ft'"
proof (cases "dropped ft = []")
  case True
  with AddTri_Inr [OF assms(2)] have ft': "ft' = ft\<lparr>triangles := triangles ft @ [IVec3 c b a],
      planes := planes ft @ [PlaneOfPts (pts ! nat a) (pts ! nat b) (pts ! nat c)],
      kept := kept ft @ [True]\<rparr>" by simp
  from assms(1) True have e: "\<And>j. j < length (kept ft) \<Longrightarrow> kept ft ! j"
    by (auto simp: table_inv_def)
  have "{j. j < Suc (length (kept ft)) \<and> \<not> (kept ft @ [True]) ! j} = {}"
    using e by (auto simp: nth_append less_Suc_eq)
  with assms(1) True show ?thesis
    by (simp add: table_inv_def ft')
next
  case False
  define idx where "idx = last (dropped ft)"
  from False AddTri_Inr [OF assms(2)] have ft': "ft' = ft\<lparr>triangles := (triangles ft)[idx := IVec3 c b a],
      planes := (planes ft)[idx := PlaneOfPts (pts ! nat a) (pts ! nat b) (pts ! nat c)],
      kept := (kept ft)[idx := True], dropped := butlast (dropped ft)\<rparr>"
    and idx: "idx < length (kept ft)"
    by (simp_all add: idx_def)
  from assms(1) have d: "distinct (dropped ft)"
    and s: "set (dropped ft) = {j. j < length (kept ft) \<and> \<not> kept ft ! j}"
    by (simp_all add: table_inv_def)
  have "set (butlast (dropped ft)) = set (dropped ft) - {idx}"
    using set_butlast_distinct [OF d False] by (simp add: idx_def)
  also have "\<dots> = {j. j < length (kept ft) \<and> \<not> (kept ft)[idx := True] ! j}"
    using idx by (auto simp: s nth_list_update)
  finally show ?thesis
    using assms(1) d by (simp add: table_inv_def ft' distinct_butlast)
qed

lemma table_inv_scan_step:
  assumes "table_inv ft" and "scan_step pts precision i (ft, hs) j = Inr (ft', hs')"
  shows "table_inv ft'"
proof (cases "kept ft ! j \<and> precision < DistanceToPlane (pts ! i) (planes ft ! j)")
  case False
  with scan_step_Inr [OF assms(2)] assms(1) show ?thesis by auto
next
  case True
  with scan_step_Inr [OF assms(2)]
  have ft': "ft' = ft\<lparr>dropped := dropped ft @ [j], kept := (kept ft)[j := False]\<rparr>"
    and j: "j < length (kept ft)" by simp_all
  from assms(1) have d: "distinct (dropped ft)"
    and s: "set (dropped ft) = {j. j < length (kept ft) \<and> \<not> kept ft ! j}"
    by (simp_all add: table_inv_def)
  from True s have "j \<notin> set (dropped ft)" by simp
  moreover have "insert j (set (dropped ft)) = {k. k < length (kept ft) \<and> \<not> (kept ft)[j := False] ! k}"
    using j by (auto simp: s nth_list_update)
  ultimately show ?thesis
    using assms(1) d by (simp add: table_inv_def ft')
qed

lemma table_reach_inv: "table_reach pts precision ft \<Longrightarrow> table_inv ft"
  by (induction rule: table_reach.induct)
     (auto intro: table_inv_empty table_inv_AddTri table_inv_scan_step)

lemma table_reach_scan_loop:
  assumes "foldE (scan_step pts precision i) js st = Inr st'" and "table_reach pts precision (fst st)"
  shows "table_reach pts precision (fst st')"
proof (rule foldE_inv [OF assms(1), where P = "\<lambda>st. table_reach pts precision (fst st)"])
  show "table_reach pts precision (fst st)" by (rule assms(2))
next
  fix j s s'
  assume "table_reach pts precision (fst s)" and "scan_step pts precision i s j = Inr s'"
  then show "table_reach pts precision (fst s')"
    using reach_scan [of pts precision "fst s" i "snd s" j "fst s'" "snd s'"] by simp
qed

lemma table_reach_horizon_loop:
  "table_reach pts precision ft \<Longrightarrow> horizon_loop pts i visited rest ft = Inr ft' \<Longrightarrow>
   table_reach pts precision ft'"
proof (induction pts i visited rest ft rule: horizon_loop.induct)
  case (1 pts i visited ft)
  then show ?case by simp
next
  case (2 pts i visited e rest ft)
  define r where "r = IVec2 (ey e) (ex e)"
  from "2.prems"(2) have ne: "r \<noteq> e"
    by (auto simp: r_def Let_def split: if_splits)
  show ?case
  proof (cases "r \<in> set visited \<or> r \<in> set rest")
    case True
    with "2.prems" ne have "horizon_loop pts i (removeAll r visited @ [e]) (removeAll r rest) ft = Inr ft'"
      by (simp add: r_def Let_def)
    with "2.IH"(1) [OF r_def ne True "2.prems"(1)] show ?thesis by simp
  next
    case False
    with "2.prems" ne obtain f1 where f1: "AddTri pts (ex e) (ey e) i ft = Inr f1"
      "horizon_loop pts i (visited @ [e]) rest f1 = Inr ft'"
      by (auto simp: r_def Let_def bindE_eq_Inr)
    have "table_reach pts precision f1"
      using reach_add [OF "2.prems"(1) f1(1)] .
    then show ?thesis
      using "2.IH"(2) [OF r_def ne False] f1(2) by simp
  qed
qed

lemma table_reach_process_point:
  assumes "table_reach pts precision ft" and "process_point ord pts precision i ft = Inr ft'"
  shows "table_reach pts precision ft'"
proof -
  from assms(2) obtain st where st:
    "foldE (scan_step pts precision i) [0..<length (triangles ft)] (ft, []) = Inr st"
    "horizon_loop pts (int i) [] (iter_order ord i (snd st)) (fst st) = Inr ft'"
    by (auto simp: process_point_def bindE_eq_Inr)
  have "table_reach pts precision (fst st)"
    using table_reach_scan_loop [OF st(1)] assms(1) by simp
  then show ?thesis using table_reach_horizon_loop st(2) by blast
qed

lemma table_reach_seed_table:
  assumes "seed_table pts seed = Inr f4"
  shows "table_reach pts precision f4"
proof -
  obtain a b c d where seed: "seed = (a, b, c, d)" by (cases seed) auto
  from assms obtain f1 f2 f3 where
    f: "AddTri pts a b c empty_table = Inr f1" "AddTri pts d b a f1 = Inr f2"
    "AddTri pts c d a f2 = Inr f3" "AddTri pts b d c f3 = Inr f4"
    by (auto simp: seed seed_table_def bindE_eq_Inr)
  have "table_reach pts precision f1" using reach_empty f(1) by (rule reach_add)
  then have "table_reach pts precision f2" using f(2) by (rule reach_add)
  then have "table_reach pts precision f3" using f(3) by (rule reach_add)
  then show ?thesis using f(4) by (rule reach_add)
qed

lemma Hull_table_Some:
  assumes "Hull_table ord pts precision = Inr (Some ft)"
  obtains seed f4 where "Hull_seed pts precision = Inr (Some seed)"
    and "seed_table pts seed = Inr f4"
    and "foldE (point_step ord pts precision seed) [0..<length pts] f4 = Inr ft"
  using assms
  by (auto simp: Hull_table_def bindE_eq_Inr split: option.splits)

lemma table_reach_Hull_table:
  assumes "Hull_table ord pts precision = Inr (Some ft)"
  shows "table_reach pts precision ft"
proof -
  from assms obtain seed f4 where f4: "seed_table pts seed = Inr f4"
    and run: "foldE (point_step ord pts precision seed) [0..<length pts] f4 = Inr ft"
    by (rule Hull_table_Some)
  show ?thesis
  proof (rule foldE_inv [OF run, where P = "table_reach pts precision"])
    show "table_reach pts precision f4" using f4 by (rule table_reach_seed_table)
  next
    fix i s s'
    assume "table_reach pts precision s" and "point_step ord pts precision seed s i = Inr s'"
    then show "table_reach pts precision s'"
      by (cases seed) (auto simp: point_step_def split: if_splits intro: table_reach_process_point)
  qed
qed

lemma compact_loop:
  assumes "length (kept ft) = length (triangles ft)" and "n \<le> length (triangles ft)"
  shows "foldE (compact_step ft) [0..<n] out =
         Inr (out @ map (\<lambda>j. triangles ft ! j) (filter (\<lambda>j. kept ft ! j) [0..<n]))"
  using assms(2)
proof (induction n)
  case 0
  then show ?case by simp
next
  case (Suc n)
  then show ?case
    using assms(1) by (simp add: foldE_append compact_step_def look_def)
qed

lemma compact_eq:
  assumes "table_inv ft"
  shows "compact ft = Inr (map (\<lambda>j. triangles ft ! j) (filter (\<lambda>j. kept ft ! j) [0..<length (triangles ft)]))"
  using assms compact_loop [of ft "length (triangles ft)" "[]"]
  by (simp add: compact_def table_inv_def)

subsection \<open>The input of five points, step by step\<close>

lemma tol5_nonneg: "0 \<le> tol5" by (simp add: tol5_def)

lemma sqrt16: "sqrt 16 = 4"
  by (rule real_sqrt_unique) simp_all

lemma upt_5: "[2..<5] = [2,3,4]" "[1..<5] = [1,2,3,4]" "[0..<5] = [0,1,2,3,4]" "[0..<4] = [0,1,2,3]" "[Suc 0..<5] = [1,2,3,4]"
  by (simp_all add: upt_rec)

lemma len5: "length pts5 = 5" by (simp add: pts5_def)
lemma nth5: "pts5 ! 0 = Vec3 0 0 0" "pts5 ! 1 = Vec3 4 0 0" "pts5 ! 2 = Vec3 0 4 0" "pts5 ! 3 = Vec3 0 0 4"
  "pts5 ! 4 = Vec3 (- 1) (- 1) (- (1 / 4))"
  "pts5 ! Suc 0 = Vec3 4 0 0"
  by (simp_all add: pts5_def)

lemma nth_int5: "nth_int pts5 0 = Inr (Vec3 0 0 0)" "nth_int pts5 1 = Inr (Vec3 4 0 0)"
  "nth_int pts5 2 = Inr (Vec3 0 4 0)" "nth_int pts5 3 = Inr (Vec3 0 0 4)"
  "nth_int pts5 4 = Inr (Vec3 (- 1) (- 1) (- (1 / 4)))"
  by (simp_all add: nth_int_def len5 nth5)

lemma d1: "distance3 (pts5 ! 0) (pts5 ! 1) = 4"
  by (simp add: nth5 distance3_def length3_def sub3_def dot3_def sqrt16)

lemma f5: "foldl (furthest_step pts5) (1, distance3 (pts5 ! 0) (pts5 ! 1)) [2..<length pts5] = (1, 4)"
  by (simp add: len5 upt_5 furthest_step_def nth5 distance3_def length3_def sub3_def dot3_def sqrt16 Let_def less_sqrt_iff)

lemma t5: "foldl (third_step pts5 (Vec3 (- 1) 0 0)) (- 1, 2) [1..<length pts5] = (2, 4)"
  by (simp add: len5 upt_5 third_step_def nth5 DistanceToVector_def length3_def sub3_def dot3_def scale3_def sqrt16 Let_def less_sqrt_iff)

lemma n5: "div3 (sub3 (pts5 ! 0) (pts5 ! nat 1)) 4 = Vec3 (- 1) 0 0"
  by (simp add: nth5 sub3_def div3_def)

lemma nct5: "NonCollinearTriple pts5 tol5 = Inr (IVec3 0 1 2)"
proof -
  have t: "foldl (third_step pts5 (Vec3 (- 1) 0 0)) (- 1, 4 * tol5) [1..<length pts5] = (2, 4)"
    using t5 by (simp add: tol5_def)
  show ?thesis
    unfolding NonCollinearTriple_def Let_def f5 fst_conv snd_conv n5 t
    by (simp add: len5 tol5_def)
qed

lemma ncp5: "NonCoplanar pts5 (PlaneOfPts (Vec3 0 0 0) (Vec3 4 0 0) (Vec3 0 4 0)) tol5 = (3, False)"
  by (simp add: NonCoplanar_def pts5_def abs_conflict_iff conflict_iff tol5_nonneg Let_def sub3_def cross3_def dot3_def)
     (simp add: tol5_def)

lemma seed5: "Hull_seed pts5 tol5 = Inr (Some (0, 1, 2, 3))"
  by (simp add: Hull_seed_def len5 nct5 nth_int5 ncp5 Let_def)

lemma seed_table5: "seed_table pts5 (0, 1, 2, 3) = Inr tab4"
  by (simp add: seed_table_def AddTri_def nth_int5 empty_table_def tab4_def Let_def)

lemma scan5: "foldE (scan_step pts5 tol5 4) [0..<length (triangles tab4)] (tab4, []) = Inr (tab4_scanned, edges5)"
proof -
  have l: "[0..<length (triangles tab4)] = [0, 1, 2, 3]"
    by (simp add: tab4_def upt_5)
  show ?thesis
    unfolding l
    apply (simp add: scan_step_def look_def tab4_def nth_int5 Let_def conflict_iff tol5_nonneg
        sub3_def cross3_def dot3_def)
    apply (simp add: tol5_def insert_edge_def tab4_scanned_def tab4_def edges5_def)
    done
qed

lemma horizon5: "horizon_loop pts5 4 [] edges5 tab4_scanned = Inr tab6"
  by (simp add: edges5_def tab4_scanned_def tab4_def tab6_def AddTri_def nth_int5 Let_def)

lemma process5: "process_point insertion_order pts5 tol5 4 tab4 = Inr tab6"
  by (simp add: process_point_def scan5 iter_order_def insertion_order_def horizon5)

lemma table5: "Hull_table insertion_order pts5 tol5 = Inr (Some tab6)"
  by (simp add: Hull_table_def seed5 seed_table5 len5 upt_5 point_step_def process5)

lemma hull5: "Hull insertion_order pts5 tol5 =
    Inr [IVec3 2 1 0, IVec3 4 0 1, IVec3 4 1 3, IVec3 2 3 1, IVec3 4 2 0, IVec3 4 3 2]"
  by (simp add: Hull_def table5 compact_def compact_step_def look_def tab6_def upt_rec)

section \<open>Degenerate inputs and the face table\<close>

text \<open>
  \<^verbatim>\<open>Hull\<close> indexes \<^verbatim>\<open>pts\<close> with the components of the triple whatever they are: with the
  sentinel \<open>-1\<close> the read is out of range.
\<close>

lemma sentinel_unchecked:
  assumes "4 \<le> length pts" and "NonCollinearTriple pts precision = Inr (IVec3 (- 1) (- 1) (- 1))"
  shows "Hull ord pts precision = Inl IndexOutOfRange"
  using assms
  by (simp add: Hull_def Hull_table_def Hull_seed_def nth_int_def)

lemma sqrt9: "sqrt 9 = 3"
  by (rule real_sqrt_unique) simp_all

lemma nct_collinear4: "NonCollinearTriple collinear4 0 = Inr (IVec3 (- 1) (- 1) (- 1))"
proof -
  have l: "[2..<length collinear4] = [2, 3]" "[1..<length collinear4] = [1, 2, 3]"
    by (simp_all add: collinear4_def upt_rec)
  have f: "foldl (furthest_step collinear4) (1, distance3 (collinear4 ! 0) (collinear4 ! 1)) [2..<length collinear4] = (3, 3)"
    unfolding l
    by (simp add: collinear4_def furthest_step_def distance3_def length3_def sub3_def dot3_def Let_def sqrt9)
  have t: "foldl (third_step collinear4 (div3 (sub3 (collinear4 ! 0) (collinear4 ! nat 3)) 3)) (- 1, 3 * 0)
             [1..<length collinear4] = (- 1, 0)"
    unfolding l
    by (simp add: collinear4_def third_step_def DistanceToVector_def length3_def sub3_def dot3_def
        div3_def scale3_def Let_def)
  show ?thesis
    unfolding NonCollinearTriple_def Let_def f fst_conv snd_conv t
    by (simp add: collinear4_def)
qed

text \<open>
  C1. Four points on a line, with the tolerance zero: seed selection returns the sentinel
  triple, and \<^verbatim>\<open>Hull\<close> does not return the empty vector but reads \<^verbatim>\<open>pts[-1]\<close>.
\<close>

theorem hull_collinear4:
  "NonCollinearTriple collinear4 0 = Inr (IVec3 (- 1) (- 1) (- 1)) \<and>
   Hull insertion_order collinear4 0 = Inl IndexOutOfRange"
  using sentinel_unchecked [of collinear4 0 insertion_order] nct_collinear4
  by (simp add: collinear4_def)

lemma nct_same4: "NonCollinearTriple same4 precision = Inr (IVec3 (- 1) (- 1) (- 1))" if "0 \<le> precision"
proof -
  have l: "[2..<length same4] = [2, 3]"
    by (simp_all add: same4_def upt_rec)
  have f: "foldl (furthest_step same4) (1, distance3 (same4 ! 0) (same4 ! 1)) [2..<length same4] = (1, 0)"
    unfolding l
    by (simp add: same4_def furthest_step_def distance3_def length3_def sub3_def dot3_def Let_def)
  show ?thesis
    unfolding NonCollinearTriple_def Let_def f fst_conv snd_conv
    using that by (simp add: same4_def)
qed

text \<open>
  C2. Four equal points, a degenerate input: the result of \<^verbatim>\<open>Hull\<close> is not the empty vector
  but the out-of-range read.
\<close>

theorem hull_same4: "Hull insertion_order same4 tol5 = Inl IndexOutOfRange"
  using sentinel_unchecked [of same4 tol5 insertion_order] nct_same4 [OF tol5_nonneg]
  by (simp add: same4_def)

lemma nct_origin4: "NonCollinearTriple origin4 0 = Inr (IVec3 (- 1) (- 1) (- 1))"
proof -
  have l: "[2..<length origin4] = [2, 3]"
    by (simp_all add: origin4_def upt_rec)
  have f: "foldl (furthest_step origin4) (1, distance3 (origin4 ! 0) (origin4 ! 1)) [2..<length origin4] = (1, 0)"
    unfolding l
    by (simp add: origin4_def furthest_step_def distance3_def length3_def sub3_def dot3_def Let_def)
  show ?thesis
    unfolding NonCollinearTriple_def Let_def f fst_conv snd_conv
    by (simp add: origin4_def)
qed

lemma scale_origin4: "foldl scale_step 0 origin4 = 0"
  by (simp add: origin4_def scale_step_def abs3_def Let_def)

text \<open>
  C8. Four points at the origin: the tolerance derived by the overload without a tolerance is
  zero, and the call reads \<^verbatim>\<open>pts[-1]\<close> instead of returning the empty vector.
\<close>

theorem hull_default_origin4:
  "1 / 10 ^ 9 * foldl scale_step 0 origin4 = 0 \<and>
   Hull_default insertion_order origin4 = Inl IndexOutOfRange"
  using sentinel_unchecked [of origin4 0 insertion_order] nct_origin4
  by (simp add: Hull_default_def scale_origin4) (simp add: origin4_def)

text \<open>
  C9. Every face table that \<^verbatim>\<open>AddTri\<close> and the iterations of the conflict scan can produce
  from the empty table, and so every table that \<^verbatim>\<open>Hull\<close> holds between two of these
  operations, has \<^verbatim>\<open>triangles\<close>, \<^verbatim>\<open>planes\<close> and \<^verbatim>\<open>kept\<close> of equal length and
  \<^verbatim>\<open>dropped\<close> listing exactly the slots with \<^verbatim>\<open>kept[j] = false\<close>, each once. The
  final table is one of them, and the output is its triangles at the slots with
  \<^verbatim>\<open>kept[j] = true\<close>, in increasing slot order.
\<close>

theorem face_table_parallel:
  assumes "Hull_table ord pts precision = Inr (Some ft)"
  shows "table_reach pts precision ft \<and>
         (\<forall>t. table_reach pts precision t \<longrightarrow> table_inv t) \<and>
         Hull ord pts precision =
           Inr (map (\<lambda>j. triangles ft ! j) (filter (\<lambda>j. kept ft ! j) [0..<length (triangles ft)]))"
proof -
  have r: "table_reach pts precision ft"
    using assms by (rule table_reach_Hull_table)
  then have "table_inv ft" by (rule table_reach_inv)
  then have "compact ft = Inr (map (\<lambda>j. triangles ft ! j) (filter (\<lambda>j. kept ft ! j) [0..<length (triangles ft)]))"
    by (rule compact_eq)
  with r assms show ?thesis
    by (simp add: Hull_def table_reach_inv)
qed

theorem face_table_parallel_witness:
  "table_reach pts5 tol5 tab6 \<and> table_inv tab6 \<and>
   Hull insertion_order pts5 tol5 =
     Inr [IVec3 2 1 0, IVec3 4 0 1, IVec3 4 1 3, IVec3 2 3 1, IVec3 4 2 0, IVec3 4 3 2]"
  using face_table_parallel [OF table5] hull5 by simp

section \<open>Orientation of the stored faces in exact arithmetic\<close>

lemma cross3_reverse:
  "cross3 (sub3 b c) (sub3 a c) = cross3 (sub3 c a) (sub3 b a)"
  by (simp add: cross3_def sub3_def algebra_simps)

lemma PlaneOfPts_wound:
  "\<exists>k>0. cross3 (sub3 b c) (sub3 a c) =
     scale3 (Vec3 (px (PlaneOfPts a b c)) (py (PlaneOfPts a b c)) (pz (PlaneOfPts a b c))) k"
proof -
  define crx where "crx = cross3 (sub3 c a) (sub3 b a)"
  define n where "n = length3 crx"
  have V: "cross3 (sub3 b c) (sub3 a c) = crx"
    unfolding crx_def by (rule cross3_reverse)
  show ?thesis
  proof (cases "n = 0")
    case True
    then have c0: "crx = Vec3 0 0 0" by (simp add: n_def length3_zero_iff)
    have "PlaneOfPts a b c = Vec4 0 0 0 0"
      using True by (simp add: PlaneOfPts_def Let_def crx_def [symmetric] n_def [symmetric])
    then have "crx =
        scale3 (Vec3 (px (PlaneOfPts a b c)) (py (PlaneOfPts a b c)) (pz (PlaneOfPts a b c))) 1"
      by (simp add: c0 scale3_def)
    then show ?thesis unfolding V by (intro exI [of _ 1]) simp
  next
    case False
    then have np: "0 < n" using length3_nonneg [of crx] by (simp add: n_def)
    have "PlaneOfPts a b c = Vec4 (vx crx / n) (vy crx / n) (vz crx / n) (dot3 crx a / n)"
      using False by (simp add: PlaneOfPts_def Let_def crx_def [symmetric] n_def [symmetric])
    then have "crx =
        scale3 (Vec3 (px (PlaneOfPts a b c)) (py (PlaneOfPts a b c)) (pz (PlaneOfPts a b c))) n"
      using False by (cases crx) (simp add: scale3_def)
    with np show ?thesis unfolding V by blast
  qed
qed

lemma stored_plane_wound: "stored_plane pts t pl \<Longrightarrow> wound pts t pl"
  using PlaneOfPts_wound [of "pts ! nat (ty t)" "pts ! nat (tx t)" "pts ! nat (tz t)"]
  by (simp add: stored_plane_def wound_def)

lemma stored_AddTri:
  assumes "list_all2 (stored_plane pts) (triangles ft) (planes ft)"
    and "AddTri pts a b c ft = Inr ft'"
  shows "list_all2 (stored_plane pts) (triangles ft') (planes ft')"
proof -
  note r = AddTri_Inr [OF assms(2)]
  have new: "stored_plane pts (IVec3 c b a) (PlaneOfPts (pts ! nat a) (pts ! nat b) (pts ! nat c))"
    using r by (simp add: stored_plane_def)
  show ?thesis
  proof (cases "dropped ft = []")
    case True
    with r have "triangles ft' = triangles ft @ [IVec3 c b a]"
      "planes ft' = planes ft @ [PlaneOfPts (pts ! nat a) (pts ! nat b) (pts ! nat c)]"
      by simp_all
    with assms(1) new show ?thesis
      by (simp add: list_all2_appendI)
  next
    case False
    with r have "triangles ft' = (triangles ft)[last (dropped ft) := IVec3 c b a]"
      "planes ft' = (planes ft)[last (dropped ft) := PlaneOfPts (pts ! nat a) (pts ! nat b) (pts ! nat c)]"
      by simp_all
    with assms(1) new show ?thesis
      by (simp add: list_all2_update_cong)
  qed
qed

lemma stored_scan_step:
  assumes "list_all2 (stored_plane pts) (triangles ft) (planes ft)"
    and "scan_step pts precision i (ft, hs) j = Inr (ft', hs')"
  shows "list_all2 (stored_plane pts) (triangles ft') (planes ft')"
  using scan_step_Inr [OF assms(2)] assms(1)
  by (auto split: if_splits)

lemma table_reach_stored:
  "table_reach pts precision ft \<Longrightarrow> list_all2 (stored_plane pts) (triangles ft) (planes ft)"
proof (induction rule: table_reach.induct)
  case reach_empty
  show ?case by (simp add: empty_table_def)
next
  case (reach_add ft a b c ft')
  then show ?case using stored_AddTri by blast
next
  case (reach_scan ft i hs j ft' hs')
  then show ?case using stored_scan_step by blast
qed

lemma Hull_out:
  assumes "Hull_table ord pts precision = Inr (Some ft)" and "Hull ord pts precision = Inr out"
  shows "table_inv ft \<and> out = map (\<lambda>j. triangles ft ! j) (filter (\<lambda>j. kept ft ! j) [0..<length (triangles ft)])"
proof -
  have "table_inv ft"
    using assms(1) table_reach_Hull_table table_reach_inv by blast
  with compact_eq [OF this] assms show ?thesis
    by (simp add: Hull_def)
qed

lemma Hull_out_slot:
  assumes "Hull_table ord pts precision = Inr (Some ft)" and "Hull ord pts precision = Inr out"
    and "t \<in> set out"
  obtains j where "j < length (triangles ft)" and "kept ft ! j" and "triangles ft ! j = t"
  using Hull_out [OF assms(1,2)] assms(3) by auto

text \<open>
  Without rounding the stored normal is the cross product divided by its length: every output
  triangle \<open>t\<close> sits in a live slot of the final table, and
  \<open>cross(pts[t1] - pts[t0], pts[t2] - pts[t0])\<close> is a positive multiple of the normal of the
  plane stored in that slot (for a face without area both are the null vector). This is a
  fact of exact arithmetic; the section on four points in single precision shows the program
  storing a normal that is not parallel to the cross product.
\<close>

lemma exact_faces_wound:
  assumes "Hull_table ord pts precision = Inr (Some ft)"
    and "Hull ord pts precision = Inr out"
    and "t \<in> set out"
  shows "(\<forall>f. table_reach pts precision f \<longrightarrow>
            list_all2 (stored_plane pts) (triangles f) (planes f)) \<and>
         (\<exists>j<length (triangles ft). kept ft ! j \<and> triangles ft ! j = t \<and>
            stored_plane pts t (planes ft ! j) \<and> wound pts t (planes ft ! j))"
proof -
  from assms obtain j where j: "j < length (triangles ft)" "kept ft ! j" "triangles ft ! j = t"
    by (rule Hull_out_slot)
  have "list_all2 (stored_plane pts) (triangles ft) (planes ft)"
    using assms(1) table_reach_Hull_table table_reach_stored by blast
  with j have s: "stored_plane pts t (planes ft ! j)"
    by (auto simp: list_all2_conv_all_nth)
  then have "wound pts t (planes ft ! j)" by (rule stored_plane_wound)
  with j s show ?thesis
    using table_reach_stored by blast
qed

section \<open>The seed tetrahedron\<close>

lemma NonCoplanar_from_found:
  assumes "NonCoplanar_from k ps plane precision = (d, isAbove)" and "0 \<le> d"
  shows "int k \<le> d \<and> d < int (k + length ps) \<and>
         precision < \<bar>DistanceToPlane (ps ! (nat d - k)) plane\<bar> \<and>
         isAbove = (precision < DistanceToPlane (ps ! (nat d - k)) plane)"
  using assms
proof (induction ps arbitrary: k)
  case Nil
  then show ?case by simp
next
  case (Cons p ps)
  show ?case
  proof (cases "precision < \<bar>DistanceToPlane p plane\<bar>")
    case True
    with Cons.prems show ?thesis by (auto simp: Let_def)
  next
    case False
    with Cons.prems have r: "NonCoplanar_from (Suc k) ps plane precision = (d, isAbove)"
      by (simp add: Let_def)
    from Cons.IH [OF r Cons.prems(2)] have
      k: "int (Suc k) \<le> d" "d < int (Suc k + length ps)"
      and f: "precision < \<bar>DistanceToPlane (ps ! (nat d - Suc k)) plane\<bar>"
        "isAbove = (precision < DistanceToPlane (ps ! (nat d - Suc k)) plane)"
      by simp_all
    from k have "nat d - k = Suc (nat d - Suc k)" by linarith
    with k f show ?thesis by simp
  qed
qed

lemma NonCoplanar_found:
  assumes "NonCoplanar pts plane precision = (d, isAbove)" and "0 \<le> d"
  shows "d < int (length pts) \<and>
         precision < \<bar>DistanceToPlane (pts ! nat d) plane\<bar> \<and>
         isAbove = (precision < DistanceToPlane (pts ! nat d) plane)"
  using NonCoplanar_from_found [of 0 pts plane precision d isAbove] assms
  by (simp add: NonCoplanar_def)

lemma Hull_seed_Some:
  assumes "Hull_seed pts precision = Inr (Some (a, b, c, d))"
  obtains trip isAbove where "4 \<le> length pts"
    and "NonCollinearTriple pts precision = Inr trip"
    and "0 \<le> tx trip" "tx trip < int (length pts)"
    and "0 \<le> ty trip" "ty trip < int (length pts)"
    and "0 \<le> tz trip" "tz trip < int (length pts)"
    and "NonCoplanar pts (PlaneOfPts (pts ! nat (tx trip)) (pts ! nat (ty trip)) (pts ! nat (tz trip)))
           precision = (d, isAbove)"
    and "0 \<le> d" and "a = tx trip"
    and "b = (if isAbove then tz trip else ty trip)"
    and "c = (if isAbove then ty trip else tz trip)"
proof -
  from assms have len: "4 \<le> length pts"
    by (auto simp: Hull_seed_def split: if_splits)
  with assms have "\<exists>trip. NonCollinearTriple pts precision = Inr trip \<and>
      0 \<le> tx trip \<and> tx trip < int (length pts) \<and>
      0 \<le> ty trip \<and> ty trip < int (length pts) \<and>
      0 \<le> tz trip \<and> tz trip < int (length pts) \<and>
      \<not> fst (NonCoplanar pts (PlaneOfPts (pts ! nat (tx trip)) (pts ! nat (ty trip)) (pts ! nat (tz trip))) precision) < 0 \<and>
      a = tx trip \<and>
      d = fst (NonCoplanar pts (PlaneOfPts (pts ! nat (tx trip)) (pts ! nat (ty trip)) (pts ! nat (tz trip))) precision) \<and>
      b = (if snd (NonCoplanar pts (PlaneOfPts (pts ! nat (tx trip)) (pts ! nat (ty trip)) (pts ! nat (tz trip))) precision)
           then tz trip else ty trip) \<and>
      c = (if snd (NonCoplanar pts (PlaneOfPts (pts ! nat (tx trip)) (pts ! nat (ty trip)) (pts ! nat (tz trip))) precision)
           then ty trip else tz trip)"
    by (auto simp: Hull_seed_def bindE_eq_Inr nth_int_eq_Inr Let_def split: if_splits)
  then obtain trip where t: "NonCollinearTriple pts precision = Inr trip"
      "0 \<le> tx trip" "tx trip < int (length pts)"
      "0 \<le> ty trip" "ty trip < int (length pts)"
      "0 \<le> tz trip" "tz trip < int (length pts)"
      "\<not> fst (NonCoplanar pts (PlaneOfPts (pts ! nat (tx trip)) (pts ! nat (ty trip)) (pts ! nat (tz trip))) precision) < 0"
      "a = tx trip"
      "d = fst (NonCoplanar pts (PlaneOfPts (pts ! nat (tx trip)) (pts ! nat (ty trip)) (pts ! nat (tz trip))) precision)"
      "b = (if snd (NonCoplanar pts (PlaneOfPts (pts ! nat (tx trip)) (pts ! nat (ty trip)) (pts ! nat (tz trip))) precision)
           then tz trip else ty trip)"
      "c = (if snd (NonCoplanar pts (PlaneOfPts (pts ! nat (tx trip)) (pts ! nat (ty trip)) (pts ! nat (tz trip))) precision)
           then ty trip else tz trip)"
    by blast
  show ?thesis
    by (rule that [of trip "snd (NonCoplanar pts (PlaneOfPts (pts ! nat (tx trip)) (pts ! nat (ty trip)) (pts ! nat (tz trip))) precision)"])
       (use len t in simp_all)
qed

text \<open>
  C5, as the code has it. When \<^verbatim>\<open>Hull\<close> gets past seed selection with the triple
  \<open>trip\<close> and the fourth point \<open>d\<close>: if \<open>d\<close> lies in front of the candidate plane (signed
  distance above the tolerance) the two in-plane indices are swapped, \<open>b = trip.z\<close> and
  \<open>c = trip.y\<close>; otherwise \<open>d\<close> lies behind it (signed distance below minus the tolerance) and
  they keep their order. Either way \<open>d\<close> ends up behind the plane of the first seed face
  \<open>(a, b, c)\<close> by more than the tolerance.
\<close>

theorem seed_swap_in_front:
  assumes "Hull_seed pts precision = Inr (Some (a, b, c, d))"
  shows "\<exists>trip. NonCollinearTriple pts precision = Inr trip \<and> a = tx trip \<and>
           0 \<le> d \<and> d < int (length pts) \<and>
           (if precision < DistanceToPlane (pts ! nat d)
                 (PlaneOfPts (pts ! nat (tx trip)) (pts ! nat (ty trip)) (pts ! nat (tz trip)))
            then b = tz trip \<and> c = ty trip
            else DistanceToPlane (pts ! nat d)
                   (PlaneOfPts (pts ! nat (tx trip)) (pts ! nat (ty trip)) (pts ! nat (tz trip)))
                   < - precision \<and> b = ty trip \<and> c = tz trip) \<and>
           DistanceToPlane (pts ! nat d) (PlaneOfPts (pts ! nat a) (pts ! nat b) (pts ! nat c))
             < - precision"
proof -
  from assms obtain trip isAbove where trip: "NonCollinearTriple pts precision = Inr trip"
    and ncp: "NonCoplanar pts (PlaneOfPts (pts ! nat (tx trip)) (pts ! nat (ty trip)) (pts ! nat (tz trip)))
           precision = (d, isAbove)"
    and d: "0 \<le> d" and a: "a = tx trip"
    and b: "b = (if isAbove then tz trip else ty trip)"
    and c: "c = (if isAbove then ty trip else tz trip)"
    by (rule Hull_seed_Some)
  define dist where "dist = DistanceToPlane (pts ! nat d)
     (PlaneOfPts (pts ! nat (tx trip)) (pts ! nat (ty trip)) (pts ! nat (tz trip)))"
  from NonCoplanar_found [OF ncp d] have dl: "d < int (length pts)"
    and far: "precision < \<bar>dist\<bar>" and ab: "isAbove = (precision < dist)"
    by (simp_all add: dist_def)
  have sw: "DistanceToPlane (pts ! nat d)
     (PlaneOfPts (pts ! nat (tx trip)) (pts ! nat (tz trip)) (pts ! nat (ty trip))) = - dist"
    unfolding dist_def by (rule DistanceToPlane_swap)
  have behind: "dist < - precision" if "\<not> precision < dist"
    using that far by linarith
  have final: "DistanceToPlane (pts ! nat d) (PlaneOfPts (pts ! nat a) (pts ! nat b) (pts ! nat c))
      < - precision"
  proof (cases isAbove)
    case True
    with ab a b c sw show ?thesis by simp
  next
    case False
    with ab a b c behind show ?thesis by (simp add: dist_def)
  qed
  show ?thesis
    using trip a d dl ab b c behind final
    by (intro exI [of _ trip]) (simp add: dist_def [symmetric])
qed

theorem seed_swap_in_front_witness:
  "NonCollinearTriple pts5 tol5 = Inr (IVec3 0 1 2) \<and>
   DistanceToPlane (pts5 ! nat 3) (PlaneOfPts (pts5 ! nat 0) (pts5 ! nat 1) (pts5 ! nat 2)) < - tol5"
  using seed_swap_in_front [OF seed5] nct5 by simp

text \<open>
  C5 as stated fails on the input of five points: the fourth point, index 3, lies behind the candidate
  plane of the triple \<open>(0, 1, 2)\<close>, and the in-plane indices are not swapped.
\<close>

theorem seed_swap_counterexample:
  "NonCollinearTriple pts5 tol5 = Inr (IVec3 0 1 2) \<and>
   DistanceToPlane (pts5 ! 3) (PlaneOfPts (pts5 ! 0) (pts5 ! 1) (pts5 ! 2)) < - tol5 \<and>
   Hull_seed pts5 tol5 = Inr (Some (0, 1, 2, 3)) \<and>
   Hull_seed pts5 tol5 \<noteq> Inr (Some (0, 2, 1, 3))"
proof -
  have "tol5 < DistanceToPlane (pts5 ! 3) (PlaneOfPts (pts5 ! 0) (pts5 ! 2) (pts5 ! 1))"
    by (simp add: nth5 conflict_iff tol5_nonneg sub3_def cross3_def dot3_def) (simp add: tol5_def)
  then have "DistanceToPlane (pts5 ! 3) (PlaneOfPts (pts5 ! 0) (pts5 ! 1) (pts5 ! 2)) < - tol5"
    by (simp add: DistanceToPlane_swap [of _ _ "pts5 ! 2"])
  then show ?thesis
    by (simp add: nct5 seed5)
qed

section \<open>The conflict scan and the horizon\<close>

lemma rev_edge_rev [simp]: "rev_edge (rev_edge e) = e"
  by (simp add: rev_edge_def)

lemma rev_edge_eq_iff: "rev_edge x = y \<longleftrightarrow> x = rev_edge y"
  by (auto simp: rev_edge_def)

lemma set_insert_edge [simp]: "set (insert_edge e hs) = insert e (set hs)"
  by (auto simp: insert_edge_def)

lemma distinct_insert_edge [simp]: "distinct (insert_edge e hs) = distinct hs"
  by (auto simp: insert_edge_def)

lemma horizon_loop_eq:
  assumes "distinct rest"
    and "\<forall>v\<in>set visited. rev_edge v \<notin> set visited \<and> rev_edge v \<notin> set rest"
    and "horizon_loop pts i visited rest ft = Inr ft'"
  shows "foldE (add_face pts i) (filter (\<lambda>e. rev_edge e \<notin> set rest) rest) ft = Inr ft'"
  using assms
proof (induction pts i visited rest ft rule: horizon_loop.induct)
  case (1 pts i visited ft)
  then show ?case by simp
next
  case (2 pts i visited e rest ft)
  define r where "r = IVec2 (ey e) (ex e)"
  have rr: "r = rev_edge e" by (simp add: r_def rev_edge_def)
  from "2.prems"(3) have ne: "r \<noteq> e"
    by (auto simp: r_def Let_def split: if_splits)
  from "2.prems"(1) have e_rest: "e \<notin> set rest" and d: "distinct rest" by simp_all
  have r_vis: "r \<notin> set visited"
  proof
    assume "r \<in> set visited"
    with "2.prems"(2) have "rev_edge r \<notin> set (e # rest)" by blast
    then show False by (simp add: rr)
  qed
  have vis_e: "rev_edge v \<noteq> e" if "v \<in> set visited" for v
    using that "2.prems"(2) by auto
  show ?case
  proof (cases "r \<in> set rest")
    case True
    with "2.prems"(3) ne r_vis have run:
      "horizon_loop pts i (visited @ [e]) (removeAll r rest) ft = Inr ft'"
      by (simp add: r_def [symmetric] Let_def)
    have inv: "\<forall>v\<in>set (removeAll r visited @ [e]).
        rev_edge v \<notin> set (removeAll r visited @ [e]) \<and> rev_edge v \<notin> set (removeAll r rest)"
      using "2.prems"(2) r_vis ne vis_e by (auto simp: rr)
    have "foldE (add_face pts i) (filter (\<lambda>x. rev_edge x \<notin> set (removeAll r rest)) (removeAll r rest)) ft = Inr ft'"
      using "2.IH"(1) [OF r_def ne _ _ inv] True d run r_vis
      by (simp add: distinct_removeAll)
    moreover have "filter (\<lambda>x. rev_edge x \<notin> set (e # rest)) (e # rest) =
        filter (\<lambda>x. rev_edge x \<notin> set (removeAll r rest)) (removeAll r rest)"
    proof -
      have "filter (\<lambda>x. rev_edge x \<notin> set (e # rest)) rest =
            filter (\<lambda>x. rev_edge x \<notin> set (removeAll r rest)) (removeAll r rest)"
        unfolding removeAll_filter_not_eq filter_filter
      proof (rule filter_cong [OF refl])
        fix x assume x: "x \<in> set rest"
        have "x \<noteq> e" using x e_rest by auto
        then have "rev_edge x \<noteq> r" by (auto simp: rr rev_edge_def ivec2.expand)
        show "(rev_edge x \<notin> set (e # rest)) =
              (r \<noteq> x \<and> rev_edge x \<notin> set (filter (\<lambda>y. r \<noteq> y) rest))"
        proof (cases "x = r")
          case True
          then show ?thesis by (simp add: rr)
        next
          case False
          have "rev_edge x \<noteq> e" using False by (auto simp: rr rev_edge_eq_iff)
          with False \<open>rev_edge x \<noteq> r\<close> show ?thesis by auto
        qed
      qed
      with True show ?thesis by (simp add: rr [symmetric])
    qed
    ultimately show ?thesis by simp
  next
    case False
    with "2.prems"(3) ne r_vis obtain f1 where f1: "AddTri pts (ex e) (ey e) i ft = Inr f1"
      and run: "horizon_loop pts i (visited @ [e]) rest f1 = Inr ft'"
      by (auto simp: r_def [symmetric] Let_def bindE_eq_Inr)
    have inv: "\<forall>v\<in>set (visited @ [e]). rev_edge v \<notin> set (visited @ [e]) \<and> rev_edge v \<notin> set rest"
      using "2.prems"(2) r_vis ne vis_e False by (auto simp: rr [symmetric])
    have "foldE (add_face pts i) (filter (\<lambda>x. rev_edge x \<notin> set rest) rest) f1 = Inr ft'"
      using "2.IH"(2) [OF r_def ne _ d inv run] False r_vis by simp
    moreover have "filter (\<lambda>x. rev_edge x \<notin> set (e # rest)) rest =
        filter (\<lambda>x. rev_edge x \<notin> set rest) rest"
    proof (rule filter_cong [OF refl])
      fix x assume x: "x \<in> set rest"
      have "rev_edge x \<noteq> e"
      proof
        assume "rev_edge x = e"
        then have "x = r" by (simp add: rr rev_edge_eq_iff)
        with x False show False by simp
      qed
      then show "(rev_edge x \<notin> set (e # rest)) = (rev_edge x \<notin> set rest)" by simp
    qed
    moreover have "add_face pts i ft e = Inr f1"
      using f1 by (simp add: add_face_def)
    ultimately show ?thesis
      using False ne by (simp add: rr [symmetric])
  qed
qed

lemma scanned_0: "scanned pts precision i ft 0 (ft, [])"
  by (simp add: scanned_def map_nth)

lemma scanned_step:
  assumes I: "scanned pts precision i ft m st" and step: "scan_step pts precision i st m = Inr st'"
  shows "scanned pts precision i ft (Suc m) st'"
proof -
  obtain ft1 hs where st: "st = (ft1, hs)" by (cases st)
  obtain ft2 hs2 where st': "st' = (ft2, hs2)" by (cases st')
  note r = scan_step_Inr [OF step [unfolded st st']]
  from I have tri: "triangles ft1 = triangles ft" and pl: "planes ft1 = planes ft"
    and len: "length (kept ft1) = length (kept ft)"
    and k: "kept ft1 = map (\<lambda>j. if j < m then kept ft ! j \<and> \<not> in_conflict pts precision i ft j else kept ft ! j)
         [0..<length (kept ft)]"
    and dr: "dropped ft1 = dropped ft @ filter (in_conflict pts precision i ft) [0..<m]"
    and hs: "set hs = (\<Union>j\<in>{j. j < m \<and> in_conflict pts precision i ft j}. set (tri_edges (triangles ft ! j)))"
    and dist: "distinct hs"
    by (simp_all add: scanned_def st)
  from r have m: "m < length (kept ft)" using len by simp
  have km: "kept ft1 ! m = kept ft ! m"
    using m by (simp add: k)
  have c: "(kept ft1 ! m \<and> precision < DistanceToPlane (pts ! i) (planes ft1 ! m)) =
        in_conflict pts precision i ft m"
    by (simp add: km pl in_conflict_def)
  have split: "{j. j < Suc m \<and> in_conflict pts precision i ft j} =
      {j. j < m \<and> in_conflict pts precision i ft j} \<union> (if in_conflict pts precision i ft m then {m} else {})"
    by (auto simp: less_Suc_eq)
  show ?thesis
  proof (cases "in_conflict pts precision i ft m")
    case False
    with r c have e: "ft2 = ft1" "hs2 = hs" by simp_all
    have "kept ft1 = map (\<lambda>j. if j < Suc m then kept ft ! j \<and> \<not> in_conflict pts precision i ft j else kept ft ! j)
         [0..<length (kept ft)]"
      unfolding k using False by (auto simp: less_Suc_eq in_conflict_def)
    with False tri pl len dr hs dist show ?thesis
      unfolding scanned_def st' e split by simp
  next
    case True
    with r c have ft2: "ft2 = ft1\<lparr>dropped := dropped ft1 @ [m], kept := (kept ft1)[m := False]\<rparr>"
      and hs2: "hs2 = insert_edge (IVec2 (ty (triangles ft1 ! m)) (tx (triangles ft1 ! m)))
                       (insert_edge (IVec2 (tz (triangles ft1 ! m)) (ty (triangles ft1 ! m)))
                         (insert_edge (IVec2 (tx (triangles ft1 ! m)) (tz (triangles ft1 ! m))) hs))"
      by simp_all
    have k2: "(kept ft1)[m := False] =
        map (\<lambda>j. if j < Suc m then kept ft ! j \<and> \<not> in_conflict pts precision i ft j else kept ft ! j)
         [0..<length (kept ft)]"
    proof (rule nth_equalityI)
      show "length ((kept ft1)[m := False]) =
          length (map (\<lambda>j. if j < Suc m then kept ft ! j \<and> \<not> in_conflict pts precision i ft j else kept ft ! j)
           [0..<length (kept ft)])"
        by (simp add: len)
    next
      fix j assume "j < length ((kept ft1)[m := False])"
      then have j: "j < length (kept ft)" by (simp add: len)
      then have old: "kept ft1 ! j = (if j < m then kept ft ! j \<and> \<not> in_conflict pts precision i ft j else kept ft ! j)"
        by (simp add: k)
      show "(kept ft1)[m := False] ! j =
          map (\<lambda>j. if j < Suc m then kept ft ! j \<and> \<not> in_conflict pts precision i ft j else kept ft ! j)
           [0..<length (kept ft)] ! j"
      proof (cases "j = m")
        case True
        with \<open>in_conflict pts precision i ft m\<close> m len show ?thesis by simp
      next
        case False
        with j len old show ?thesis by (auto simp: less_Suc_eq)
      qed
    qed
    have s2: "set hs2 = set hs \<union> set (tri_edges (triangles ft ! m))"
      by (auto simp: hs2 tri tri_edges_def)
    have s3: "set hs2 = (\<Union>j\<in>{j. j < Suc m \<and> in_conflict pts precision i ft j}.
        set (tri_edges (triangles ft ! j)))"
      unfolding split s2 hs using True by auto
    have d2: "distinct hs2" using dist by (simp add: hs2)
    have dr2: "dropped ft2 = dropped ft @ filter (in_conflict pts precision i ft) [0..<Suc m]"
      using True by (simp add: ft2 dr)
    have k3: "kept ft2 = map (\<lambda>j. if j < Suc m then kept ft ! j \<and> \<not> in_conflict pts precision i ft j else kept ft ! j)
         [0..<length (kept ft)]"
      using k2 by (simp add: ft2)
    have "triangles ft2 = triangles ft" "planes ft2 = planes ft" "length (kept ft2) = length (kept ft)"
      using tri pl len by (simp_all add: ft2)
    with k3 dr2 s3 d2 show ?thesis
      unfolding scanned_def st' fst_conv snd_conv by blast
  qed
qed

lemma scan_loop_scanned:
  assumes "foldE (scan_step pts precision i) [0..<m] (ft, []) = Inr st"
  shows "scanned pts precision i ft m st"
  by (rule foldE_upt_inv [OF assms, where I = "scanned pts precision i ft"])
     (auto intro: scanned_0 scanned_step)

lemma iter_order_mset: "mset (iter_order ord i hs) = mset hs"
  by (simp add: iter_order_def)

lemma iter_order_set: "set (iter_order ord i hs) = set hs"
  using iter_order_mset [of ord i hs] by (metis set_mset_mset)

lemma iter_order_distinct: "distinct (iter_order ord i hs) = distinct hs"
  using iter_order_mset [of ord i hs] by (rule mset_eq_imp_distinct_iff)

lemma process_point_Inr:
  assumes "process_point ord pts precision i ft = Inr ft'"
  obtains ft1 hs where
    "foldE (scan_step pts precision i) [0..<length (triangles ft)] (ft, []) = Inr (ft1, hs)"
    and "scanned pts precision i ft (length (triangles ft)) (ft1, hs)"
    and "horizon_loop pts (int i) [] (iter_order ord i hs) ft1 = Inr ft'"
    and "foldE (add_face pts (int i))
           (filter (\<lambda>e. rev_edge e \<notin> set hs) (iter_order ord i hs)) ft1 = Inr ft'"
proof -
  from assms obtain st where st:
    "foldE (scan_step pts precision i) [0..<length (triangles ft)] (ft, []) = Inr st"
    "horizon_loop pts (int i) [] (iter_order ord i (snd st)) (fst st) = Inr ft'"
    by (auto simp: process_point_def bindE_eq_Inr)
  have sc: "scanned pts precision i ft (length (triangles ft)) st"
    using st(1) by (rule scan_loop_scanned)
  then have "distinct (snd st)" by (simp add: scanned_def)
  then have "distinct (iter_order ord i (snd st))" by (simp add: iter_order_distinct)
  from horizon_loop_eq [OF this _ st(2)]
  have "foldE (add_face pts (int i))
           (filter (\<lambda>e. rev_edge e \<notin> set (snd st)) (iter_order ord i (snd st))) (fst st) = Inr ft'"
    by (simp add: iter_order_set)
  with st sc show ?thesis
    using that [of "fst st" "snd st"] by simp
qed

text \<open>
  C6 as stated fails on the input of five points: after the conflict scan for the point 4, which is in
  conflict with the two faces \<open>(0, 1, 3)\<close> and \<open>(0, 3, 2)\<close> of the seed tetrahedron, the
  half-edge set holds both \<open>(0, 3)\<close> and \<open>(3, 0)\<close>.
\<close>

theorem half_edges_both_directions:
  "Hull_seed pts5 tol5 = Inr (Some (0, 1, 2, 3)) \<and>
   seed_table pts5 (0, 1, 2, 3) = Inr tab4 \<and>
   foldE (scan_step pts5 tol5 4) [0..<length (triangles tab4)] (tab4, []) =
     Inr (tab4_scanned, edges5) \<and>
   IVec2 0 3 \<in> set edges5 \<and> IVec2 3 0 \<in> set edges5"
  by (simp add: seed5 seed_table5 scan5) (simp add: edges5_def)

text \<open>
  C6, as the code has it. \<^verbatim>\<open>insert\<close> never removes: an edge inserted while its reverse is
  in the set leaves both there. The cancellation happens in the loop over the set that
  follows the scan: when that loop completes, its effect on the face table is that of
  \<^verbatim>\<open>AddTri(e.x, e.y, i)\<close> for the edges \<open>e\<close> whose reverse is not in the set, in the order
  visited, and no face is made for an edge whose reverse is there.
\<close>

theorem cancellation_in_horizon_loop:
  assumes "IVec2 v u \<in> set hs" and "distinct es"
    and "horizon_loop pts i [] es ft = Inr ft'"
  shows "IVec2 u v \<in> set (insert_edge (IVec2 u v) hs) \<and>
         IVec2 v u \<in> set (insert_edge (IVec2 u v) hs) \<and>
         foldE (add_face pts i) (filter (\<lambda>e. rev_edge e \<notin> set es) es) ft = Inr ft'"
  using assms(1) horizon_loop_eq [OF assms(2) _ assms(3)] by simp

theorem cancellation_in_horizon_loop_witness:
  "IVec2 3 0 \<in> set [IVec2 3 0] \<and> distinct edges5 \<and>
   IVec2 0 3 \<in> set (insert_edge (IVec2 0 3) [IVec2 3 0]) \<and>
   IVec2 3 0 \<in> set (insert_edge (IVec2 0 3) [IVec2 3 0]) \<and>
   foldE (add_face pts5 4) [IVec2 3 1, IVec2 1 0, IVec2 0 2, IVec2 2 3] tab4_scanned = Inr tab6"
proof -
  have m: "IVec2 3 0 \<in> set [IVec2 3 0]" by simp
  have d: "distinct edges5" by (simp add: edges5_def)
  have f: "filter (\<lambda>e. rev_edge e \<notin> set edges5) edges5 = [IVec2 3 1, IVec2 1 0, IVec2 0 2, IVec2 2 3]"
    by (simp add: edges5_def rev_edge_def)
  show ?thesis
    using cancellation_in_horizon_loop [OF m d horizon5] d by (simp add: f)
qed

text \<open>
  C7. When the processing of the point \<open>i\<close> completes, the conflict scan has collected
  exactly the three half edges of every live face in conflict with the point and pushed
  the slots of these faces on \<^verbatim>\<open>dropped\<close> in scan order; the loop that follows has then
  called \<^verbatim>\<open>AddTri(e.x, e.y, i)\<close> for exactly the collected edges \<open>e\<close> whose reverse was not
  collected, in the order the set is visited. Each such call stores the triangle
  \<open>(i, e.y, e.x)\<close> in the slot last pushed on \<^verbatim>\<open>dropped\<close> when there is one, popping it, and
  in a fresh slot at the end otherwise.
\<close>

theorem horizon_faces_created:
  assumes "process_point ord pts precision i ft = Inr ft'"
  shows "\<exists>ft1 hs.
     foldE (scan_step pts precision i) [0..<length (triangles ft)] (ft, []) = Inr (ft1, hs) \<and>
     set hs = (\<Union>j\<in>{j. j < length (triangles ft) \<and> in_conflict pts precision i ft j}.
                 set (tri_edges (triangles ft ! j))) \<and>
     dropped ft1 = dropped ft @ filter (in_conflict pts precision i ft) [0..<length (triangles ft)] \<and>
     mset (iter_order ord i hs) = mset hs \<and>
     foldE (add_face pts (int i)) (filter (\<lambda>e. rev_edge e \<notin> set hs) (iter_order ord i hs)) ft1
       = Inr ft' \<and>
     (\<forall>t e t'. add_face pts (int i) t e = Inr t' \<longrightarrow>
        (if dropped t \<noteq> []
         then triangles t' = (triangles t)[last (dropped t) := IVec3 (int i) (ey e) (ex e)] \<and>
              kept t' = (kept t)[last (dropped t) := True] \<and>
              dropped t' = butlast (dropped t)
         else triangles t' = triangles t @ [IVec3 (int i) (ey e) (ex e)] \<and>
              kept t' = kept t @ [True] \<and> dropped t' = []))"
proof -
  from assms obtain ft1 hs where
    scan: "foldE (scan_step pts precision i) [0..<length (triangles ft)] (ft, []) = Inr (ft1, hs)"
    and sc: "scanned pts precision i ft (length (triangles ft)) (ft1, hs)"
    and add: "foldE (add_face pts (int i))
           (filter (\<lambda>e. rev_edge e \<notin> set hs) (iter_order ord i hs)) ft1 = Inr ft'"
    by (rule process_point_Inr)
  have slot: "if dropped t \<noteq> []
         then triangles t' = (triangles t)[last (dropped t) := IVec3 (int i) (ey e) (ex e)] \<and>
              kept t' = (kept t)[last (dropped t) := True] \<and>
              dropped t' = butlast (dropped t)
         else triangles t' = triangles t @ [IVec3 (int i) (ey e) (ex e)] \<and>
              kept t' = kept t @ [True] \<and> dropped t' = []"
    if "add_face pts (int i) t e = Inr t'" for t e t'
    using AddTri_Inr [OF that [unfolded add_face_def]] by (cases "dropped t = []") simp_all
  from sc have "set hs = (\<Union>j\<in>{j. j < length (triangles ft) \<and> in_conflict pts precision i ft j}.
                 set (tri_edges (triangles ft ! j)))"
    and "dropped ft1 = dropped ft @ filter (in_conflict pts precision i ft) [0..<length (triangles ft)]"
    by (simp_all add: scanned_def)
  with scan add slot show ?thesis
    using iter_order_mset by blast
qed

theorem horizon_faces_created_witness:
  "foldE (scan_step pts5 tol5 4) [0..<length (triangles tab4)] (tab4, []) = Inr (tab4_scanned, edges5) \<and>
   foldE (add_face pts5 4) [IVec2 3 1, IVec2 1 0, IVec2 0 2, IVec2 2 3] tab4_scanned = Inr tab6"
proof -
  have f: "filter (\<lambda>e. rev_edge e \<notin> set edges5) edges5 = [IVec2 3 1, IVec2 1 0, IVec2 0 2, IVec2 2 3]"
    by (simp add: edges5_def rev_edge_def)
  have o: "iter_order insertion_order 4 edges5 = edges5"
    by (simp add: iter_order_def insertion_order_def)
  from horizon_faces_created [OF process5] obtain ft1 hs where
    "foldE (scan_step pts5 tol5 4) [0..<length (triangles tab4)] (tab4, []) = Inr (ft1, hs)"
    "foldE (add_face pts5 (int 4)) (filter (\<lambda>e. rev_edge e \<notin> set hs) (iter_order insertion_order 4 hs)) ft1
       = Inr tab6"
    by blast
  then show ?thesis
    by (simp add: scan5 o f)
qed

section \<open>The seed points are distinct in exact arithmetic\<close>

lemma foldl_inv:
  assumes "P s" and "\<And>x s. x \<in> set xs \<Longrightarrow> P s \<Longrightarrow> P (f s x)"
  shows "P (foldl f s xs)"
  using assms by (induction xs arbitrary: s) auto

lemma offset_of_furthest:
  assumes "distance3 p0 pf \<noteq> 0"
  shows "DistanceToVector (sub3 pf p0) (div3 (sub3 p0 pf) (distance3 p0 pf)) = 0"
proof -
  define v where "v = sub3 pf p0"
  define l where "l = length3 v"
  have l: "l \<noteq> 0" using assms by (simp add: l_def v_def distance3_def)
  have ll: "l * l = dot3 v v" by (simp add: l_def length3_square)
  have n: "div3 (sub3 p0 pf) l = Vec3 (- vx v / l) (- vy v / l) (- vz v / l)"
    by (simp add: div3_def sub3_def v_def)
  have d: "dot3 v (Vec3 (- vx v / l) (- vy v / l) (- vz v / l)) = - l"
  proof -
    have "dot3 v (Vec3 (- vx v / l) (- vy v / l) (- vz v / l)) = - (dot3 v v / l)"
      by (simp add: dot3_def add_divide_distrib)
    also have "\<dots> = - (l * l / l)" by (simp add: ll)
    also have "\<dots> = - l" using l by simp
    finally show ?thesis .
  qed
  have "sub3 v (scale3 (Vec3 (- vx v / l) (- vy v / l) (- vz v / l)) (- l)) = Vec3 0 0 0"
    using l by (simp add: sub3_def scale3_def)
  then show ?thesis
    unfolding DistanceToVector_def distance3_def v_def [symmetric] l_def [symmetric] n d
    by (simp add: length3_def dot3_def)
qed

lemma furthest_loop:
  assumes "2 \<le> length pts"
  shows "1 \<le> fst (foldl (furthest_step pts) (1, distance3 (pts ! 0) (pts ! 1)) [2..<length pts]) \<and>
         fst (foldl (furthest_step pts) (1, distance3 (pts ! 0) (pts ! 1)) [2..<length pts])
           < int (length pts) \<and>
         snd (foldl (furthest_step pts) (1, distance3 (pts ! 0) (pts ! 1)) [2..<length pts]) =
           distance3 (pts ! 0)
             (pts ! nat (fst (foldl (furthest_step pts) (1, distance3 (pts ! 0) (pts ! 1)) [2..<length pts])))"
proof (rule foldl_inv [where P = "\<lambda>s. 1 \<le> fst s \<and> fst s < int (length pts) \<and>
      snd s = distance3 (pts ! 0) (pts ! nat (fst s))"])
  show "1 \<le> fst (1::int, distance3 (pts ! 0) (pts ! 1)) \<and>
        fst (1::int, distance3 (pts ! 0) (pts ! 1)) < int (length pts) \<and>
        snd (1::int, distance3 (pts ! 0) (pts ! 1)) =
          distance3 (pts ! 0) (pts ! nat (fst (1::int, distance3 (pts ! 0) (pts ! 1))))"
    using assms by simp
next
  fix i s
  assume "i \<in> set [2..<length pts]"
    and "1 \<le> fst s \<and> fst s < int (length pts) \<and> snd s = distance3 (pts ! 0) (pts ! nat (fst s))"
  then show "1 \<le> fst (furthest_step pts s i) \<and> fst (furthest_step pts s i) < int (length pts) \<and>
      snd (furthest_step pts s i) = distance3 (pts ! 0) (pts ! nat (fst (furthest_step pts s i)))"
    by (auto simp: furthest_step_def Let_def)
qed

lemma third_loop:
  assumes "0 \<le> precision" and "1 \<le> f" and "dst = distance3 (pts ! 0) (pts ! nat f)"
    and "precision < dst"
  shows "fst (foldl (third_step pts (div3 (sub3 (pts ! 0) (pts ! nat f)) dst)) (- 1, dst * precision)
               [1..<length pts]) = - 1 \<or>
         (1 \<le> fst (foldl (third_step pts (div3 (sub3 (pts ! 0) (pts ! nat f)) dst)) (- 1, dst * precision)
               [1..<length pts]) \<and>
          fst (foldl (third_step pts (div3 (sub3 (pts ! 0) (pts ! nat f)) dst)) (- 1, dst * precision)
               [1..<length pts]) < int (length pts) \<and>
          fst (foldl (third_step pts (div3 (sub3 (pts ! 0) (pts ! nat f)) dst)) (- 1, dst * precision)
               [1..<length pts]) \<noteq> f)"
proof -
  define n where "n = div3 (sub3 (pts ! 0) (pts ! nat f)) dst"
  have dpos: "0 < dst" using assms(1,4) by simp
  have off_f: "DistanceToVector (sub3 (pts ! nat f) (pts ! 0)) n = 0"
    unfolding n_def assms(3)
    using offset_of_furthest [of "pts ! 0" "pts ! nat f"] dpos assms(3) by simp
  have lb: "0 \<le> dst * precision" using dpos assms(1) by simp
  have "0 \<le> snd (foldl (third_step pts n) (- 1, dst * precision) [1..<length pts]) \<and>
        (fst (foldl (third_step pts n) (- 1, dst * precision) [1..<length pts]) = - 1 \<or>
         (1 \<le> fst (foldl (third_step pts n) (- 1, dst * precision) [1..<length pts]) \<and>
          fst (foldl (third_step pts n) (- 1, dst * precision) [1..<length pts]) < int (length pts) \<and>
          fst (foldl (third_step pts n) (- 1, dst * precision) [1..<length pts]) \<noteq> f))"
  proof (rule foldl_inv [where P = "\<lambda>s. 0 \<le> snd s \<and>
        (fst s = - 1 \<or> (1 \<le> fst s \<and> fst s < int (length pts) \<and> fst s \<noteq> f))"])
    show "0 \<le> snd (- 1 :: int, dst * precision) \<and>
        (fst (- 1 :: int, dst * precision) = - 1 \<or>
         (1 \<le> fst (- 1 :: int, dst * precision) \<and> fst (- 1 :: int, dst * precision) < int (length pts) \<and>
          fst (- 1 :: int, dst * precision) \<noteq> f))"
      using lb by simp
  next
    fix i and s :: "int \<times> real"
    assume i: "i \<in> set [1..<length pts]"
      and s: "0 \<le> snd s \<and> (fst s = - 1 \<or> (1 \<le> fst s \<and> fst s < int (length pts) \<and> fst s \<noteq> f))"
    show "0 \<le> snd (third_step pts n s i) \<and>
        (fst (third_step pts n s i) = - 1 \<or>
         (1 \<le> fst (third_step pts n s i) \<and> fst (third_step pts n s i) < int (length pts) \<and>
          fst (third_step pts n s i) \<noteq> f))"
    proof (cases "snd s < DistanceToVector (sub3 (pts ! i) (pts ! 0)) n")
      case False
      with s show ?thesis by (simp add: third_step_def Let_def)
    next
      case True
      have "int i \<noteq> f"
      proof
        assume "int i = f"
        then have "nat f = i" by simp
        with True off_f s show False by simp
      qed
      with True i s show ?thesis by (simp add: third_step_def Let_def)
    qed
  qed
  then show ?thesis by (simp add: n_def)
qed

lemma NonCollinearTriple_found:
  assumes "0 \<le> precision" and "NonCollinearTriple pts precision = Inr trip" and "0 \<le> tx trip"
  shows "tx trip = 0 \<and> 1 \<le> ty trip \<and> ty trip < int (length pts) \<and>
         1 \<le> tz trip \<and> tz trip < int (length pts) \<and> ty trip \<noteq> tz trip"
proof -
  from assms(2) have len: "2 \<le> length pts"
    by (auto simp: NonCollinearTriple_def Let_def split: if_splits)
  define fd where "fd = foldl (furthest_step pts) (1, distance3 (pts ! 0) (pts ! 1)) [2..<length pts]"
  define th where "th = fst (foldl (third_step pts (div3 (sub3 (pts ! 0) (pts ! nat (fst fd))) (snd fd)))
      (- 1, snd fd * precision) [1..<length pts])"
  from furthest_loop [OF len] have f: "1 \<le> fst fd" "fst fd < int (length pts)"
    "snd fd = distance3 (pts ! 0) (pts ! nat (fst fd))"
    by (simp_all add: fd_def)
  have eq: "NonCollinearTriple pts precision =
      (if snd fd \<le> precision then Inr (IVec3 (- 1) (- 1) (- 1))
       else if th < 0 then Inr (IVec3 (- 1) (- 1) (- 1)) else Inr (IVec3 0 (fst fd) th))"
    using len by (simp add: NonCollinearTriple_def Let_def fd_def th_def)
  from assms(2,3) eq have far: "precision < snd fd" and th0: "\<not> th < 0" and trip: "trip = IVec3 0 (fst fd) th"
    by (auto split: if_splits)
  from third_loop [OF assms(1) f(1) f(3) far] th0
  have "1 \<le> th \<and> th < int (length pts) \<and> th \<noteq> fst fd"
    by (auto simp: th_def)
  with f trip show ?thesis by auto
qed

lemma on_plane:
  "DistanceToPlane a (PlaneOfPts a b c) = 0"
  "DistanceToPlane b (PlaneOfPts a b c) = 0"
  "DistanceToPlane c (PlaneOfPts a b c) = 0"
proof -
  have "dot3 (cross3 (sub3 c a) (sub3 b a)) (sub3 a a) = 0"
    "dot3 (cross3 (sub3 c a) (sub3 b a)) (sub3 b a) = 0"
    "dot3 (cross3 (sub3 c a) (sub3 b a)) (sub3 c a) = 0"
    by (simp_all add: dot3_def cross3_def sub3_def algebra_simps)
  then show "DistanceToPlane a (PlaneOfPts a b c) = 0"
    "DistanceToPlane b (PlaneOfPts a b c) = 0"
    "DistanceToPlane c (PlaneOfPts a b c) = 0"
    by (simp_all add: DistanceToPlane_PlaneOfPts)
qed

lemma seed_distinct:
  assumes "0 \<le> precision" and "Hull_seed pts precision = Inr (Some (a, b, c, d))"
  shows "distinct [a, b, c, d] \<and>
         0 \<le> a \<and> a < int (length pts) \<and> 0 \<le> b \<and> b < int (length pts) \<and>
         0 \<le> c \<and> c < int (length pts) \<and> 0 \<le> d \<and> d < int (length pts)"
proof -
  from assms(2) obtain trip isAbove where trip: "NonCollinearTriple pts precision = Inr trip"
    and tx: "0 \<le> tx trip"
    and ncp: "NonCoplanar pts (PlaneOfPts (pts ! nat (tx trip)) (pts ! nat (ty trip)) (pts ! nat (tz trip)))
           precision = (d, isAbove)"
    and d: "0 \<le> d" and a: "a = tx trip"
    and b: "b = (if isAbove then tz trip else ty trip)"
    and c: "c = (if isAbove then ty trip else tz trip)"
    by (rule Hull_seed_Some)
  note t = NonCollinearTriple_found [OF assms(1) trip tx]
  from NonCoplanar_found [OF ncp d] have dl: "d < int (length pts)"
    and far: "precision < \<bar>DistanceToPlane (pts ! nat d)
        (PlaneOfPts (pts ! nat (tx trip)) (pts ! nat (ty trip)) (pts ! nat (tz trip)))\<bar>"
    by simp_all
  have nz: "DistanceToPlane (pts ! nat d)
        (PlaneOfPts (pts ! nat (tx trip)) (pts ! nat (ty trip)) (pts ! nat (tz trip))) \<noteq> 0"
    using far assms(1) by auto
  have "d \<noteq> tx trip" "d \<noteq> ty trip" "d \<noteq> tz trip"
    using nz on_plane by auto
  with t a b c d dl show ?thesis by auto
qed

section \<open>What a processed point changes\<close>

lemma extends_refl: "extends i E ft ft"
  by (simp add: extends_def)

lemma extends_trans:
  assumes "extends i E ft ft1" and "extends i E ft1 ft2"
  shows "extends i E ft ft2"
  unfolding extends_def
proof (intro conjI allI impI)
  show "length (triangles ft) \<le> length (triangles ft2)"
    using assms by (simp add: extends_def)
next
  fix j assume j: "j < length (triangles ft2)"
  from assms(2) j consider
    (same) "j < length (triangles ft1)" "triangles ft2 ! j = triangles ft1 ! j"
      "planes ft2 ! j = planes ft1 ! j" "kept ft2 ! j = kept ft1 ! j"
  | (new) "kept ft2 ! j" "j < length (triangles ft1) \<longrightarrow> \<not> kept ft1 ! j"
      "\<exists>e\<in>E. triangles ft2 ! j = IVec3 i (ey e) (ex e)"
    unfolding extends_def by blast
  then show "(j < length (triangles ft) \<and> triangles ft2 ! j = triangles ft ! j \<and>
         planes ft2 ! j = planes ft ! j \<and> kept ft2 ! j = kept ft ! j) \<or>
        (kept ft2 ! j \<and> (j < length (triangles ft) \<longrightarrow> \<not> kept ft ! j) \<and>
         (\<exists>e\<in>E. triangles ft2 ! j = IVec3 i (ey e) (ex e)))"
  proof cases
    case same
    from assms(1) same(1) have
      "(j < length (triangles ft) \<and> triangles ft1 ! j = triangles ft ! j \<and>
         planes ft1 ! j = planes ft ! j \<and> kept ft1 ! j = kept ft ! j) \<or>
        (kept ft1 ! j \<and> (j < length (triangles ft) \<longrightarrow> \<not> kept ft ! j) \<and>
         (\<exists>e\<in>E. triangles ft1 ! j = IVec3 i (ey e) (ex e)))"
      unfolding extends_def by blast
    with same show ?thesis by auto
  next
    case new
    have "\<not> kept ft ! j" if "j < length (triangles ft)"
    proof -
      from that assms(1) have j1: "j < length (triangles ft1)"
        by (simp add: extends_def)
      with new have nk: "\<not> kept ft1 ! j" by simp
      from assms(1) j1 have
        "(j < length (triangles ft) \<and> kept ft1 ! j = kept ft ! j) \<or> kept ft1 ! j"
        unfolding extends_def by blast
      with nk show ?thesis by auto
    qed
    with new show ?thesis by blast
  qed
qed

lemma extends_add_face:
  assumes inv: "table_inv ft" and add: "add_face pts i ft e = Inr ft'" and e: "e \<in> E"
  shows "extends i E ft ft'"
proof -
  note r = AddTri_Inr [OF add [unfolded add_face_def]]
  from inv have lk: "length (kept ft) = length (triangles ft)"
    and lp: "length (planes ft) = length (triangles ft)"
    and ds: "set (dropped ft) = {j. j < length (kept ft) \<and> \<not> kept ft ! j}"
    by (simp_all add: table_inv_def)
  show ?thesis
  proof (cases "dropped ft = []")
    case True
    with r have ft': "ft' = ft\<lparr>triangles := triangles ft @ [IVec3 i (ey e) (ex e)],
        planes := planes ft @ [PlaneOfPts (pts ! nat (ex e)) (pts ! nat (ey e)) (pts ! nat i)],
        kept := kept ft @ [True]\<rparr>" by simp
    show ?thesis
      unfolding extends_def ft' using e lk lp
      by (auto simp: nth_append less_Suc_eq)
  next
    case False
    define idx where "idx = last (dropped ft)"
    from False r have ft': "ft' = ft\<lparr>triangles := (triangles ft)[idx := IVec3 i (ey e) (ex e)],
        planes := (planes ft)[idx := PlaneOfPts (pts ! nat (ex e)) (pts ! nat (ey e)) (pts ! nat i)],
        kept := (kept ft)[idx := True], dropped := butlast (dropped ft)\<rparr>"
      and idx: "idx < length (triangles ft)"
      by (simp_all add: idx_def)
    from False have "idx \<in> set (dropped ft)" by (simp add: idx_def)
    with ds have nk: "\<not> kept ft ! idx" by simp
    show ?thesis
      unfolding extends_def ft' using e lk lp idx nk
      by (auto simp: nth_list_update)
  qed
qed

lemma extends_fold:
  assumes "table_inv ft" and "foldE (add_face pts i) es ft = Inr ft'" and "set es \<subseteq> E"
  shows "extends i E ft ft'"
  using assms
proof (induction es arbitrary: ft)
  case Nil
  then show ?case by (simp add: extends_refl)
next
  case (Cons e es)
  from Cons.prems(2) obtain f1 where f1: "add_face pts i ft e = Inr f1"
    and rest: "foldE (add_face pts i) es f1 = Inr ft'"
    by (auto simp: bindE_eq_Inr)
  have i1: "table_inv f1"
    using Cons.prems(1) f1 by (auto simp: add_face_def intro: table_inv_AddTri)
  have "extends i E ft f1"
    using extends_add_face [OF Cons.prems(1) f1] Cons.prems(3) by simp
  moreover have "extends i E f1 ft'"
    using Cons.IH [OF i1 rest] Cons.prems(3) by simp
  ultimately show ?case by (rule extends_trans)
qed

lemma table_inv_scan_loop:
  assumes "table_inv ft" and "foldE (scan_step pts precision i) js (ft, hs) = Inr st"
  shows "table_inv (fst st)"
proof (rule foldE_inv [OF assms(2), where P = "\<lambda>st. table_inv (fst st)"])
  show "table_inv (fst (ft, hs))" using assms(1) by simp
next
  fix j and s s' :: "face_table \<times> ivec2 list"
  assume "table_inv (fst s)" and "scan_step pts precision i s j = Inr s'"
  then show "table_inv (fst s')"
    using table_inv_scan_step [of "fst s" pts precision i "snd s" j "fst s'" "snd s'"] by simp
qed

text \<open>What one processed point leaves in a slot.\<close>

lemma process_point_slot:
  assumes inv: "table_inv ft" and run: "process_point ord pts precision i ft = Inr ft'"
    and j: "j < length (triangles ft')"
  shows "(j < length (triangles ft) \<and> triangles ft' ! j = triangles ft ! j \<and>
          planes ft' ! j = planes ft ! j \<and>
          (kept ft' ! j \<longrightarrow> kept ft ! j \<and> \<not> in_conflict pts precision i ft j)) \<or>
         (\<exists>k<length (triangles ft). \<exists>e\<in>set (tri_edges (triangles ft ! k)).
            triangles ft' ! j = IVec3 (int i) (ey e) (ex e))"
proof -
  from run obtain ft1 hs where
    scan: "foldE (scan_step pts precision i) [0..<length (triangles ft)] (ft, []) = Inr (ft1, hs)"
    and sc: "scanned pts precision i ft (length (triangles ft)) (ft1, hs)"
    and add: "foldE (add_face pts (int i))
           (filter (\<lambda>e. rev_edge e \<notin> set hs) (iter_order ord i hs)) ft1 = Inr ft'"
    by (rule process_point_Inr)
  have inv1: "table_inv ft1"
    using table_inv_scan_loop [OF inv scan] by simp
  have "extends (int i) (set hs) ft1 ft'"
    by (rule extends_fold [OF inv1 add]) (auto simp: iter_order_set)
  with j consider
    (same) "j < length (triangles ft1)" "triangles ft' ! j = triangles ft1 ! j"
      "planes ft' ! j = planes ft1 ! j" "kept ft' ! j = kept ft1 ! j"
  | (new) "\<exists>e\<in>set hs. triangles ft' ! j = IVec3 (int i) (ey e) (ex e)"
    unfolding extends_def by blast
  then show ?thesis
  proof cases
    case same
    from inv have lk: "length (kept ft) = length (triangles ft)" by (simp add: table_inv_def)
    from sc have tri: "triangles ft1 = triangles ft" and pl: "planes ft1 = planes ft"
      and k: "kept ft1 = map (\<lambda>j. if j < length (triangles ft)
                 then kept ft ! j \<and> \<not> in_conflict pts precision i ft j else kept ft ! j)
               [0..<length (kept ft)]"
      by (simp_all add: scanned_def)
    from same(1) tri lk have "kept ft1 ! j = (kept ft ! j \<and> \<not> in_conflict pts precision i ft j)"
      by (simp add: k)
    with same tri pl show ?thesis by simp
  next
    case new
    from sc have "set hs = (\<Union>j\<in>{j. j < length (triangles ft) \<and> in_conflict pts precision i ft j}.
        set (tri_edges (triangles ft ! j)))"
      by (simp add: scanned_def)
    with new show ?thesis by blast
  qed
qed

lemma seed_table_Inr:
  assumes "seed_table pts (a, b, c, d) = Inr f4"
  shows "triangles f4 = [IVec3 c b a, IVec3 a b d, IVec3 a d c, IVec3 c d b] \<and>
         planes f4 = [PlaneOfPts (pts ! nat a) (pts ! nat b) (pts ! nat c),
                      PlaneOfPts (pts ! nat d) (pts ! nat b) (pts ! nat a),
                      PlaneOfPts (pts ! nat c) (pts ! nat d) (pts ! nat a),
                      PlaneOfPts (pts ! nat b) (pts ! nat d) (pts ! nat c)] \<and>
         kept f4 = [True, True, True, True] \<and> dropped f4 = []"
proof -
  from assms obtain f1 f2 f3 where
    f: "AddTri pts a b c empty_table = Inr f1" "AddTri pts d b a f1 = Inr f2"
    "AddTri pts c d a f2 = Inr f3" "AddTri pts b d c f3 = Inr f4"
    by (auto simp: seed_table_def bindE_eq_Inr)
  from AddTri_Inr [OF f(1)] have 1: "f1 = empty_table\<lparr>triangles := [IVec3 c b a],
      planes := [PlaneOfPts (pts ! nat a) (pts ! nat b) (pts ! nat c)], kept := [True]\<rparr>"
    by (simp add: empty_table_def)
  from AddTri_Inr [OF f(2)] have 2: "f2 = f1\<lparr>triangles := triangles f1 @ [IVec3 a b d],
      planes := planes f1 @ [PlaneOfPts (pts ! nat d) (pts ! nat b) (pts ! nat a)],
      kept := kept f1 @ [True]\<rparr>"
    by (simp add: 1 empty_table_def)
  from AddTri_Inr [OF f(3)] have 3: "f3 = f2\<lparr>triangles := triangles f2 @ [IVec3 a d c],
      planes := planes f2 @ [PlaneOfPts (pts ! nat c) (pts ! nat d) (pts ! nat a)],
      kept := kept f2 @ [True]\<rparr>"
    by (simp add: 1 2 empty_table_def)
  from AddTri_Inr [OF f(4)] have 4: "f4 = f3\<lparr>triangles := triangles f3 @ [IVec3 c d b],
      planes := planes f3 @ [PlaneOfPts (pts ! nat b) (pts ! nat d) (pts ! nat c)],
      kept := kept f3 @ [True]\<rparr>"
    by (simp add: 1 2 3 empty_table_def)
  show ?thesis
    by (simp add: 1 2 3 4 empty_table_def)
qed

section \<open>Vertex indices\<close>

lemma tri_ok_Suc: "tri_ok S m t \<Longrightarrow> tri_ok S (Suc m) t"
  by (auto simp: tri_ok_def)

lemma tri_ok_new:
  assumes "tri_ok S m t" and "e \<in> set (tri_edges t)" and "int m \<notin> S"
  shows "tri_ok S (Suc m) (IVec3 (int m) (ey e) (ex e))"
  using assms by (auto simp: tri_ok_def tri_edges_def)

lemma point_step_tri_ok:
  assumes reach: "table_reach pts precision ft"
    and ok: "\<forall>t\<in>set (triangles ft). tri_ok {a, b, c, d} m t"
    and step: "point_step ord pts precision (a, b, c, d) ft m = Inr ft'"
  shows "table_reach pts precision ft' \<and> (\<forall>t\<in>set (triangles ft'). tri_ok {a, b, c, d} (Suc m) t)"
proof (cases "int m \<in> {a, b, c, d}")
  case True
  with step have "ft' = ft" by (auto simp: point_step_def)
  with reach ok show ?thesis by (auto intro: tri_ok_Suc)
next
  case False
  with step have run: "process_point ord pts precision m ft = Inr ft'"
    by (auto simp: point_step_def)
  have r': "table_reach pts precision ft'"
    using reach run by (rule table_reach_process_point)
  have inv: "table_inv ft" using reach by (rule table_reach_inv)
  have "tri_ok {a, b, c, d} (Suc m) (triangles ft' ! j)" if j: "j < length (triangles ft')" for j
  proof -
    from process_point_slot [OF inv run j] consider
      (same) "j < length (triangles ft)" "triangles ft' ! j = triangles ft ! j"
    | (new) k e where "k < length (triangles ft)" "e \<in> set (tri_edges (triangles ft ! k))"
        "triangles ft' ! j = IVec3 (int m) (ey e) (ex e)"
      by blast
    then show ?thesis
    proof cases
      case same
      with ok show ?thesis by (auto intro: tri_ok_Suc)
    next
      case new
      from new(1) ok have "tri_ok {a, b, c, d} m (triangles ft ! k)" by simp
      from tri_ok_new [OF this new(2) False] new(3) show ?thesis by simp
    qed
  qed
  with r' show ?thesis by (auto simp: in_set_conv_nth)
qed

lemma point_loop_tri_ok:
  assumes "table_reach pts precision f4"
    and "\<forall>t\<in>set (triangles f4). tri_ok {a, b, c, d} 0 t"
    and "foldE (point_step ord pts precision (a, b, c, d)) [0..<n] f4 = Inr ft"
  shows "\<forall>t\<in>set (triangles ft). tri_ok {a, b, c, d} n t"
proof -
  have "table_reach pts precision ft \<and> (\<forall>t\<in>set (triangles ft). tri_ok {a, b, c, d} n t)"
  proof (rule foldE_upt_inv [OF assms(3), where
        I = "\<lambda>m ft. table_reach pts precision ft \<and> (\<forall>t\<in>set (triangles ft). tri_ok {a, b, c, d} m t)"])
    show "table_reach pts precision f4 \<and> (\<forall>t\<in>set (triangles f4). tri_ok {a, b, c, d} 0 t)"
      using assms(1,2) by simp
  next
    fix m ft ft'
    assume "table_reach pts precision ft \<and> (\<forall>t\<in>set (triangles ft). tri_ok {a, b, c, d} m t)"
      and "point_step ord pts precision (a, b, c, d) ft m = Inr ft'"
    then show "table_reach pts precision ft' \<and> (\<forall>t\<in>set (triangles ft'). tri_ok {a, b, c, d} (Suc m) t)"
      using point_step_tri_ok by blast
  qed
  then show ?thesis by simp
qed

text \<open>A negative tolerance: \<^verbatim>\<open>Hull\<close> never completes the loop over the points.\<close>

lemma NonCollinearTriple_tx:
  assumes "NonCollinearTriple pts precision = Inr trip" and "0 \<le> tx trip"
  shows "tx trip = 0"
  using assms by (auto simp: NonCollinearTriple_def Let_def split: if_splits)

lemma NonCoplanar_negative:
  assumes "precision < 0" and "pts \<noteq> []"
  shows "fst (NonCoplanar pts plane precision) = 0"
proof -
  obtain p ps where "pts = p # ps" using assms(2) by (cases pts) auto
  moreover have "precision < \<bar>DistanceToPlane p plane\<bar>" using assms(1) by linarith
  ultimately show ?thesis by (simp add: NonCoplanar_def Let_def)
qed

lemma PlaneOfPts_same: "PlaneOfPts a b a = Vec4 0 0 0 0"
proof -
  have "cross3 (sub3 a a) (sub3 b a) = Vec3 0 0 0"
    by (simp add: cross3_def sub3_def)
  then show ?thesis
    by (simp add: PlaneOfPts_def Let_def length3_def dot3_def)
qed

lemma horizon_loop_self_edge:
  assumes "e \<in> set rest" and "rev_edge e = e"
  shows "horizon_loop pts i visited rest ft \<noteq> Inr ft'"
  using assms
proof (induction pts i visited rest ft rule: horizon_loop.induct)
  case (1 pts i visited ft)
  then show ?case by simp
next
  case (2 pts i visited x rest ft)
  define r where "r = IVec2 (ey x) (ex x)"
  show ?case
  proof (cases "r = x")
    case True
    then show ?thesis by (simp add: r_def [symmetric] Let_def)
  next
    case False
    have ex: "e \<noteq> x"
      using False "2.prems"(2) by (auto simp: r_def rev_edge_def)
    with "2.prems"(1) have er: "e \<in> set rest" by simp
    have "e \<noteq> r"
    proof
      assume "e = r"
      then have "rev_edge e = x" by (simp add: r_def rev_edge_def)
      with "2.prems"(2) ex show False by simp
    qed
    with er have er': "e \<in> set (removeAll r rest)" by simp
    show ?thesis
    proof (cases "r \<in> set visited \<or> r \<in> set rest")
      case True
      with False "2.IH"(1) [OF r_def False True er' "2.prems"(2)] show ?thesis
        by (simp add: r_def [symmetric] Let_def)
    next
      case no: False
      show ?thesis
      proof (cases "AddTri pts (ex x) (ey x) i ft")
        case (Inl err)
        with False no show ?thesis by (simp add: r_def [symmetric] Let_def)
      next
        case (Inr f1)
        with False no "2.IH"(2) [OF r_def False no er "2.prems"(2)] show ?thesis
          by (simp add: r_def [symmetric] Let_def)
      qed
    qed
  qed
qed

lemma foldE_first_failure:
  assumes "\<And>x. x \<in> set xs \<Longrightarrow> f s x = Inr s \<or> (\<forall>s'. f s x \<noteq> Inr s')"
    and "\<exists>x\<in>set xs. \<forall>s'. f s x \<noteq> Inr s'"
  shows "foldE f xs s \<noteq> Inr r"
  using assms
proof (induction xs)
  case Nil
  then show ?case by simp
next
  case (Cons x xs)
  show ?case
  proof (cases "f s x")
    case (Inl e)
    then show ?thesis by simp
  next
    case (Inr s1)
    with Cons.prems(1) [of x] have s1: "f s x = Inr s" by auto
    with Cons.prems(2) have "\<exists>y\<in>set xs. \<forall>s'. f s y \<noteq> Inr s'" by auto
    with Cons.IH Cons.prems(1) have "foldE f xs s \<noteq> Inr r" by auto
    with s1 show ?thesis by simp
  qed
qed

lemma Hull_table_negative:
  assumes neg: "precision < 0"
  shows "Hull_table ord pts precision \<noteq> Inr (Some ft)"
proof
  assume "Hull_table ord pts precision = Inr (Some ft)"
  then obtain seed f4 where seed: "Hull_seed pts precision = Inr (Some seed)"
    and f4: "seed_table pts seed = Inr f4"
    and run: "foldE (point_step ord pts precision seed) [0..<length pts] f4 = Inr ft"
    by (rule Hull_table_Some)
  obtain a b c d where s: "seed = (a, b, c, d)" by (cases seed) auto
  from seed [unfolded s] obtain trip isAbove where len: "4 \<le> length pts"
    and trip: "NonCollinearTriple pts precision = Inr trip" and tx: "0 \<le> tx trip"
    and ncp: "NonCoplanar pts (PlaneOfPts (pts ! nat (tx trip)) (pts ! nat (ty trip)) (pts ! nat (tz trip)))
           precision = (d, isAbove)"
    and a: "a = tx trip"
    by (rule Hull_seed_Some)
  have a0: "a = 0" using NonCollinearTriple_tx [OF trip tx] a by simp
  have "pts \<noteq> []" using len by auto
  from NonCoplanar_negative [OF neg this, of "PlaneOfPts (pts ! nat (tx trip)) (pts ! nat (ty trip)) (pts ! nat (tz trip))"]
  have d0: "d = 0" by (simp add: ncp)
  note t4 = seed_table_Inr [OF f4 [unfolded s]]
  have inv4: "table_inv f4"
    using table_reach_seed_table [OF f4] by (rule table_reach_inv)
  have fail: "process_point ord pts precision i f4 \<noteq> Inr ft'" for i ft'
  proof
    assume "process_point ord pts precision i f4 = Inr ft'"
    then obtain ft1 hs where sc: "scanned pts precision i f4 (length (triangles f4)) (ft1, hs)"
      and hl: "horizon_loop pts (int i) [] (iter_order ord i hs) ft1 = Inr ft'"
      by (rule process_point_Inr)
    have "in_conflict pts precision i f4 1"
      using t4 neg by (simp add: in_conflict_def a0 d0 PlaneOfPts_same DistanceToPlane_def dot3_def)
    moreover have "IVec2 0 0 \<in> set (tri_edges (triangles f4 ! 1))"
      using t4 by (simp add: tri_edges_def a0 d0)
    moreover from sc have "set hs = (\<Union>j\<in>{j. j < length (triangles f4) \<and> in_conflict pts precision i f4 j}.
        set (tri_edges (triangles f4 ! j)))"
      by (simp add: scanned_def)
    ultimately have "IVec2 0 0 \<in> set hs" using t4 by auto
    then have "IVec2 0 0 \<in> set (iter_order ord i hs)" by (simp add: iter_order_set)
    from horizon_loop_self_edge [OF this] hl show False by (simp add: rev_edge_def)
  qed
  have "\<exists>i\<in>set [0..<length pts]. int i \<notin> {a, b, c, d}"
  proof -
    have "1 \<notin> {a, b, c, d} \<or> 2 \<notin> {a, b, c, d} \<or> 3 \<notin> {a, b, c, d}"
      using a0 d0 by auto
    then have "int 1 \<notin> {a, b, c, d} \<or> int 2 \<notin> {a, b, c, d} \<or> int 3 \<notin> {a, b, c, d}"
      by simp
    moreover have "1 \<in> set [0..<length pts]" "2 \<in> set [0..<length pts]" "3 \<in> set [0..<length pts]"
      using len by auto
    ultimately show ?thesis by blast
  qed
  then have "\<exists>i\<in>set [0..<length pts]. \<forall>s'. point_step ord pts precision seed f4 i \<noteq> Inr s'"
    using fail by (auto simp: point_step_def s)
  moreover have "point_step ord pts precision seed f4 i = Inr f4 \<or>
      (\<forall>s'. point_step ord pts precision seed f4 i \<noteq> Inr s')" for i
    using fail by (auto simp: point_step_def s)
  ultimately have "foldE (point_step ord pts precision seed) [0..<length pts] f4 \<noteq> Inr ft"
    by (intro foldE_first_failure) auto
  with run show False by simp
qed

section \<open>Output triangles\<close>

lemma Hull_nonempty_table:
  assumes "Hull ord pts precision = Inr out" and "t \<in> set out"
  obtains ft where "Hull_table ord pts precision = Inr (Some ft)"
proof -
  from assms(1) obtain r where r: "Hull_table ord pts precision = Inr r"
    and c: "(case r of None \<Rightarrow> Inr [] | Some ft \<Rightarrow> compact ft) = Inr out"
    by (auto simp: Hull_def bindE_eq_Inr)
  from c assms(2) have "r \<noteq> None" by (cases r) auto
  with r that show ?thesis by auto
qed

lemma tri_ok_valid:
  assumes "tri_ok S m t" and "\<forall>v\<in>S. 0 \<le> v \<and> v < int m"
  shows "tx t \<noteq> ty t \<and> tx t \<noteq> tz t \<and> ty t \<noteq> tz t \<and>
         0 \<le> tx t \<and> tx t < int m \<and> 0 \<le> ty t \<and> ty t < int m \<and> 0 \<le> tz t \<and> tz t < int m"
  using assms by (auto simp: tri_ok_def)

lemma tri_ok_seed:
  assumes "distinct [a, b, c, d]"
  shows "tri_ok {a, b, c, d} 0 (IVec3 c b a)" "tri_ok {a, b, c, d} 0 (IVec3 a b d)"
    "tri_ok {a, b, c, d} 0 (IVec3 a d c)" "tri_ok {a, b, c, d} 0 (IVec3 c d b)"
  using assms by (simp_all add: tri_ok_def)

text \<open>
  Without rounding every triangle of an output of \<^verbatim>\<open>Hull\<close> has three pairwise different
  indices, each within the bounds of the input: the points of the triple are at the distance
  zero from the candidate plane, so that the fourth point is none of them. (For a negative
  tolerance \<^verbatim>\<open>Hull\<close> has no output: the fourth seed point is then the point 0 again, and
  the loop over the half-edge set runs into the edge \<open>(0, 0)\<close>.) This is a fact of exact
  arithmetic; the section on four points in single precision shows the program returning
  triangles with a repeated index.
\<close>

lemma exact_indices_distinct:
  assumes "Hull ord pts precision = Inr out" and "t \<in> set out"
  shows "tx t \<noteq> ty t \<and> tx t \<noteq> tz t \<and> ty t \<noteq> tz t \<and>
         0 \<le> tx t \<and> tx t < int (length pts) \<and>
         0 \<le> ty t \<and> ty t < int (length pts) \<and>
         0 \<le> tz t \<and> tz t < int (length pts)"
proof -
  from assms obtain ft where tab: "Hull_table ord pts precision = Inr (Some ft)"
    by (rule Hull_nonempty_table)
  have pos: "0 \<le> precision"
    using tab Hull_table_negative [of precision ord pts ft] by fastforce
  from tab obtain seed f4 where seed: "Hull_seed pts precision = Inr (Some seed)"
    and f4: "seed_table pts seed = Inr f4"
    and run: "foldE (point_step ord pts precision seed) [0..<length pts] f4 = Inr ft"
    by (rule Hull_table_Some)
  obtain a b c d where s: "seed = (a, b, c, d)" by (cases seed) auto
  note sd = seed_distinct [OF pos seed [unfolded s]]
  note t4 = seed_table_Inr [OF f4 [unfolded s]]
  have ok4: "\<forall>t\<in>set (triangles f4). tri_ok {a, b, c, d} 0 t"
    using tri_ok_seed [of a b c d] sd t4 by simp
  have r4: "table_reach pts precision f4"
    using f4 by (rule table_reach_seed_table)
  have ok: "\<forall>t\<in>set (triangles ft). tri_ok {a, b, c, d} (length pts) t"
    using point_loop_tri_ok [OF r4 ok4 run [unfolded s]] .
  from tab assms obtain j where "j < length (triangles ft)" "triangles ft ! j = t"
    by (rule Hull_out_slot)
  with ok have "tri_ok {a, b, c, d} (length pts) t" by auto
  moreover have "\<forall>v\<in>{a, b, c, d}. 0 \<le> v \<and> v < int (length pts)"
    using sd by simp
  ultimately show ?thesis by (rule tri_ok_valid)
qed

lemma point_step_scanned_behind:
  assumes reach: "table_reach pts precision ft"
    and beh: "scanned_behind pts precision {a, b, c, d} m ft"
    and step: "point_step ord pts precision (a, b, c, d) ft m = Inr ft'"
  shows "scanned_behind pts precision {a, b, c, d} (Suc m) ft'"
proof (cases "int m \<in> {a, b, c, d}")
  case True
  with step have "ft' = ft" by (auto simp: point_step_def)
  with beh True show ?thesis
    by (auto simp: scanned_behind_def less_Suc_eq)
next
  case False
  with step have run: "process_point ord pts precision m ft = Inr ft'"
    by (auto simp: point_step_def)
  have inv: "table_inv ft" using reach by (rule table_reach_inv)
  show ?thesis
    unfolding scanned_behind_def
  proof (intro allI impI)
    fix j i
    assume j: "j < length (triangles ft')" and k: "kept ft' ! j" and i: "i < Suc m"
      and ns: "int i \<notin> {a, b, c, d}"
      and after: "tx (triangles ft' ! j) \<in> {a, b, c, d} \<or> tx (triangles ft' ! j) < int i"
    from process_point_slot [OF inv run j] consider
      (same) "j < length (triangles ft)" "triangles ft' ! j = triangles ft ! j"
        "planes ft' ! j = planes ft ! j" "kept ft' ! j \<longrightarrow> kept ft ! j \<and> \<not> in_conflict pts precision m ft j"
    | (new) e where "triangles ft' ! j = IVec3 (int m) (ey e) (ex e)"
      by blast
    then show "DistanceToPlane (pts ! i) (planes ft' ! j) \<le> precision"
    proof cases
      case same
      with k have kj: "kept ft ! j" and nc: "\<not> in_conflict pts precision m ft j" by simp_all
      show ?thesis
      proof (cases "i = m")
        case True
        with kj nc same(3) show ?thesis by (simp add: in_conflict_def)
      next
        case no: False
        with i have im: "i < m" by simp
        have "DistanceToPlane (pts ! i) (planes ft ! j) \<le> precision"
          using beh same(1) kj im ns after [unfolded same(2)]
          unfolding scanned_behind_def by blast
        then show ?thesis by (simp add: same(3))
      qed
    next
      case new
      with after i False show ?thesis by auto
    qed
  qed
qed

lemma table_reach_point_step:
  assumes "table_reach pts precision ft" and "point_step ord pts precision seed ft m = Inr ft'"
  shows "table_reach pts precision ft'"
  using assms
  by (cases seed) (auto simp: point_step_def split: if_splits intro: table_reach_process_point)

lemma point_loop_scanned_behind:
  assumes "table_reach pts precision f4"
    and "foldE (point_step ord pts precision (a, b, c, d)) [0..<n] f4 = Inr ft"
  shows "scanned_behind pts precision {a, b, c, d} n ft"
proof -
  have "table_reach pts precision ft \<and> scanned_behind pts precision {a, b, c, d} n ft"
  proof (rule foldE_upt_inv [OF assms(2), where
        I = "\<lambda>m ft. table_reach pts precision ft \<and> scanned_behind pts precision {a, b, c, d} m ft"])
    show "table_reach pts precision f4 \<and> scanned_behind pts precision {a, b, c, d} 0 f4"
      using assms(1) by (simp add: scanned_behind_def)
  next
    fix m ft ft'
    assume "table_reach pts precision ft \<and> scanned_behind pts precision {a, b, c, d} m ft"
      and "point_step ord pts precision (a, b, c, d) ft m = Inr ft'"
    then show "table_reach pts precision ft' \<and> scanned_behind pts precision {a, b, c, d} (Suc m) ft'"
      using point_step_scanned_behind table_reach_point_step by blast
  qed
  then show ?thesis by simp
qed

text \<open>
  C3 as stated fails on the input of five points, with the tolerance one half: the point 4 is a
  quarter in front of the seed face \<open>(2, 1, 0)\<close>, which therefore stays, and one of the new
  faces made for it, the output triangle \<open>(4, 0, 1)\<close>, has the input point 2 in front of its
  plane by more than the tolerance.
\<close>

theorem hull5_not_convex:
  "Hull insertion_order pts5 tol5 =
     Inr [IVec3 2 1 0, IVec3 4 0 1, IVec3 4 1 3, IVec3 2 3 1, IVec3 4 2 0, IVec3 4 3 2] \<and>
   Hull_table insertion_order pts5 tol5 = Inr (Some tab6) \<and>
   triangles tab6 ! 1 = IVec3 4 0 1 \<and> kept tab6 ! 1 \<and>
   planes tab6 ! 1 = PlaneOfPts (pts5 ! 1) (pts5 ! 0) (pts5 ! 4) \<and>
   tol5 < DistanceToPlane (pts5 ! 2) (PlaneOfPts (pts5 ! 1) (pts5 ! 0) (pts5 ! 4))"
proof -
  have "tol5 < DistanceToPlane (pts5 ! 2) (PlaneOfPts (pts5 ! 1) (pts5 ! 0) (pts5 ! 4))"
    by (simp add: nth5 conflict_iff tol5_nonneg sub3_def cross3_def dot3_def) (simp add: tol5_def)
  then show ?thesis
    by (simp add: hull5 table5) (simp add: tab6_def nth5)
qed

text \<open>
  C3, as the code has it. A face is tested against a point only when the point is
  processed. So for every output triangle \<open>t\<close>, and every input point \<open>i\<close> that is not a seed
  point and was processed after \<open>t\<close> was made (the first index of \<open>t\<close> is a seed index, or is
  below \<open>i\<close>), the signed distance of the point to the plane of \<open>t\<close> is at most the tolerance.
\<close>

theorem later_points_behind:
  assumes "Hull_seed pts precision = Inr (Some (a, b, c, d))"
    and "Hull ord pts precision = Inr out" and "t \<in> set out"
    and "i < length pts" and "int i \<notin> {a, b, c, d}"
    and "tx t \<in> {a, b, c, d} \<or> tx t < int i"
  shows "DistanceToPlane (pts ! i)
           (PlaneOfPts (pts ! nat (tz t)) (pts ! nat (ty t)) (pts ! nat (tx t))) \<le> precision"
proof -
  from assms(2,3) obtain ft where tab: "Hull_table ord pts precision = Inr (Some ft)"
    by (rule Hull_nonempty_table)
  from tab obtain seed f4 where seed: "Hull_seed pts precision = Inr (Some seed)"
    and f4: "seed_table pts seed = Inr f4"
    and run: "foldE (point_step ord pts precision seed) [0..<length pts] f4 = Inr ft"
    by (rule Hull_table_Some)
  from seed assms(1) have s: "seed = (a, b, c, d)" by simp
  have r4: "table_reach pts precision f4"
    using f4 by (rule table_reach_seed_table)
  have beh: "scanned_behind pts precision {a, b, c, d} (length pts) ft"
    using point_loop_scanned_behind [OF r4 run [unfolded s]] .
  from tab assms(2,3) obtain j where j: "j < length (triangles ft)" "kept ft ! j" "triangles ft ! j = t"
    by (rule Hull_out_slot)
  have "list_all2 (stored_plane pts) (triangles ft) (planes ft)"
    using tab table_reach_Hull_table table_reach_stored by blast
  with j have "stored_plane pts t (planes ft ! j)"
    by (auto simp: list_all2_conv_all_nth)
  then have pl: "planes ft ! j = PlaneOfPts (pts ! nat (tz t)) (pts ! nat (ty t)) (pts ! nat (tx t))"
    by (simp add: stored_plane_def)
  have "DistanceToPlane (pts ! i) (planes ft ! j) \<le> precision"
    using beh j(1,2) assms(4,5) assms(6) [folded j(3)]
    unfolding scanned_behind_def by blast
  then show ?thesis by (simp add: pl)
qed

theorem later_points_behind_witness:
  "IVec3 2 1 0 \<in> set [IVec3 2 1 0, IVec3 4 0 1, IVec3 4 1 3, IVec3 2 3 1, IVec3 4 2 0, IVec3 4 3 2] \<and>
   4 < length pts5 \<and> int 4 \<notin> {0, 1, 2, 3} \<and> tx (IVec3 2 1 0) \<in> {0, 1, 2, 3} \<and>
   DistanceToPlane (pts5 ! 4)
     (PlaneOfPts (pts5 ! nat (tz (IVec3 2 1 0))) (pts5 ! nat (ty (IVec3 2 1 0)))
        (pts5 ! nat (tx (IVec3 2 1 0)))) \<le> tol5"
proof -
  have m: "IVec3 2 1 0 \<in> set [IVec3 2 1 0, IVec3 4 0 1, IVec3 4 1 3, IVec3 2 3 1, IVec3 4 2 0, IVec3 4 3 2]"
    by simp
  have l: "4 < length pts5" by (simp add: len5)
  have n: "int 4 \<notin> {0, 1, 2, 3}" by simp
  have f: "tx (IVec3 2 1 0) \<in> {0, 1, 2, 3} \<or> tx (IVec3 2 1 0) < int 4" by simp
  show ?thesis
    using later_points_behind [OF seed5 hull5 m l n f] l by simp
qed

section \<open>The entry points on degenerate and scaled inputs\<close>

text \<open>
  The early returns of \<^verbatim>\<open>Hull\<close> that do work: fewer than four points, and no point further
  than the tolerance from the candidate plane.
\<close>

lemma Hull_short: "length pts < 4 \<Longrightarrow> Hull ord pts precision = Inr []"
  by (simp add: Hull_def Hull_table_def Hull_seed_def)

lemma NonCoplanar_from_none:
  assumes "\<forall>p\<in>set ps. \<bar>DistanceToPlane p plane\<bar> \<le> precision"
  shows "NonCoplanar_from k ps plane precision = (- 1, False)"
  using assms by (induction ps arbitrary: k) (auto simp: Let_def)

lemma Hull_coplanar:
  assumes "4 \<le> length pts" and "0 \<le> precision"
    and "NonCollinearTriple pts precision = Inr trip" and "0 \<le> tx trip"
    and "\<forall>p\<in>set pts. \<bar>DistanceToPlane p
           (PlaneOfPts (pts ! nat (tx trip)) (pts ! nat (ty trip)) (pts ! nat (tz trip)))\<bar> \<le> precision"
  shows "Hull ord pts precision = Inr []"
proof -
  note t = NonCollinearTriple_found [OF assms(2,3,4)]
  have "NonCoplanar pts (PlaneOfPts (pts ! nat (tx trip)) (pts ! nat (ty trip)) (pts ! nat (tz trip)))
      precision = (- 1, False)"
    using NonCoplanar_from_none [OF assms(5)] by (simp add: NonCoplanar_def)
  moreover have "pts \<noteq> []" using assms(1) by auto
  ultimately have "Hull_seed pts precision = Inr None"
    using assms(1,3) t by (simp add: Hull_seed_def nth_int_def Let_def)
  then show ?thesis
    by (simp add: Hull_def Hull_table_def)
qed

text \<open>The scale of the overload without a tolerance is the largest absolute coordinate.\<close>

lemma max_chain:
  fixes s x y z :: real
  shows "(let s1 = (if x > s then x else s); s2 = (if y > s1 then y else s1)
          in if z > s2 then z else s2) = max (max (max s x) y) z"
  by (simp add: Let_def max_def)

lemma scale_step_max: "scale_step s p = max (max (max s \<bar>vx p\<bar>) \<bar>vy p\<bar>) \<bar>vz p\<bar>"
  unfolding scale_step_def abs3_def Let_def vec3.sel
  using max_chain [where s = s and x = "\<bar>vx p\<bar>" and y = "\<bar>vy p\<bar>" and z = "\<bar>vz p\<bar>"]
  unfolding Let_def .

lemma Max_insert4:
  fixes s x y z :: real
  assumes "finite R"
  shows "Max (insert (max (max (max s x) y) z) R) = Max (insert s (insert x (insert y (insert z R))))"
proof (cases "R = {}")
  case True
  then show ?thesis by (simp add: max.assoc)
next
  case False
  with assms show ?thesis by (simp add: max.assoc)
qed

lemma scale_loop_max:
  "foldl scale_step s pts = Max (insert s (\<Union>p\<in>set pts. {\<bar>vx p\<bar>, \<bar>vy p\<bar>, \<bar>vz p\<bar>}))"
proof (induction pts arbitrary: s)
  case Nil
  show ?case by simp
next
  case (Cons p pts)
  define R where "R = (\<Union>p\<in>set pts. {\<bar>vx p\<bar>, \<bar>vy p\<bar>, \<bar>vz p\<bar>})"
  have fin: "finite R" by (simp add: R_def)
  have "foldl scale_step s (p # pts) = Max (insert (scale_step s p) R)"
    using Cons.IH [of "scale_step s p"] by (simp add: R_def)
  also have "\<dots> = Max (insert s (insert \<bar>vx p\<bar> (insert \<bar>vy p\<bar> (insert \<bar>vz p\<bar> R))))"
    unfolding scale_step_max using fin by (rule Max_insert4)
  also have "insert s (insert \<bar>vx p\<bar> (insert \<bar>vy p\<bar> (insert \<bar>vz p\<bar> R))) =
      insert s (\<Union>p\<in>set (p # pts). {\<bar>vx p\<bar>, \<bar>vy p\<bar>, \<bar>vz p\<bar>})"
    by (auto simp: R_def)
  finally show ?case .
qed

lemma Hull_default_scale:
  "Hull_default ord pts =
     Hull ord pts (1 / 10 ^ 9 * Max (insert 0 (\<Union>p\<in>set pts. {\<bar>vx p\<bar>, \<bar>vy p\<bar>, \<bar>vz p\<bar>})))"
  by (simp add: Hull_default_def scale_loop_max)

section \<open>Rounding to the nearest number\<close>

text \<open>
  \<open>half_even x\<close> is the integer nearest to \<open>x\<close>, the even one of two at the same distance;
  rounding commutes with the change of sign; a rounding is determined by the binade of its
  argument and the integer nearest to the argument in units of the last place; and a number
  with few enough significant bits is not changed.
\<close>

lemma half_even_unique:
  assumes "\<bar>x - of_int m\<bar> < 1 / 2 \<or> (\<bar>x - of_int m\<bar> = 1 / 2 \<and> even m)"
  shows "half_even x = m"
proof -
  define f where "f = \<lfloor>x\<rfloor>"
  have f: "of_int f \<le> x" "x < of_int f + 1" by (simp_all add: f_def)
  from assms consider (lt) "\<bar>x - of_int m\<bar> < 1 / 2" | (tie) "\<bar>x - of_int m\<bar> = 1 / 2" "even m"
    by blast
  then show ?thesis
  proof cases
    case lt
    then have m: "of_int m - 1 / 2 < x" "x < of_int m + 1 / 2" by linarith+
    from m f have "of_int m < of_int f + (3 / 2 :: real)" "of_int f < of_int m + (1 / 2 :: real)" by linarith+
    then have "real_of_int m < real_of_int (f + 2)" "real_of_int f < real_of_int (m + 1)" by simp_all
    then have "m < f + 2" "f < m + 1" by (simp_all only: of_int_less_iff)
    then consider "m = f" | "m = f + 1" by linarith
    then show ?thesis
    proof cases
      case 1
      with m show ?thesis by (simp add: half_even_def Let_def f_def [symmetric])
    next
      case 2
      with m f show ?thesis by (simp add: half_even_def Let_def f_def [symmetric])
    qed
  next
    case tie
    then consider (up) "x = of_int m + 1 / 2" | (down) "x = of_int m - 1 / 2" by linarith
    then show ?thesis
    proof cases
      case up
      then have "\<lfloor>x\<rfloor> = m" by (intro floor_unique) simp_all
      with up tie(2) show ?thesis by (simp add: half_even_def Let_def)
    next
      case down
      then have "x = of_int (m - 1) + 1 / 2" by simp
      then have fl: "\<lfloor>x\<rfloor> = m - 1" by (intro floor_unique) simp_all
      with down tie(2) show ?thesis by (simp add: half_even_def Let_def)
    qed
  qed
qed

lemma half_even_near:
  "\<bar>x - of_int (half_even x)\<bar> < 1 / 2 \<or> (\<bar>x - of_int (half_even x)\<bar> = 1 / 2 \<and> even (half_even x))"
proof -
  define f where "f = \<lfloor>x\<rfloor>"
  have f: "of_int f \<le> x" "x < of_int f + 1" by (simp_all add: f_def)
  consider "x - of_int f < 1 / 2" | "1 / 2 < x - of_int f" | "x - of_int f = 1 / 2" "even f"
    | "x - of_int f = 1 / 2" "odd f" by fastforce
  then show ?thesis
  proof cases
    case 1
    then have "half_even x = f" by (simp add: half_even_def Let_def f_def [symmetric])
    with 1 f show ?thesis by simp
  next
    case 2
    then have "half_even x = f + 1" by (simp add: half_even_def Let_def f_def [symmetric])
    with 2 f show ?thesis by simp
  next
    case 3
    then have "half_even x = f" by (simp add: half_even_def Let_def f_def [symmetric])
    with 3 show ?thesis by simp
  next
    case 4
    then have "half_even x = f + 1" by (simp add: half_even_def Let_def f_def [symmetric])
    with 4 show ?thesis by simp
  qed
qed

lemma half_even_minus: "half_even (- x) = - half_even x"
proof (rule half_even_unique)
  have "\<bar>- x - of_int (- half_even x)\<bar> = \<bar>x - of_int (half_even x)\<bar>" by simp
  then show "\<bar>- x - of_int (- half_even x)\<bar> < 1 / 2 \<or>
      (\<bar>- x - of_int (- half_even x)\<bar> = 1 / 2 \<and> even (- half_even x))"
    using half_even_near [of x] by simp
qed

lemma half_even_of_int: "half_even (of_int m) = m"
  by (rule half_even_unique) simp

lemma pow2_pos: "0 < pow2 k"
  by (simp add: pow2_def)

lemma pow2_powr: "pow2 k = 2 powr (of_int k)"
  by (simp add: pow2_def powr_int)

lemma pow2_add: "pow2 (j + k) = pow2 j * pow2 k"
  by (simp add: pow2_powr powr_add)

lemma round_to_minus: "round_to p emin (- x) = - round_to p emin x"
  by (simp add: round_to_def Let_def half_even_minus)

lemma round_to_zero: "round_to p emin 0 = 0"
  by (simp add: round_to_def)

lemma round_to_eq:
  assumes b: "pow2 e \<le> \<bar>x\<bar>" "\<bar>x\<bar> < pow2 (e + 1)" and e: "emin \<le> e"
    and m: "\<bar>x / pow2 (e - int p + 1) - of_int m\<bar> < 1 / 2 \<or>
            (\<bar>x / pow2 (e - int p + 1) - of_int m\<bar> = 1 / 2 \<and> even m)"
  shows "round_to p emin x = of_int m * pow2 (e - int p + 1)"
proof -
  from b(1) pow2_pos [of e] have x: "x \<noteq> 0" "0 < \<bar>x\<bar>" by auto
  have "\<lfloor>log 2 \<bar>x\<bar>\<rfloor> = e"
    using b x(2) by (simp add: floor_log_eq_powr_iff pow2_powr)
  with e have "max emin \<lfloor>log 2 \<bar>x\<bar>\<rfloor> = e" by simp
  then show ?thesis
    using x(1) half_even_unique [OF m] by (simp add: round_to_def Let_def)
qed

lemma round_to_exact:
  assumes m: "\<bar>m\<bar> < 2 ^ p" and k: "emin - int p + 1 \<le> k"
  shows "round_to p emin (of_int m * pow2 k) = of_int m * pow2 k"
proof (cases "m = 0")
  case True
  then show ?thesis by (simp add: round_to_def)
next
  case False
  define x where "x = of_int m * pow2 k"
  have x0: "x \<noteq> 0" "0 < \<bar>x\<bar>"
    using False pow2_pos [of k] by (simp_all add: x_def)
  have "\<bar>x\<bar> = of_int \<bar>m\<bar> * pow2 k"
    using pow2_pos [of k] by (simp add: x_def abs_mult)
  also have "\<dots> < 2 ^ p * pow2 k"
  proof -
    have "real_of_int \<bar>m\<bar> < real_of_int (2 ^ p)" using m by (simp only: of_int_less_iff)
    then show ?thesis using pow2_pos [of k] by simp
  qed
  also have "2 ^ p * pow2 k = 2 powr (of_int (int p + k))"
    by (simp add: pow2_powr powr_add powr_realpow)
  finally have "log 2 \<bar>x\<bar> < of_int (int p + k)"
    using x0(2) by (simp add: log_less_iff)
  then have e0: "\<lfloor>log 2 \<bar>x\<bar>\<rfloor> < int p + k" by (simp add: floor_less_iff)
  define e where "e = max emin \<lfloor>log 2 \<bar>x\<bar>\<rfloor>"
  have e: "e - int p + 1 \<le> k" using e0 k by (simp add: e_def)
  define n where "n = nat (k - (e - int p + 1))"
  have kn: "k = int n + (e - int p + 1)" using e by (simp add: n_def)
  have p: "pow2 k = 2 ^ n * pow2 (e - int p + 1)"
    unfolding kn [THEN arg_cong, of pow2] pow2_add by (simp add: pow2_def)
  have q: "x / pow2 (e - int p + 1) = of_int (m * 2 ^ n)"
    using pow2_pos [of "e - int p + 1"] by (simp add: x_def p)
  have "round_to p emin x = of_int (half_even (x / pow2 (e - int p + 1))) * pow2 (e - int p + 1)"
    using x0(1) by (simp add: round_to_def Let_def e_def)
  also have "\<dots> = of_int (m * 2 ^ n) * pow2 (e - int p + 1)"
    unfolding q half_even_of_int ..
  also have "\<dots> = x" by (simp add: x_def p)
  finally show ?thesis by (simp add: x_def)
qed

lemma float32_minus [simp]: "float32 (- x) = - float32 x"
  by (simp add: float32_def round_to_minus)

lemma float32_0 [simp]: "float32 0 = 0"
  by (simp add: float32_def round_to_zero)

lemma float32_of_int: "\<bar>m\<bar> < 16777216 \<Longrightarrow> float32 (of_int m) = of_int m"
  using round_to_exact [of m 24 "- 126" 0] by (simp add: float32_def pow2_def)

lemma float32_numeral [simp]: "(numeral n :: int) < 16777216 \<Longrightarrow> float32 (numeral n) = numeral n"
  using float32_of_int [of "numeral n"] by simp

lemma float32_1 [simp]: "float32 1 = 1"
  using float32_of_int [of 1] by simp

lemma float64_of_int: "\<bar>m\<bar> < 9007199254740992 \<Longrightarrow> float64 (of_int m) = of_int m"
  using round_to_exact [of m 53 "- 1022" 0] by (simp add: float64_def pow2_def)

lemma flt_ieee [simp]: "flt ieee = float32" "dbl ieee = float64"
  by (simp_all add: ieee_def)

text \<open>The roundings met in the runs below.\<close>

lemma float32_exact_vals [simp]:
  "float32 (5033165 / 8388608) = 5033165 / 8388608"
  "float32 (13421773 / 16777216) = 13421773 / 16777216"
  "float32 (2936013 / 2097152) = 2936013 / 2097152"
  "float32 (1 / 8388608) = 1 / 8388608"
  "float32 (5033165 / 2097152) = 5033165 / 2097152"
  "float32 (13421773 / 2097152) = 13421773 / 2097152"
  using round_to_exact [of 5033165 24 "- 126" "- 23"]
    round_to_exact [of 13421773 24 "- 126" "- 24"]
    round_to_exact [of 2936013 24 "- 126" "- 21"]
    round_to_exact [of 1 24 "- 126" "- 23"]
    round_to_exact [of 5033165 24 "- 126" "- 21"]
    round_to_exact [of 13421773 24 "- 126" "- 21"]
  by (simp_all add: float32_def pow2_def)

lemma float32_three_fifths [simp]: "float32 (3 / 5) = 5033165 / 8388608"
  using round_to_eq [of "- 1" "3 / 5" "- 126" 24 10066330]
  by (simp add: float32_def pow2_def)

lemma float32_four_fifths [simp]: "float32 (4 / 5) = 13421773 / 16777216"
  using round_to_eq [of "- 1" "4 / 5" "- 126" 24 13421773]
  by (simp add: float32_def pow2_def)

lemma float32_seven_fifths [simp]: "float32 (7 / 5) = 11744051 / 8388608"
  using round_to_eq [of 0 "7 / 5" "- 126" 24 11744051]
  by (simp add: float32_def pow2_def)

lemma float32_tie [simp]: "float32 (23488103 / 16777216) = 2936013 / 2097152"
  using round_to_eq [of 0 "23488103 / 16777216" "- 126" 24 11744052]
  by (simp add: float32_def pow2_def)

lemma float32_to_four [simp]: "float32 (67108865 / 16777216) = 4"
  using round_to_eq [of 2 "67108865 / 16777216" "- 126" 24 8388608]
  by (simp add: float32_def pow2_def)

lemma float32_to_five [simp]: "float32 (41943041 / 8388608) = 5"
  using round_to_eq [of 2 "41943041 / 8388608" "- 126" 24 10485760]
  by (simp add: float32_def pow2_def)

lemma float64_billionth: "float64 (1 / 10 ^ 9) = 4835703278458517 / 2 ^ 82"
  using round_to_eq [of "- 30" "1 / 10 ^ 9" "- 1022" 53 4835703278458517]
  by (simp add: float64_def pow2_def)

lemma float64_tolerance: "float64 (4835703278458517 / 2 ^ 82 * 5) = 3022314549036573 / 2 ^ 79"
  using round_to_eq [of "- 28" "4835703278458517 / 2 ^ 82 * 5" "- 1022" 53 6044629098073146]
  by (simp add: float64_def pow2_def)

lemma float64_offset: "float64 (5 * (3022314549036573 / 2 ^ 79)) = 944473296573929 / 2 ^ 75"
  using round_to_eq [of "- 26" "5 * (3022314549036573 / 2 ^ 79)" "- 1022" 53 7555786372591432]
  by (simp add: float64_def pow2_def)

section \<open>Exact arithmetic as a rounding\<close>

text \<open>
  With the arithmetic \<open>exact\<close> the rounded definitions are the definitions without rounding.
\<close>

lemma flt_exact [simp]: "flt exact x = x" "dbl exact x = x"
  by (simp_all add: exact_def)

lemma vec_exact [simp]:
  "sub3_r exact a b = sub3 a b" "scale3_r exact v s = scale3 v s" "div3_r exact v s = div3 v s"
  "dot3_r exact a b = dot3 a b" "cross3_r exact a b = cross3 a b" "length3_r exact v = length3 v"
  "distance3_r exact a b = distance3 a b"
  by (simp_all add: sub3_r_def sub3_def scale3_r_def scale3_def div3_r_def div3_def
      dot3_r_def dot3_def cross3_r_def cross3_def length3_r_def length3_def distance3_r_def
      distance3_def)

lemma prim_exact [simp]:
  "DistanceToVector_r exact pt v = DistanceToVector pt v"
  "DistanceToPlane_r exact pt plane = DistanceToPlane pt plane"
  "PlaneOfPts_r exact a b c = PlaneOfPts a b c"
  by (simp_all add: DistanceToVector_r_def DistanceToVector_def DistanceToPlane_r_def
      DistanceToPlane_def PlaneOfPts_r_def PlaneOfPts_def Let_def)

lemma NonCollinearTriple_exact [simp]:
  "NonCollinearTriple_r exact pts precision = NonCollinearTriple pts precision"
proof -
  have "furthest_step_r exact pts = furthest_step pts" "third_step_r exact pts = third_step pts"
    by (simp_all add: fun_eq_iff furthest_step_r_def furthest_step_def third_step_r_def
        third_step_def Let_def)
  then show ?thesis
    by (simp add: NonCollinearTriple_r_def NonCollinearTriple_def Let_def)
qed

lemma NonCoplanar_from_exact [simp]:
  "NonCoplanar_from_r exact i ps plane precision = NonCoplanar_from i ps plane precision"
  by (induction ps arbitrary: i) (simp_all add: Let_def)

lemma Hull_seed_exact [simp]: "Hull_seed_r exact pts precision = Hull_seed pts precision"
  by (simp add: Hull_seed_r_def Hull_seed_def NonCoplanar_r_def NonCoplanar_def)

lemma AddTri_exact [simp]: "AddTri_r exact pts a b c ft = AddTri pts a b c ft"
  by (simp add: AddTri_r_def AddTri_def)

lemma scan_step_exact [simp]: "scan_step_r exact pts precision i st j = scan_step pts precision i st j"
  by (simp add: scan_step_r_def scan_step_def Let_def cong: if_cong)

lemma horizon_loop_exact [simp]:
  "horizon_loop_r exact pts i visited rest ft = horizon_loop pts i visited rest ft"
proof (induction pts i visited rest ft rule: horizon_loop.induct)
  case (1 pts i visited ft)
  show ?case by simp
next
  case (2 pts i visited e rest ft)
  show ?case
  proof (cases "IVec2 (ey e) (ex e) = e")
    case True
    then show ?thesis by simp
  next
    case ne: False
    show ?thesis
    proof (cases "IVec2 (ey e) (ex e) \<in> set visited \<or> IVec2 (ey e) (ex e) \<in> set rest")
      case True
      with ne "2.IH"(1) [OF refl ne True] show ?thesis by (simp add: Let_def)
    next
      case False
      have "bindE (AddTri pts (ex e) (ey e) i ft) (horizon_loop_r exact pts i (visited @ [e]) rest) =
            bindE (AddTri pts (ex e) (ey e) i ft) (horizon_loop pts i (visited @ [e]) rest)"
        using "2.IH"(2) [OF refl ne False] by (cases "AddTri pts (ex e) (ey e) i ft") simp_all
      with ne False show ?thesis by (simp add: Let_def)
    qed
  qed
qed

lemma process_point_exact [simp]:
  "process_point_r exact ord pts precision i ft = process_point ord pts precision i ft"
proof -
  have "scan_step_r exact pts precision i = scan_step pts precision i"
    by (simp add: fun_eq_iff)
  then show ?thesis
    by (simp add: process_point_r_def process_point_def)
qed

lemma Hull_table_exact [simp]:
  "Hull_table_r exact ord pts precision = Hull_table ord pts precision"
proof -
  have "point_step_r exact ord pts precision seed = point_step ord pts precision seed" for seed
    by (cases seed) (simp add: fun_eq_iff point_step_r_def point_step_def)
  moreover have "seed_table_r exact pts seed = seed_table pts seed" for seed
    by (cases seed) (simp add: seed_table_r_def seed_table_def)
  ultimately show ?thesis
    by (simp add: Hull_table_r_def Hull_table_def cong: option.case_cong)
qed

lemma Hull_exact: "Hull_r exact ord pts precision = Hull ord pts precision"
  by (simp add: Hull_r_def Hull_def)

lemma Hull_default_exact: "Hull_default_r exact ord pts = Hull_default ord pts"
  by (simp add: Hull_default_r_def Hull_default_def Hull_exact)

section \<open>The face table under rounding\<close>

text \<open>
  What \<^verbatim>\<open>AddTri\<close> and an iteration of the conflict scan do to the face table does not
  depend on the arithmetic: the invariants of the face table and the description of the
  output hold for every rounding.
\<close>

lemma AddTri_Inr_r:
  assumes "AddTri_r R pts a b c ft = Inr ft'"
  shows "0 \<le> a \<and> a < int (length pts) \<and> 0 \<le> b \<and> b < int (length pts) \<and>
         0 \<le> c \<and> c < int (length pts) \<and>
         (if dropped ft \<noteq> [] then
            last (dropped ft) < length (triangles ft) \<and> last (dropped ft) < length (planes ft) \<and>
            last (dropped ft) < length (kept ft) \<and>
            ft' = ft\<lparr>triangles := (triangles ft)[last (dropped ft) := IVec3 c b a],
                      planes := (planes ft)[last (dropped ft) :=
                                  PlaneOfPts_r R (pts ! nat a) (pts ! nat b) (pts ! nat c)],
                      kept := (kept ft)[last (dropped ft) := True],
                      dropped := butlast (dropped ft)\<rparr>
          else ft' = ft\<lparr>triangles := triangles ft @ [IVec3 c b a],
                         planes := planes ft @ [PlaneOfPts_r R (pts ! nat a) (pts ! nat b) (pts ! nat c)],
                         kept := kept ft @ [True]\<rparr>)"
  using assms
  by (auto simp: AddTri_r_def Let_def bindE_eq_Inr nth_int_eq_Inr split: if_splits)

lemma scan_step_Inr_r:
  assumes "scan_step_r R pts precision i (ft, hs) j = Inr (ft', hs')"
  shows "j < length (kept ft) \<and>
         (if kept ft ! j \<and> precision < DistanceToPlane_r R (pts ! i) (planes ft ! j)
          then i < length pts \<and> j < length (planes ft) \<and> j < length (triangles ft) \<and>
               ft' = ft\<lparr>dropped := dropped ft @ [j], kept := (kept ft)[j := False]\<rparr> \<and>
               hs' = insert_edge (IVec2 (ty (triangles ft ! j)) (tx (triangles ft ! j)))
                       (insert_edge (IVec2 (tz (triangles ft ! j)) (ty (triangles ft ! j)))
                         (insert_edge (IVec2 (tx (triangles ft ! j)) (tz (triangles ft ! j))) hs))
          else ft' = ft \<and> hs' = hs)"
  using assms
  by (auto simp: scan_step_r_def Let_def bindE_eq_Inr nth_int_eq_Inr look_eq_Inr split: if_splits)

lemma table_inv_AddTri_r:
  assumes "table_inv ft" and "AddTri_r R pts a b c ft = Inr ft'"
  shows "table_inv ft'"
proof (cases "dropped ft = []")
  case True
  with AddTri_Inr_r [OF assms(2)] have ft': "ft' = ft\<lparr>triangles := triangles ft @ [IVec3 c b a],
      planes := planes ft @ [PlaneOfPts_r R (pts ! nat a) (pts ! nat b) (pts ! nat c)],
      kept := kept ft @ [True]\<rparr>" by simp
  from assms(1) True have e: "\<And>j. j < length (kept ft) \<Longrightarrow> kept ft ! j"
    by (auto simp: table_inv_def)
  have "{j. j < Suc (length (kept ft)) \<and> \<not> (kept ft @ [True]) ! j} = {}"
    using e by (auto simp: nth_append less_Suc_eq)
  with assms(1) True show ?thesis
    by (simp add: table_inv_def ft')
next
  case False
  define idx where "idx = last (dropped ft)"
  from False AddTri_Inr_r [OF assms(2)] have ft': "ft' = ft\<lparr>triangles := (triangles ft)[idx := IVec3 c b a],
      planes := (planes ft)[idx := PlaneOfPts_r R (pts ! nat a) (pts ! nat b) (pts ! nat c)],
      kept := (kept ft)[idx := True], dropped := butlast (dropped ft)\<rparr>"
    and idx: "idx < length (kept ft)"
    by (simp_all add: idx_def)
  from assms(1) have d: "distinct (dropped ft)"
    and s: "set (dropped ft) = {j. j < length (kept ft) \<and> \<not> kept ft ! j}"
    by (simp_all add: table_inv_def)
  have "set (butlast (dropped ft)) = set (dropped ft) - {idx}"
    using set_butlast_distinct [OF d False] by (simp add: idx_def)
  also have "\<dots> = {j. j < length (kept ft) \<and> \<not> (kept ft)[idx := True] ! j}"
    using idx by (auto simp: s nth_list_update)
  finally show ?thesis
    using assms(1) d by (simp add: table_inv_def ft' distinct_butlast)
qed

lemma table_inv_scan_step_r:
  assumes "table_inv ft" and "scan_step_r R pts precision i (ft, hs) j = Inr (ft', hs')"
  shows "table_inv ft'"
proof (cases "kept ft ! j \<and> precision < DistanceToPlane_r R (pts ! i) (planes ft ! j)")
  case False
  with scan_step_Inr_r [OF assms(2)] assms(1) show ?thesis by auto
next
  case True
  with scan_step_Inr_r [OF assms(2)]
  have ft': "ft' = ft\<lparr>dropped := dropped ft @ [j], kept := (kept ft)[j := False]\<rparr>"
    and j: "j < length (kept ft)" by simp_all
  from assms(1) have d: "distinct (dropped ft)"
    and s: "set (dropped ft) = {j. j < length (kept ft) \<and> \<not> kept ft ! j}"
    by (simp_all add: table_inv_def)
  from True s have "j \<notin> set (dropped ft)" by simp
  moreover have "insert j (set (dropped ft)) = {k. k < length (kept ft) \<and> \<not> (kept ft)[j := False] ! k}"
    using j by (auto simp: s nth_list_update)
  ultimately show ?thesis
    using assms(1) d by (simp add: table_inv_def ft')
qed

lemma table_reach_inv_r: "table_reach_r R pts precision ft \<Longrightarrow> table_inv ft"
  by (induction rule: table_reach_r.induct)
     (auto intro: table_inv_empty table_inv_AddTri_r table_inv_scan_step_r)

lemma table_reach_scan_loop_r:
  assumes "foldE (scan_step_r R pts precision i) js st = Inr st'" and "table_reach_r R pts precision (fst st)"
  shows "table_reach_r R pts precision (fst st')"
proof (rule foldE_inv [OF assms(1), where P = "\<lambda>st. table_reach_r R pts precision (fst st)"])
  show "table_reach_r R pts precision (fst st)" by (rule assms(2))
next
  fix j s s'
  assume "table_reach_r R pts precision (fst s)" and "scan_step_r R pts precision i s j = Inr s'"
  then show "table_reach_r R pts precision (fst s')"
    using reach_scan_r [of R pts precision "fst s" i "snd s" j "fst s'" "snd s'"] by simp
qed

lemma table_reach_horizon_loop_r:
  "table_reach_r R pts precision ft \<Longrightarrow> horizon_loop_r R pts i visited rest ft = Inr ft' \<Longrightarrow>
   table_reach_r R pts precision ft'"
proof (induction R pts i visited rest ft rule: horizon_loop_r.induct)
  case (1 R pts i visited ft)
  then show ?case by simp
next
  case (2 R pts i visited e rest ft)
  define r where "r = IVec2 (ey e) (ex e)"
  from "2.prems"(2) have ne: "r \<noteq> e"
    by (auto simp: r_def Let_def split: if_splits)
  show ?case
  proof (cases "r \<in> set visited \<or> r \<in> set rest")
    case True
    with "2.prems" ne have "horizon_loop_r R pts i (removeAll r visited @ [e]) (removeAll r rest) ft = Inr ft'"
      by (simp add: r_def Let_def)
    with "2.IH"(1) [OF r_def ne True "2.prems"(1)] show ?thesis by simp
  next
    case False
    with "2.prems" ne obtain f1 where f1: "AddTri_r R pts (ex e) (ey e) i ft = Inr f1"
      "horizon_loop_r R pts i (visited @ [e]) rest f1 = Inr ft'"
      by (auto simp: r_def Let_def bindE_eq_Inr)
    have "table_reach_r R pts precision f1"
      using reach_add_r [OF "2.prems"(1) f1(1)] .
    then show ?thesis
      using "2.IH"(2) [OF r_def ne False] f1(2) by simp
  qed
qed

lemma table_reach_process_point_r:
  assumes "table_reach_r R pts precision ft" and "process_point_r R ord pts precision i ft = Inr ft'"
  shows "table_reach_r R pts precision ft'"
proof -
  from assms(2) obtain st where st:
    "foldE (scan_step_r R pts precision i) [0..<length (triangles ft)] (ft, []) = Inr st"
    "horizon_loop_r R pts (int i) [] (iter_order ord i (snd st)) (fst st) = Inr ft'"
    by (auto simp: process_point_r_def bindE_eq_Inr)
  have "table_reach_r R pts precision (fst st)"
    using table_reach_scan_loop_r [OF st(1)] assms(1) by simp
  then show ?thesis using table_reach_horizon_loop_r st(2) by blast
qed

lemma table_reach_seed_table_r:
  assumes "seed_table_r R pts seed = Inr f4"
  shows "table_reach_r R pts precision f4"
proof -
  obtain a b c d where seed: "seed = (a, b, c, d)" by (cases seed) auto
  from assms obtain f1 f2 f3 where
    f: "AddTri_r R pts a b c empty_table = Inr f1" "AddTri_r R pts d b a f1 = Inr f2"
    "AddTri_r R pts c d a f2 = Inr f3" "AddTri_r R pts b d c f3 = Inr f4"
    by (auto simp: seed seed_table_r_def bindE_eq_Inr)
  have "table_reach_r R pts precision f1" using reach_empty_r f(1) by (rule reach_add_r)
  then have "table_reach_r R pts precision f2" using f(2) by (rule reach_add_r)
  then have "table_reach_r R pts precision f3" using f(3) by (rule reach_add_r)
  then show ?thesis using f(4) by (rule reach_add_r)
qed

lemma Hull_table_Some_r:
  assumes "Hull_table_r R ord pts precision = Inr (Some ft)"
  obtains seed f4 where "Hull_seed_r R pts precision = Inr (Some seed)"
    and "seed_table_r R pts seed = Inr f4"
    and "foldE (point_step_r R ord pts precision seed) [0..<length pts] f4 = Inr ft"
  using assms
  by (auto simp: Hull_table_r_def bindE_eq_Inr split: option.splits)

lemma table_reach_Hull_table_r:
  assumes "Hull_table_r R ord pts precision = Inr (Some ft)"
  shows "table_reach_r R pts precision ft"
proof -
  from assms obtain seed f4 where f4: "seed_table_r R pts seed = Inr f4"
    and run: "foldE (point_step_r R ord pts precision seed) [0..<length pts] f4 = Inr ft"
    by (rule Hull_table_Some_r)
  show ?thesis
  proof (rule foldE_inv [OF run, where P = "table_reach_r R pts precision"])
    show "table_reach_r R pts precision f4" using f4 by (rule table_reach_seed_table_r)
  next
    fix i s s'
    assume "table_reach_r R pts precision s" and "point_step_r R ord pts precision seed s i = Inr s'"
    then show "table_reach_r R pts precision s'"
      by (cases seed) (auto simp: point_step_r_def split: if_splits intro: table_reach_process_point_r)
  qed
qed

lemma stored_AddTri_r:
  assumes "list_all2 (stored_plane_r R pts) (triangles ft) (planes ft)"
    and "AddTri_r R pts a b c ft = Inr ft'"
  shows "list_all2 (stored_plane_r R pts) (triangles ft') (planes ft')"
proof -
  note r = AddTri_Inr_r [OF assms(2)]
  have new: "stored_plane_r R pts (IVec3 c b a) (PlaneOfPts_r R (pts ! nat a) (pts ! nat b) (pts ! nat c))"
    using r by (simp add: stored_plane_r_def)
  show ?thesis
  proof (cases "dropped ft = []")
    case True
    with r have "triangles ft' = triangles ft @ [IVec3 c b a]"
      "planes ft' = planes ft @ [PlaneOfPts_r R (pts ! nat a) (pts ! nat b) (pts ! nat c)]"
      by simp_all
    with assms(1) new show ?thesis
      by (simp add: list_all2_appendI)
  next
    case False
    with r have "triangles ft' = (triangles ft)[last (dropped ft) := IVec3 c b a]"
      "planes ft' = (planes ft)[last (dropped ft) := PlaneOfPts_r R (pts ! nat a) (pts ! nat b) (pts ! nat c)]"
      by simp_all
    with assms(1) new show ?thesis
      by (simp add: list_all2_update_cong)
  qed
qed

lemma stored_scan_step_r:
  assumes "list_all2 (stored_plane_r R pts) (triangles ft) (planes ft)"
    and "scan_step_r R pts precision i (ft, hs) j = Inr (ft', hs')"
  shows "list_all2 (stored_plane_r R pts) (triangles ft') (planes ft')"
  using scan_step_Inr_r [OF assms(2)] assms(1)
  by (auto split: if_splits)

lemma table_reach_stored_r:
  "table_reach_r R pts precision ft \<Longrightarrow> list_all2 (stored_plane_r R pts) (triangles ft) (planes ft)"
proof (induction rule: table_reach_r.induct)
  case reach_empty_r
  show ?case by (simp add: empty_table_def)
next
  case (reach_add_r ft a b c ft')
  then show ?case using stored_AddTri_r by blast
next
  case (reach_scan_r ft i hs j ft' hs')
  then show ?case using stored_scan_step_r by blast
qed

lemma Hull_out_r:
  assumes "Hull_table_r R ord pts precision = Inr (Some ft)" and "Hull_r R ord pts precision = Inr out"
  shows "table_inv ft \<and> out = map (\<lambda>j. triangles ft ! j) (filter (\<lambda>j. kept ft ! j) [0..<length (triangles ft)])"
proof -
  have "table_inv ft"
    using assms(1) table_reach_Hull_table_r table_reach_inv_r by blast
  with compact_eq [OF this] assms show ?thesis
    by (simp add: Hull_r_def)
qed

lemma Hull_out_slot_r:
  assumes "Hull_table_r R ord pts precision = Inr (Some ft)" and "Hull_r R ord pts precision = Inr out"
    and "t \<in> set out"
  obtains j where "j < length (triangles ft)" and "kept ft ! j" and "triangles ft ! j = t"
  using Hull_out_r [OF assms(1,2)] assms(3) by auto

text \<open>
  C4, as the code has it. Whatever the rounding: in every face table that \<^verbatim>\<open>AddTri\<close> and
  the conflict scan can produce, each slot holds a triangle \<open>(c, b, a)\<close> together with the plane
  that \<^verbatim>\<open>PlaneOfPts(pts[a], pts[b], pts[c])\<close> computes from its points in reverse order. Every
  output triangle \<open>t\<close> sits in a live slot of the final table, and the plane stored in that
  slot is \<^verbatim>\<open>PlaneOfPts(pts[t2], pts[t1], pts[t0])\<close> as computed: its normal is the rounded
  quotient of the computed cross product by its computed length, or the null vector when that
  length is zero.
\<close>

theorem stored_in_reverse_order:
  assumes "Hull_table_r R ord pts precision = Inr (Some ft)"
    and "Hull_r R ord pts precision = Inr out"
    and "t \<in> set out"
  shows "(\<forall>f. table_reach_r R pts precision f \<longrightarrow>
            list_all2 (stored_plane_r R pts) (triangles f) (planes f)) \<and>
         (\<exists>j<length (triangles ft). kept ft ! j \<and> triangles ft ! j = t \<and>
            stored_plane_r R pts t (planes ft ! j))"
proof -
  from assms obtain j where j: "j < length (triangles ft)" "kept ft ! j" "triangles ft ! j = t"
    by (rule Hull_out_slot_r)
  have "list_all2 (stored_plane_r R pts) (triangles ft) (planes ft)"
    using assms(1) table_reach_Hull_table_r table_reach_stored_r by blast
  with j have s: "stored_plane_r R pts t (planes ft ! j)"
    by (auto simp: list_all2_conv_all_nth)
  with j show ?thesis
    using table_reach_stored_r by blast
qed

text \<open>
  The indices of an output triangle are within the bounds of the input, whatever the rounding.
\<close>

lemma output_indices_in_range:
  assumes "Hull_r R ord pts precision = Inr out" and "t \<in> set out"
  shows "0 \<le> tx t \<and> tx t < int (length pts) \<and> 0 \<le> ty t \<and> ty t < int (length pts) \<and>
         0 \<le> tz t \<and> tz t < int (length pts)"
proof -
  from assms(1) obtain r where r: "Hull_table_r R ord pts precision = Inr r"
    and c: "(case r of None \<Rightarrow> Inr [] | Some ft \<Rightarrow> compact ft) = Inr out"
    by (auto simp: Hull_r_def bindE_eq_Inr)
  from c assms(2) obtain ft where ft: "r = Some ft" by (cases r) auto
  from r ft assms obtain j where j: "j < length (triangles ft)" "triangles ft ! j = t"
    using Hull_out_slot_r by blast
  have "list_all2 (stored_plane_r R pts) (triangles ft) (planes ft)"
    using r ft table_reach_Hull_table_r table_reach_stored_r by blast
  with j have "stored_plane_r R pts t (planes ft ! j)"
    by (auto simp: list_all2_conv_all_nth)
  then show ?thesis by (simp add: stored_plane_r_def)
qed

section \<open>The algorithm under rounding\<close>

text \<open>
  The facts proved above about the seed tetrahedron, the conflict scan, the loop over the
  half-edge set, the vertex indices and the points behind the output faces, proved again of
  the rounded definitions for every rounding \<open>R\<close>. The proofs are the same: they follow the
  operations on the face table and the comparisons that the code makes. Only the orientation
  of the seed tetrahedron uses a property of the arithmetic, that rounding commutes with the
  change of sign.
\<close>

text \<open>
  Swapping two arguments of \<^verbatim>\<open>PlaneOfPts\<close> negates the signed distance, for every
  rounding that commutes with the change of sign, as rounding to the nearest does. The
  triple of seed selection is made of indices within the bounds, whatever the rounding.
\<close>

lemma DistanceToPlane_swap_r:
  assumes odd: "\<And>x. flt R (- x) = - flt R x"
  shows "DistanceToPlane_r R p (PlaneOfPts_r R a c b) = - DistanceToPlane_r R p (PlaneOfPts_r R a b c)"
proof -
  define u where "u = sub3_r R c a"
  define v where "v = sub3_r R b a"
  define crx where "crx = cross3_r R u v"
  define n where "n = length3_r R crx"
  have z: "flt R 0 = 0" using odd [of 0] by simp
  have s: "flt R (- x - y) = - flt R (x + y)" "flt R (- x + y) = - flt R (x - y)" for x y
    using odd [of "x + y"] odd [of "x - y"] by simp_all
  have d: "dot3_r R (Vec3 (- x) (- y) (- z)) w = - dot3_r R (Vec3 x y z) w" for x y z w
    by (simp add: dot3_r_def odd s)
  have c: "cross3_r R v u = Vec3 (- vx crx) (- vy crx) (- vz crx)"
    using odd [of "flt R (vy u * vz v) - flt R (vy v * vz u)"]
      odd [of "flt R (vz u * vx v) - flt R (vz v * vx u)"]
      odd [of "flt R (vx u * vy v) - flt R (vx v * vy u)"]
    by (simp add: crx_def cross3_r_def)
  have l: "length3_r R (Vec3 (- vx crx) (- vy crx) (- vz crx)) = n"
    by (cases crx) (simp add: n_def length3_r_def dot3_r_def)
  have da: "dot3_r R (Vec3 (- vx crx) (- vy crx) (- vz crx)) a = - dot3_r R crx a"
    using d [of "vx crx" "vy crx" "vz crx" a] by simp
  show ?thesis
  proof (cases "n = 0")
    case True
    then have "PlaneOfPts_r R a c b = Vec4 0 0 0 0" "PlaneOfPts_r R a b c = Vec4 0 0 0 0"
      by (simp_all add: PlaneOfPts_r_def Let_def u_def [symmetric] v_def [symmetric] c l
          crx_def [symmetric] n_def [symmetric])
    then show ?thesis
      by (simp add: DistanceToPlane_r_def dot3_r_def z)
  next
    case False
    then have "PlaneOfPts_r R a b c =
        Vec4 (flt R (vx crx / n)) (flt R (vy crx / n)) (flt R (vz crx / n)) (flt R (dot3_r R crx a / n))"
      and "PlaneOfPts_r R a c b =
        Vec4 (- flt R (vx crx / n)) (- flt R (vy crx / n)) (- flt R (vz crx / n))
             (- flt R (dot3_r R crx a / n))"
      by (simp_all add: PlaneOfPts_r_def Let_def u_def [symmetric] v_def [symmetric] c l da
          crx_def [symmetric] n_def [symmetric] odd [symmetric])
    then have "DistanceToPlane_r R p (PlaneOfPts_r R a c b) =
          flt R (- (dot3_r R (Vec3 (flt R (vx crx / n)) (flt R (vy crx / n)) (flt R (vz crx / n))) p
                    - flt R (dot3_r R crx a / n)))"
      and "DistanceToPlane_r R p (PlaneOfPts_r R a b c) =
          flt R (dot3_r R (Vec3 (flt R (vx crx / n)) (flt R (vy crx / n)) (flt R (vz crx / n))) p
                    - flt R (dot3_r R crx a / n))"
      using d [of "flt R (vx crx / n)" "flt R (vy crx / n)" "flt R (vz crx / n)" p]
      by (simp_all add: DistanceToPlane_r_def)
    then show ?thesis
      by (simp only: odd)
  qed
qed

lemma NonCollinearTriple_bounds_r:
  assumes "NonCollinearTriple_r R pts precision = Inr trip" and "0 \<le> tx trip"
  shows "tx trip = 0 \<and> 1 \<le> ty trip \<and> ty trip < int (length pts) \<and>
         0 \<le> tz trip \<and> tz trip < int (length pts)"
proof -
  from assms(1) have len: "2 \<le> length pts"
    by (auto simp: NonCollinearTriple_r_def Let_def split: if_splits)
  define fd where "fd = foldl (furthest_step_r R pts) (1, distance3_r R (pts ! 0) (pts ! 1)) [2..<length pts]"
  define th where "th = fst (foldl (third_step_r R pts (div3_r R (sub3_r R (pts ! 0) (pts ! nat (fst fd))) (snd fd)))
      (- 1, dbl R (snd fd * precision)) [1..<length pts])"
  have f: "1 \<le> fst fd \<and> fst fd < int (length pts)"
    unfolding fd_def
  proof (rule foldl_inv [where P = "\<lambda>s. 1 \<le> fst s \<and> fst s < int (length pts)"])
    show "1 \<le> fst (1::int, distance3_r R (pts ! 0) (pts ! 1)) \<and>
        fst (1::int, distance3_r R (pts ! 0) (pts ! 1)) < int (length pts)"
      using len by simp
  next
    fix i and s :: "int \<times> real"
    assume "i \<in> set [2..<length pts]" and "1 \<le> fst s \<and> fst s < int (length pts)"
    then show "1 \<le> fst (furthest_step_r R pts s i) \<and> fst (furthest_step_r R pts s i) < int (length pts)"
      by (auto simp: furthest_step_r_def Let_def)
  qed
  have t: "th = - 1 \<or> (1 \<le> th \<and> th < int (length pts))"
    unfolding th_def
  proof (rule foldl_inv [where P = "\<lambda>s. fst s = - 1 \<or> (1 \<le> fst s \<and> fst s < int (length pts))"])
    show "fst (- 1 :: int, dbl R (snd fd * precision)) = - 1 \<or>
        (1 \<le> fst (- 1 :: int, dbl R (snd fd * precision)) \<and>
         fst (- 1 :: int, dbl R (snd fd * precision)) < int (length pts))"
      by simp
  next
    fix i and s :: "int \<times> real"
    assume "i \<in> set [1..<length pts]" and "fst s = - 1 \<or> (1 \<le> fst s \<and> fst s < int (length pts))"
    then show "fst (third_step_r R pts (div3_r R (sub3_r R (pts ! 0) (pts ! nat (fst fd))) (snd fd)) s i) = - 1 \<or>
        (1 \<le> fst (third_step_r R pts (div3_r R (sub3_r R (pts ! 0) (pts ! nat (fst fd))) (snd fd)) s i) \<and>
         fst (third_step_r R pts (div3_r R (sub3_r R (pts ! 0) (pts ! nat (fst fd))) (snd fd)) s i) < int (length pts))"
      by (auto simp: third_step_r_def Let_def)
  qed
  have eq: "NonCollinearTriple_r R pts precision =
      (if snd fd \<le> precision then Inr (IVec3 (- 1) (- 1) (- 1))
       else if th < 0 then Inr (IVec3 (- 1) (- 1) (- 1)) else Inr (IVec3 0 (fst fd) th))"
    using len by (simp add: NonCollinearTriple_r_def Let_def fd_def th_def)
  from assms eq have "\<not> th < 0" and "trip = IVec3 0 (fst fd) th"
    by (auto split: if_splits)
  with f t show ?thesis by auto
qed

subsection \<open>The seed tetrahedron\<close>

lemma NonCoplanar_from_found_r:
  assumes "NonCoplanar_from_r R k ps plane precision = (d, isAbove)" and "0 \<le> d"
  shows "int k \<le> d \<and> d < int (k + length ps) \<and>
         precision < \<bar>DistanceToPlane_r R (ps ! (nat d - k)) plane\<bar> \<and>
         isAbove = (precision < DistanceToPlane_r R (ps ! (nat d - k)) plane)"
  using assms
proof (induction ps arbitrary: k)
  case Nil
  then show ?case by simp
next
  case (Cons p ps)
  show ?case
  proof (cases "precision < \<bar>DistanceToPlane_r R p plane\<bar>")
    case True
    with Cons.prems show ?thesis by (auto simp: Let_def)
  next
    case False
    with Cons.prems have r: "NonCoplanar_from_r R (Suc k) ps plane precision = (d, isAbove)"
      by (simp add: Let_def)
    from Cons.IH [OF r Cons.prems(2)] have
      k: "int (Suc k) \<le> d" "d < int (Suc k + length ps)"
      and f: "precision < \<bar>DistanceToPlane_r R (ps ! (nat d - Suc k)) plane\<bar>"
        "isAbove = (precision < DistanceToPlane_r R (ps ! (nat d - Suc k)) plane)"
      by simp_all
    from k have "nat d - k = Suc (nat d - Suc k)" by linarith
    with k f show ?thesis by simp
  qed
qed

lemma NonCoplanar_found_r:
  assumes "NonCoplanar_r R pts plane precision = (d, isAbove)" and "0 \<le> d"
  shows "d < int (length pts) \<and>
         precision < \<bar>DistanceToPlane_r R (pts ! nat d) plane\<bar> \<and>
         isAbove = (precision < DistanceToPlane_r R (pts ! nat d) plane)"
  using NonCoplanar_from_found_r [of R 0 pts plane precision d isAbove] assms
  by (simp add: NonCoplanar_r_def)

lemma Hull_seed_Some_r:
  assumes "Hull_seed_r R pts precision = Inr (Some (a, b, c, d))"
  obtains trip isAbove where "4 \<le> length pts"
    and "NonCollinearTriple_r R pts precision = Inr trip"
    and "0 \<le> tx trip" "tx trip < int (length pts)"
    and "0 \<le> ty trip" "ty trip < int (length pts)"
    and "0 \<le> tz trip" "tz trip < int (length pts)"
    and "NonCoplanar_r R pts (PlaneOfPts_r R (pts ! nat (tx trip)) (pts ! nat (ty trip)) (pts ! nat (tz trip)))
           precision = (d, isAbove)"
    and "0 \<le> d" and "a = tx trip"
    and "b = (if isAbove then tz trip else ty trip)"
    and "c = (if isAbove then ty trip else tz trip)"
proof -
  from assms have len: "4 \<le> length pts"
    by (auto simp: Hull_seed_r_def split: if_splits)
  with assms have "\<exists>trip. NonCollinearTriple_r R pts precision = Inr trip \<and>
      0 \<le> tx trip \<and> tx trip < int (length pts) \<and>
      0 \<le> ty trip \<and> ty trip < int (length pts) \<and>
      0 \<le> tz trip \<and> tz trip < int (length pts) \<and>
      \<not> fst (NonCoplanar_r R pts (PlaneOfPts_r R (pts ! nat (tx trip)) (pts ! nat (ty trip)) (pts ! nat (tz trip))) precision) < 0 \<and>
      a = tx trip \<and>
      d = fst (NonCoplanar_r R pts (PlaneOfPts_r R (pts ! nat (tx trip)) (pts ! nat (ty trip)) (pts ! nat (tz trip))) precision) \<and>
      b = (if snd (NonCoplanar_r R pts (PlaneOfPts_r R (pts ! nat (tx trip)) (pts ! nat (ty trip)) (pts ! nat (tz trip))) precision)
           then tz trip else ty trip) \<and>
      c = (if snd (NonCoplanar_r R pts (PlaneOfPts_r R (pts ! nat (tx trip)) (pts ! nat (ty trip)) (pts ! nat (tz trip))) precision)
           then ty trip else tz trip)"
    by (auto simp: Hull_seed_r_def bindE_eq_Inr nth_int_eq_Inr Let_def split: if_splits)
  then obtain trip where t: "NonCollinearTriple_r R pts precision = Inr trip"
      "0 \<le> tx trip" "tx trip < int (length pts)"
      "0 \<le> ty trip" "ty trip < int (length pts)"
      "0 \<le> tz trip" "tz trip < int (length pts)"
      "\<not> fst (NonCoplanar_r R pts (PlaneOfPts_r R (pts ! nat (tx trip)) (pts ! nat (ty trip)) (pts ! nat (tz trip))) precision) < 0"
      "a = tx trip"
      "d = fst (NonCoplanar_r R pts (PlaneOfPts_r R (pts ! nat (tx trip)) (pts ! nat (ty trip)) (pts ! nat (tz trip))) precision)"
      "b = (if snd (NonCoplanar_r R pts (PlaneOfPts_r R (pts ! nat (tx trip)) (pts ! nat (ty trip)) (pts ! nat (tz trip))) precision)
           then tz trip else ty trip)"
      "c = (if snd (NonCoplanar_r R pts (PlaneOfPts_r R (pts ! nat (tx trip)) (pts ! nat (ty trip)) (pts ! nat (tz trip))) precision)
           then ty trip else tz trip)"
    by blast
  show ?thesis
    by (rule that [of trip "snd (NonCoplanar_r R pts (PlaneOfPts_r R (pts ! nat (tx trip)) (pts ! nat (ty trip)) (pts ! nat (tz trip))) precision)"])
       (use len t in simp_all)
qed

lemma seed_swap_in_front_r:
  assumes odd: "\<And>x. flt R (- x) = - flt R x"
    and seed: "Hull_seed_r R pts precision = Inr (Some (a, b, c, d))"
  shows "\<exists>trip. NonCollinearTriple_r R pts precision = Inr trip \<and> a = tx trip \<and>
           0 \<le> d \<and> d < int (length pts) \<and>
           (if precision < DistanceToPlane_r R (pts ! nat d)
                 (PlaneOfPts_r R (pts ! nat (tx trip)) (pts ! nat (ty trip)) (pts ! nat (tz trip)))
            then b = tz trip \<and> c = ty trip
            else DistanceToPlane_r R (pts ! nat d)
                   (PlaneOfPts_r R (pts ! nat (tx trip)) (pts ! nat (ty trip)) (pts ! nat (tz trip)))
                   < - precision \<and> b = ty trip \<and> c = tz trip) \<and>
           DistanceToPlane_r R (pts ! nat d) (PlaneOfPts_r R (pts ! nat a) (pts ! nat b) (pts ! nat c))
             < - precision"
proof -
  from seed obtain trip isAbove where trip: "NonCollinearTriple_r R pts precision = Inr trip"
    and ncp: "NonCoplanar_r R pts (PlaneOfPts_r R (pts ! nat (tx trip)) (pts ! nat (ty trip)) (pts ! nat (tz trip)))
           precision = (d, isAbove)"
    and d: "0 \<le> d" and a: "a = tx trip"
    and b: "b = (if isAbove then tz trip else ty trip)"
    and c: "c = (if isAbove then ty trip else tz trip)"
    by (rule Hull_seed_Some_r)
  define dist where "dist = DistanceToPlane_r R (pts ! nat d)
     (PlaneOfPts_r R (pts ! nat (tx trip)) (pts ! nat (ty trip)) (pts ! nat (tz trip)))"
  from NonCoplanar_found_r [OF ncp d] have dl: "d < int (length pts)"
    and far: "precision < \<bar>dist\<bar>" and ab: "isAbove = (precision < dist)"
    by (simp_all add: dist_def)
  have sw: "DistanceToPlane_r R (pts ! nat d)
     (PlaneOfPts_r R (pts ! nat (tx trip)) (pts ! nat (tz trip)) (pts ! nat (ty trip))) = - dist"
    unfolding dist_def using odd by (rule DistanceToPlane_swap_r)
  have behind: "dist < - precision" if "\<not> precision < dist"
    using that far by linarith
  have final: "DistanceToPlane_r R (pts ! nat d) (PlaneOfPts_r R (pts ! nat a) (pts ! nat b) (pts ! nat c))
      < - precision"
  proof (cases isAbove)
    case True
    with ab a b c sw show ?thesis by simp
  next
    case False
    with ab a b c behind show ?thesis by (simp add: dist_def)
  qed
  show ?thesis
    using trip a d dl ab b c behind final
    by (intro exI [of _ trip]) (simp add: dist_def [symmetric])
qed

subsection \<open>The conflict scan and the horizon\<close>

lemma horizon_loop_eq_r:
  assumes "distinct rest"
    and "\<forall>v\<in>set visited. rev_edge v \<notin> set visited \<and> rev_edge v \<notin> set rest"
    and "horizon_loop_r R pts i visited rest ft = Inr ft'"
  shows "foldE (add_face_r R pts i) (filter (\<lambda>e. rev_edge e \<notin> set rest) rest) ft = Inr ft'"
  using assms
proof (induction R pts i visited rest ft rule: horizon_loop_r.induct)
  case (1 R pts i visited ft)
  then show ?case by simp
next
  case (2 R pts i visited e rest ft)
  define r where "r = IVec2 (ey e) (ex e)"
  have rr: "r = rev_edge e" by (simp add: r_def rev_edge_def)
  from "2.prems"(3) have ne: "r \<noteq> e"
    by (auto simp: r_def Let_def split: if_splits)
  from "2.prems"(1) have e_rest: "e \<notin> set rest" and d: "distinct rest" by simp_all
  have r_vis: "r \<notin> set visited"
  proof
    assume "r \<in> set visited"
    with "2.prems"(2) have "rev_edge r \<notin> set (e # rest)" by blast
    then show False by (simp add: rr)
  qed
  have vis_e: "rev_edge v \<noteq> e" if "v \<in> set visited" for v
    using that "2.prems"(2) by auto
  show ?case
  proof (cases "r \<in> set rest")
    case True
    with "2.prems"(3) ne r_vis have run:
      "horizon_loop_r R pts i (visited @ [e]) (removeAll r rest) ft = Inr ft'"
      by (simp add: r_def [symmetric] Let_def)
    have inv: "\<forall>v\<in>set (removeAll r visited @ [e]).
        rev_edge v \<notin> set (removeAll r visited @ [e]) \<and> rev_edge v \<notin> set (removeAll r rest)"
      using "2.prems"(2) r_vis ne vis_e by (auto simp: rr)
    have "foldE (add_face_r R pts i) (filter (\<lambda>x. rev_edge x \<notin> set (removeAll r rest)) (removeAll r rest)) ft = Inr ft'"
      using "2.IH"(1) [OF r_def ne _ _ inv] True d run r_vis
      by (simp add: distinct_removeAll)
    moreover have "filter (\<lambda>x. rev_edge x \<notin> set (e # rest)) (e # rest) =
        filter (\<lambda>x. rev_edge x \<notin> set (removeAll r rest)) (removeAll r rest)"
    proof -
      have "filter (\<lambda>x. rev_edge x \<notin> set (e # rest)) rest =
            filter (\<lambda>x. rev_edge x \<notin> set (removeAll r rest)) (removeAll r rest)"
        unfolding removeAll_filter_not_eq filter_filter
      proof (rule filter_cong [OF refl])
        fix x assume x: "x \<in> set rest"
        have "x \<noteq> e" using x e_rest by auto
        then have "rev_edge x \<noteq> r" by (auto simp: rr rev_edge_def ivec2.expand)
        show "(rev_edge x \<notin> set (e # rest)) =
              (r \<noteq> x \<and> rev_edge x \<notin> set (filter (\<lambda>y. r \<noteq> y) rest))"
        proof (cases "x = r")
          case True
          then show ?thesis by (simp add: rr)
        next
          case False
          have "rev_edge x \<noteq> e" using False by (auto simp: rr rev_edge_eq_iff)
          with False \<open>rev_edge x \<noteq> r\<close> show ?thesis by auto
        qed
      qed
      with True show ?thesis by (simp add: rr [symmetric])
    qed
    ultimately show ?thesis by simp
  next
    case False
    with "2.prems"(3) ne r_vis obtain f1 where f1: "AddTri_r R pts (ex e) (ey e) i ft = Inr f1"
      and run: "horizon_loop_r R pts i (visited @ [e]) rest f1 = Inr ft'"
      by (auto simp: r_def [symmetric] Let_def bindE_eq_Inr)
    have inv: "\<forall>v\<in>set (visited @ [e]). rev_edge v \<notin> set (visited @ [e]) \<and> rev_edge v \<notin> set rest"
      using "2.prems"(2) r_vis ne vis_e False by (auto simp: rr [symmetric])
    have "foldE (add_face_r R pts i) (filter (\<lambda>x. rev_edge x \<notin> set rest) rest) f1 = Inr ft'"
      using "2.IH"(2) [OF r_def ne _ d inv run] False r_vis by simp
    moreover have "filter (\<lambda>x. rev_edge x \<notin> set (e # rest)) rest =
        filter (\<lambda>x. rev_edge x \<notin> set rest) rest"
    proof (rule filter_cong [OF refl])
      fix x assume x: "x \<in> set rest"
      have "rev_edge x \<noteq> e"
      proof
        assume "rev_edge x = e"
        then have "x = r" by (simp add: rr rev_edge_eq_iff)
        with x False show False by simp
      qed
      then show "(rev_edge x \<notin> set (e # rest)) = (rev_edge x \<notin> set rest)" by simp
    qed
    moreover have "add_face_r R pts i ft e = Inr f1"
      using f1 by (simp add: add_face_r_def)
    ultimately show ?thesis
      using False ne by (simp add: rr [symmetric])
  qed
qed

lemma scanned_0_r: "scanned_r R pts precision i ft 0 (ft, [])"
  by (simp add: scanned_r_def map_nth)

lemma scanned_step_r:
  assumes I: "scanned_r R pts precision i ft m st" and step: "scan_step_r R pts precision i st m = Inr st'"
  shows "scanned_r R pts precision i ft (Suc m) st'"
proof -
  obtain ft1 hs where st: "st = (ft1, hs)" by (cases st)
  obtain ft2 hs2 where st': "st' = (ft2, hs2)" by (cases st')
  note r = scan_step_Inr_r [OF step [unfolded st st']]
  from I have tri: "triangles ft1 = triangles ft" and pl: "planes ft1 = planes ft"
    and len: "length (kept ft1) = length (kept ft)"
    and k: "kept ft1 = map (\<lambda>j. if j < m then kept ft ! j \<and> \<not> in_conflict_r R pts precision i ft j else kept ft ! j)
         [0..<length (kept ft)]"
    and dr: "dropped ft1 = dropped ft @ filter (in_conflict_r R pts precision i ft) [0..<m]"
    and hs: "set hs = (\<Union>j\<in>{j. j < m \<and> in_conflict_r R pts precision i ft j}. set (tri_edges (triangles ft ! j)))"
    and dist: "distinct hs"
    by (simp_all add: scanned_r_def st)
  from r have m: "m < length (kept ft)" using len by simp
  have km: "kept ft1 ! m = kept ft ! m"
    using m by (simp add: k)
  have c: "(kept ft1 ! m \<and> precision < DistanceToPlane_r R (pts ! i) (planes ft1 ! m)) =
        in_conflict_r R pts precision i ft m"
    by (simp add: km pl in_conflict_r_def)
  have split: "{j. j < Suc m \<and> in_conflict_r R pts precision i ft j} =
      {j. j < m \<and> in_conflict_r R pts precision i ft j} \<union> (if in_conflict_r R pts precision i ft m then {m} else {})"
    by (auto simp: less_Suc_eq)
  show ?thesis
  proof (cases "in_conflict_r R pts precision i ft m")
    case False
    with r c have e: "ft2 = ft1" "hs2 = hs" by simp_all
    have "kept ft1 = map (\<lambda>j. if j < Suc m then kept ft ! j \<and> \<not> in_conflict_r R pts precision i ft j else kept ft ! j)
         [0..<length (kept ft)]"
      unfolding k using False by (auto simp: less_Suc_eq in_conflict_r_def)
    with False tri pl len dr hs dist show ?thesis
      unfolding scanned_r_def st' e split by simp
  next
    case True
    with r c have ft2: "ft2 = ft1\<lparr>dropped := dropped ft1 @ [m], kept := (kept ft1)[m := False]\<rparr>"
      and hs2: "hs2 = insert_edge (IVec2 (ty (triangles ft1 ! m)) (tx (triangles ft1 ! m)))
                       (insert_edge (IVec2 (tz (triangles ft1 ! m)) (ty (triangles ft1 ! m)))
                         (insert_edge (IVec2 (tx (triangles ft1 ! m)) (tz (triangles ft1 ! m))) hs))"
      by simp_all
    have k2: "(kept ft1)[m := False] =
        map (\<lambda>j. if j < Suc m then kept ft ! j \<and> \<not> in_conflict_r R pts precision i ft j else kept ft ! j)
         [0..<length (kept ft)]"
    proof (rule nth_equalityI)
      show "length ((kept ft1)[m := False]) =
          length (map (\<lambda>j. if j < Suc m then kept ft ! j \<and> \<not> in_conflict_r R pts precision i ft j else kept ft ! j)
           [0..<length (kept ft)])"
        by (simp add: len)
    next
      fix j assume "j < length ((kept ft1)[m := False])"
      then have j: "j < length (kept ft)" by (simp add: len)
      then have old: "kept ft1 ! j = (if j < m then kept ft ! j \<and> \<not> in_conflict_r R pts precision i ft j else kept ft ! j)"
        by (simp add: k)
      show "(kept ft1)[m := False] ! j =
          map (\<lambda>j. if j < Suc m then kept ft ! j \<and> \<not> in_conflict_r R pts precision i ft j else kept ft ! j)
           [0..<length (kept ft)] ! j"
      proof (cases "j = m")
        case True
        with \<open>in_conflict_r R pts precision i ft m\<close> m len show ?thesis by simp
      next
        case False
        with j len old show ?thesis by (auto simp: less_Suc_eq)
      qed
    qed
    have s2: "set hs2 = set hs \<union> set (tri_edges (triangles ft ! m))"
      by (auto simp: hs2 tri tri_edges_def)
    have s3: "set hs2 = (\<Union>j\<in>{j. j < Suc m \<and> in_conflict_r R pts precision i ft j}.
        set (tri_edges (triangles ft ! j)))"
      unfolding split s2 hs using True by auto
    have d2: "distinct hs2" using dist by (simp add: hs2)
    have dr2: "dropped ft2 = dropped ft @ filter (in_conflict_r R pts precision i ft) [0..<Suc m]"
      using True by (simp add: ft2 dr)
    have k3: "kept ft2 = map (\<lambda>j. if j < Suc m then kept ft ! j \<and> \<not> in_conflict_r R pts precision i ft j else kept ft ! j)
         [0..<length (kept ft)]"
      using k2 by (simp add: ft2)
    have "triangles ft2 = triangles ft" "planes ft2 = planes ft" "length (kept ft2) = length (kept ft)"
      using tri pl len by (simp_all add: ft2)
    with k3 dr2 s3 d2 show ?thesis
      unfolding scanned_r_def st' fst_conv snd_conv by blast
  qed
qed

lemma scan_loop_scanned_r:
  assumes "foldE (scan_step_r R pts precision i) [0..<m] (ft, []) = Inr st"
  shows "scanned_r R pts precision i ft m st"
  by (rule foldE_upt_inv [OF assms, where I = "scanned_r R pts precision i ft"])
     (auto intro: scanned_0_r scanned_step_r)

lemma process_point_Inr_r:
  assumes "process_point_r R ord pts precision i ft = Inr ft'"
  obtains ft1 hs where
    "foldE (scan_step_r R pts precision i) [0..<length (triangles ft)] (ft, []) = Inr (ft1, hs)"
    and "scanned_r R pts precision i ft (length (triangles ft)) (ft1, hs)"
    and "horizon_loop_r R pts (int i) [] (iter_order ord i hs) ft1 = Inr ft'"
    and "foldE (add_face_r R pts (int i))
           (filter (\<lambda>e. rev_edge e \<notin> set hs) (iter_order ord i hs)) ft1 = Inr ft'"
proof -
  from assms obtain st where st:
    "foldE (scan_step_r R pts precision i) [0..<length (triangles ft)] (ft, []) = Inr st"
    "horizon_loop_r R pts (int i) [] (iter_order ord i (snd st)) (fst st) = Inr ft'"
    by (auto simp: process_point_r_def bindE_eq_Inr)
  have sc: "scanned_r R pts precision i ft (length (triangles ft)) st"
    using st(1) by (rule scan_loop_scanned_r)
  then have "distinct (snd st)" by (simp add: scanned_r_def)
  then have "distinct (iter_order ord i (snd st))" by (simp add: iter_order_distinct)
  from horizon_loop_eq_r [OF this _ st(2)]
  have "foldE (add_face_r R pts (int i))
           (filter (\<lambda>e. rev_edge e \<notin> set (snd st)) (iter_order ord i (snd st))) (fst st) = Inr ft'"
    by (simp add: iter_order_set)
  with st sc show ?thesis
    using that [of "fst st" "snd st"] by simp
qed

lemma cancellation_in_horizon_loop_r:
  assumes "IVec2 v u \<in> set hs" and "distinct es"
    and "horizon_loop_r R pts i [] es ft = Inr ft'"
  shows "IVec2 u v \<in> set (insert_edge (IVec2 u v) hs) \<and>
         IVec2 v u \<in> set (insert_edge (IVec2 u v) hs) \<and>
         foldE (add_face_r R pts i) (filter (\<lambda>e. rev_edge e \<notin> set es) es) ft = Inr ft'"
  using assms(1) horizon_loop_eq_r [OF assms(2) _ assms(3)] by simp

lemma horizon_faces_created_r:
  assumes "process_point_r R ord pts precision i ft = Inr ft'"
  shows "\<exists>ft1 hs.
     foldE (scan_step_r R pts precision i) [0..<length (triangles ft)] (ft, []) = Inr (ft1, hs) \<and>
     set hs = (\<Union>j\<in>{j. j < length (triangles ft) \<and> in_conflict_r R pts precision i ft j}.
                 set (tri_edges (triangles ft ! j))) \<and>
     dropped ft1 = dropped ft @ filter (in_conflict_r R pts precision i ft) [0..<length (triangles ft)] \<and>
     mset (iter_order ord i hs) = mset hs \<and>
     foldE (add_face_r R pts (int i)) (filter (\<lambda>e. rev_edge e \<notin> set hs) (iter_order ord i hs)) ft1
       = Inr ft' \<and>
     (\<forall>t e t'. add_face_r R pts (int i) t e = Inr t' \<longrightarrow>
        (if dropped t \<noteq> []
         then triangles t' = (triangles t)[last (dropped t) := IVec3 (int i) (ey e) (ex e)] \<and>
              kept t' = (kept t)[last (dropped t) := True] \<and>
              dropped t' = butlast (dropped t)
         else triangles t' = triangles t @ [IVec3 (int i) (ey e) (ex e)] \<and>
              kept t' = kept t @ [True] \<and> dropped t' = []))"
proof -
  from assms obtain ft1 hs where
    scan: "foldE (scan_step_r R pts precision i) [0..<length (triangles ft)] (ft, []) = Inr (ft1, hs)"
    and sc: "scanned_r R pts precision i ft (length (triangles ft)) (ft1, hs)"
    and add: "foldE (add_face_r R pts (int i))
           (filter (\<lambda>e. rev_edge e \<notin> set hs) (iter_order ord i hs)) ft1 = Inr ft'"
    by (rule process_point_Inr_r)
  have slot: "if dropped t \<noteq> []
         then triangles t' = (triangles t)[last (dropped t) := IVec3 (int i) (ey e) (ex e)] \<and>
              kept t' = (kept t)[last (dropped t) := True] \<and>
              dropped t' = butlast (dropped t)
         else triangles t' = triangles t @ [IVec3 (int i) (ey e) (ex e)] \<and>
              kept t' = kept t @ [True] \<and> dropped t' = []"
    if "add_face_r R pts (int i) t e = Inr t'" for t e t'
    using AddTri_Inr_r [OF that [unfolded add_face_r_def]] by (cases "dropped t = []") simp_all
  from sc have "set hs = (\<Union>j\<in>{j. j < length (triangles ft) \<and> in_conflict_r R pts precision i ft j}.
                 set (tri_edges (triangles ft ! j)))"
    and "dropped ft1 = dropped ft @ filter (in_conflict_r R pts precision i ft) [0..<length (triangles ft)]"
    by (simp_all add: scanned_r_def)
  with scan add slot show ?thesis
    using iter_order_mset by blast
qed

subsection \<open>What a processed point changes\<close>

lemma extends_add_face_r:
  assumes inv: "table_inv ft" and add: "add_face_r R pts i ft e = Inr ft'" and e: "e \<in> E"
  shows "extends i E ft ft'"
proof -
  note r = AddTri_Inr_r [OF add [unfolded add_face_r_def]]
  from inv have lk: "length (kept ft) = length (triangles ft)"
    and lp: "length (planes ft) = length (triangles ft)"
    and ds: "set (dropped ft) = {j. j < length (kept ft) \<and> \<not> kept ft ! j}"
    by (simp_all add: table_inv_def)
  show ?thesis
  proof (cases "dropped ft = []")
    case True
    with r have ft': "ft' = ft\<lparr>triangles := triangles ft @ [IVec3 i (ey e) (ex e)],
        planes := planes ft @ [PlaneOfPts_r R (pts ! nat (ex e)) (pts ! nat (ey e)) (pts ! nat i)],
        kept := kept ft @ [True]\<rparr>" by simp
    show ?thesis
      unfolding extends_def ft' using e lk lp
      by (auto simp: nth_append less_Suc_eq)
  next
    case False
    define idx where "idx = last (dropped ft)"
    from False r have ft': "ft' = ft\<lparr>triangles := (triangles ft)[idx := IVec3 i (ey e) (ex e)],
        planes := (planes ft)[idx := PlaneOfPts_r R (pts ! nat (ex e)) (pts ! nat (ey e)) (pts ! nat i)],
        kept := (kept ft)[idx := True], dropped := butlast (dropped ft)\<rparr>"
      and idx: "idx < length (triangles ft)"
      by (simp_all add: idx_def)
    from False have "idx \<in> set (dropped ft)" by (simp add: idx_def)
    with ds have nk: "\<not> kept ft ! idx" by simp
    show ?thesis
      unfolding extends_def ft' using e lk lp idx nk
      by (auto simp: nth_list_update)
  qed
qed

lemma extends_fold_r:
  assumes "table_inv ft" and "foldE (add_face_r R pts i) es ft = Inr ft'" and "set es \<subseteq> E"
  shows "extends i E ft ft'"
  using assms
proof (induction es arbitrary: ft)
  case Nil
  then show ?case by (simp add: extends_refl)
next
  case (Cons e es)
  from Cons.prems(2) obtain f1 where f1: "add_face_r R pts i ft e = Inr f1"
    and rest: "foldE (add_face_r R pts i) es f1 = Inr ft'"
    by (auto simp: bindE_eq_Inr)
  have i1: "table_inv f1"
    using Cons.prems(1) f1 by (auto simp: add_face_r_def intro: table_inv_AddTri_r)
  have "extends i E ft f1"
    using extends_add_face_r [OF Cons.prems(1) f1] Cons.prems(3) by simp
  moreover have "extends i E f1 ft'"
    using Cons.IH [OF i1 rest] Cons.prems(3) by simp
  ultimately show ?case by (rule extends_trans)
qed

lemma table_inv_scan_loop_r:
  assumes "table_inv ft" and "foldE (scan_step_r R pts precision i) js (ft, hs) = Inr st"
  shows "table_inv (fst st)"
proof (rule foldE_inv [OF assms(2), where P = "\<lambda>st. table_inv (fst st)"])
  show "table_inv (fst (ft, hs))" using assms(1) by simp
next
  fix j and s s' :: "face_table \<times> ivec2 list"
  assume "table_inv (fst s)" and "scan_step_r R pts precision i s j = Inr s'"
  then show "table_inv (fst s')"
    using table_inv_scan_step_r [of "fst s" R pts precision i "snd s" j "fst s'" "snd s'"] by simp
qed

lemma process_point_slot_r:
  assumes inv: "table_inv ft" and run: "process_point_r R ord pts precision i ft = Inr ft'"
    and j: "j < length (triangles ft')"
  shows "(j < length (triangles ft) \<and> triangles ft' ! j = triangles ft ! j \<and>
          planes ft' ! j = planes ft ! j \<and>
          (kept ft' ! j \<longrightarrow> kept ft ! j \<and> \<not> in_conflict_r R pts precision i ft j)) \<or>
         (\<exists>k<length (triangles ft). \<exists>e\<in>set (tri_edges (triangles ft ! k)).
            triangles ft' ! j = IVec3 (int i) (ey e) (ex e))"
proof -
  from run obtain ft1 hs where
    scan: "foldE (scan_step_r R pts precision i) [0..<length (triangles ft)] (ft, []) = Inr (ft1, hs)"
    and sc: "scanned_r R pts precision i ft (length (triangles ft)) (ft1, hs)"
    and add: "foldE (add_face_r R pts (int i))
           (filter (\<lambda>e. rev_edge e \<notin> set hs) (iter_order ord i hs)) ft1 = Inr ft'"
    by (rule process_point_Inr_r)
  have inv1: "table_inv ft1"
    using table_inv_scan_loop_r [OF inv scan] by simp
  have "extends (int i) (set hs) ft1 ft'"
    by (rule extends_fold_r [OF inv1 add]) (auto simp: iter_order_set)
  with j consider
    (same) "j < length (triangles ft1)" "triangles ft' ! j = triangles ft1 ! j"
      "planes ft' ! j = planes ft1 ! j" "kept ft' ! j = kept ft1 ! j"
  | (new) "\<exists>e\<in>set hs. triangles ft' ! j = IVec3 (int i) (ey e) (ex e)"
    unfolding extends_def by blast
  then show ?thesis
  proof cases
    case same
    from inv have lk: "length (kept ft) = length (triangles ft)" by (simp add: table_inv_def)
    from sc have tri: "triangles ft1 = triangles ft" and pl: "planes ft1 = planes ft"
      and k: "kept ft1 = map (\<lambda>j. if j < length (triangles ft)
                 then kept ft ! j \<and> \<not> in_conflict_r R pts precision i ft j else kept ft ! j)
               [0..<length (kept ft)]"
      by (simp_all add: scanned_r_def)
    from same(1) tri lk have "kept ft1 ! j = (kept ft ! j \<and> \<not> in_conflict_r R pts precision i ft j)"
      by (simp add: k)
    with same tri pl show ?thesis by simp
  next
    case new
    from sc have "set hs = (\<Union>j\<in>{j. j < length (triangles ft) \<and> in_conflict_r R pts precision i ft j}.
        set (tri_edges (triangles ft ! j)))"
      by (simp add: scanned_r_def)
    with new show ?thesis by blast
  qed
qed

lemma seed_table_Inr_r:
  assumes "seed_table_r R pts (a, b, c, d) = Inr f4"
  shows "triangles f4 = [IVec3 c b a, IVec3 a b d, IVec3 a d c, IVec3 c d b] \<and>
         planes f4 = [PlaneOfPts_r R (pts ! nat a) (pts ! nat b) (pts ! nat c),
                      PlaneOfPts_r R (pts ! nat d) (pts ! nat b) (pts ! nat a),
                      PlaneOfPts_r R (pts ! nat c) (pts ! nat d) (pts ! nat a),
                      PlaneOfPts_r R (pts ! nat b) (pts ! nat d) (pts ! nat c)] \<and>
         kept f4 = [True, True, True, True] \<and> dropped f4 = []"
proof -
  from assms obtain f1 f2 f3 where
    f: "AddTri_r R pts a b c empty_table = Inr f1" "AddTri_r R pts d b a f1 = Inr f2"
    "AddTri_r R pts c d a f2 = Inr f3" "AddTri_r R pts b d c f3 = Inr f4"
    by (auto simp: seed_table_r_def bindE_eq_Inr)
  from AddTri_Inr_r [OF f(1)] have 1: "f1 = empty_table\<lparr>triangles := [IVec3 c b a],
      planes := [PlaneOfPts_r R (pts ! nat a) (pts ! nat b) (pts ! nat c)], kept := [True]\<rparr>"
    by (simp add: empty_table_def)
  from AddTri_Inr_r [OF f(2)] have 2: "f2 = f1\<lparr>triangles := triangles f1 @ [IVec3 a b d],
      planes := planes f1 @ [PlaneOfPts_r R (pts ! nat d) (pts ! nat b) (pts ! nat a)],
      kept := kept f1 @ [True]\<rparr>"
    by (simp add: 1 empty_table_def)
  from AddTri_Inr_r [OF f(3)] have 3: "f3 = f2\<lparr>triangles := triangles f2 @ [IVec3 a d c],
      planes := planes f2 @ [PlaneOfPts_r R (pts ! nat c) (pts ! nat d) (pts ! nat a)],
      kept := kept f2 @ [True]\<rparr>"
    by (simp add: 1 2 empty_table_def)
  from AddTri_Inr_r [OF f(4)] have 4: "f4 = f3\<lparr>triangles := triangles f3 @ [IVec3 c d b],
      planes := planes f3 @ [PlaneOfPts_r R (pts ! nat b) (pts ! nat d) (pts ! nat c)],
      kept := kept f3 @ [True]\<rparr>"
    by (simp add: 1 2 3 empty_table_def)
  show ?thesis
    by (simp add: 1 2 3 4 empty_table_def)
qed

subsection \<open>Vertex indices\<close>

lemma point_step_tri_ok_r:
  assumes reach: "table_reach_r R pts precision ft"
    and ok: "\<forall>t\<in>set (triangles ft). tri_ok {a, b, c, d} m t"
    and step: "point_step_r R ord pts precision (a, b, c, d) ft m = Inr ft'"
  shows "table_reach_r R pts precision ft' \<and> (\<forall>t\<in>set (triangles ft'). tri_ok {a, b, c, d} (Suc m) t)"
proof (cases "int m \<in> {a, b, c, d}")
  case True
  with step have "ft' = ft" by (auto simp: point_step_r_def)
  with reach ok show ?thesis by (auto intro: tri_ok_Suc)
next
  case False
  with step have run: "process_point_r R ord pts precision m ft = Inr ft'"
    by (auto simp: point_step_r_def)
  have r': "table_reach_r R pts precision ft'"
    using reach run by (rule table_reach_process_point_r)
  have inv: "table_inv ft" using reach by (rule table_reach_inv_r)
  have "tri_ok {a, b, c, d} (Suc m) (triangles ft' ! j)" if j: "j < length (triangles ft')" for j
  proof -
    from process_point_slot_r [OF inv run j] consider
      (same) "j < length (triangles ft)" "triangles ft' ! j = triangles ft ! j"
    | (new) k e where "k < length (triangles ft)" "e \<in> set (tri_edges (triangles ft ! k))"
        "triangles ft' ! j = IVec3 (int m) (ey e) (ex e)"
      by blast
    then show ?thesis
    proof cases
      case same
      with ok show ?thesis by (auto intro: tri_ok_Suc)
    next
      case new
      from new(1) ok have "tri_ok {a, b, c, d} m (triangles ft ! k)" by simp
      from tri_ok_new [OF this new(2) False] new(3) show ?thesis by simp
    qed
  qed
  with r' show ?thesis by (auto simp: in_set_conv_nth)
qed

lemma point_loop_tri_ok_r:
  assumes "table_reach_r R pts precision f4"
    and "\<forall>t\<in>set (triangles f4). tri_ok {a, b, c, d} 0 t"
    and "foldE (point_step_r R ord pts precision (a, b, c, d)) [0..<n] f4 = Inr ft"
  shows "\<forall>t\<in>set (triangles ft). tri_ok {a, b, c, d} n t"
proof -
  have "table_reach_r R pts precision ft \<and> (\<forall>t\<in>set (triangles ft). tri_ok {a, b, c, d} n t)"
  proof (rule foldE_upt_inv [OF assms(3), where
        I = "\<lambda>m ft. table_reach_r R pts precision ft \<and> (\<forall>t\<in>set (triangles ft). tri_ok {a, b, c, d} m t)"])
    show "table_reach_r R pts precision f4 \<and> (\<forall>t\<in>set (triangles f4). tri_ok {a, b, c, d} 0 t)"
      using assms(1,2) by simp
  next
    fix m ft ft'
    assume "table_reach_r R pts precision ft \<and> (\<forall>t\<in>set (triangles ft). tri_ok {a, b, c, d} m t)"
      and "point_step_r R ord pts precision (a, b, c, d) ft m = Inr ft'"
    then show "table_reach_r R pts precision ft' \<and> (\<forall>t\<in>set (triangles ft'). tri_ok {a, b, c, d} (Suc m) t)"
      using point_step_tri_ok_r by blast
  qed
  then show ?thesis by simp
qed

subsection \<open>Output triangles\<close>

lemma Hull_nonempty_table_r:
  assumes "Hull_r R ord pts precision = Inr out" and "t \<in> set out"
  obtains ft where "Hull_table_r R ord pts precision = Inr (Some ft)"
proof -
  from assms(1) obtain r where r: "Hull_table_r R ord pts precision = Inr r"
    and c: "(case r of None \<Rightarrow> Inr [] | Some ft \<Rightarrow> compact ft) = Inr out"
    by (auto simp: Hull_r_def bindE_eq_Inr)
  from c assms(2) have "r \<noteq> None" by (cases r) auto
  with r that show ?thesis by auto
qed

lemma point_step_scanned_behind_r:
  assumes reach: "table_reach_r R pts precision ft"
    and beh: "scanned_behind_r R pts precision {a, b, c, d} m ft"
    and step: "point_step_r R ord pts precision (a, b, c, d) ft m = Inr ft'"
  shows "scanned_behind_r R pts precision {a, b, c, d} (Suc m) ft'"
proof (cases "int m \<in> {a, b, c, d}")
  case True
  with step have "ft' = ft" by (auto simp: point_step_r_def)
  with beh True show ?thesis
    by (auto simp: scanned_behind_r_def less_Suc_eq)
next
  case False
  with step have run: "process_point_r R ord pts precision m ft = Inr ft'"
    by (auto simp: point_step_r_def)
  have inv: "table_inv ft" using reach by (rule table_reach_inv_r)
  show ?thesis
    unfolding scanned_behind_r_def
  proof (intro allI impI)
    fix j i
    assume j: "j < length (triangles ft')" and k: "kept ft' ! j" and i: "i < Suc m"
      and ns: "int i \<notin> {a, b, c, d}"
      and after: "tx (triangles ft' ! j) \<in> {a, b, c, d} \<or> tx (triangles ft' ! j) < int i"
    from process_point_slot_r [OF inv run j] consider
      (same) "j < length (triangles ft)" "triangles ft' ! j = triangles ft ! j"
        "planes ft' ! j = planes ft ! j" "kept ft' ! j \<longrightarrow> kept ft ! j \<and> \<not> in_conflict_r R pts precision m ft j"
    | (new) e where "triangles ft' ! j = IVec3 (int m) (ey e) (ex e)"
      by blast
    then show "DistanceToPlane_r R (pts ! i) (planes ft' ! j) \<le> precision"
    proof cases
      case same
      with k have kj: "kept ft ! j" and nc: "\<not> in_conflict_r R pts precision m ft j" by simp_all
      show ?thesis
      proof (cases "i = m")
        case True
        with kj nc same(3) show ?thesis by (simp add: in_conflict_r_def)
      next
        case no: False
        with i have im: "i < m" by simp
        have "DistanceToPlane_r R (pts ! i) (planes ft ! j) \<le> precision"
          using beh same(1) kj im ns after [unfolded same(2)]
          unfolding scanned_behind_r_def by blast
        then show ?thesis by (simp add: same(3))
      qed
    next
      case new
      with after i False show ?thesis by auto
    qed
  qed
qed

lemma table_reach_point_step_r:
  assumes "table_reach_r R pts precision ft" and "point_step_r R ord pts precision seed ft m = Inr ft'"
  shows "table_reach_r R pts precision ft'"
  using assms
  by (cases seed) (auto simp: point_step_r_def split: if_splits intro: table_reach_process_point_r)

lemma point_loop_scanned_behind_r:
  assumes "table_reach_r R pts precision f4"
    and "foldE (point_step_r R ord pts precision (a, b, c, d)) [0..<n] f4 = Inr ft"
  shows "scanned_behind_r R pts precision {a, b, c, d} n ft"
proof -
  have "table_reach_r R pts precision ft \<and> scanned_behind_r R pts precision {a, b, c, d} n ft"
  proof (rule foldE_upt_inv [OF assms(2), where
        I = "\<lambda>m ft. table_reach_r R pts precision ft \<and> scanned_behind_r R pts precision {a, b, c, d} m ft"])
    show "table_reach_r R pts precision f4 \<and> scanned_behind_r R pts precision {a, b, c, d} 0 f4"
      using assms(1) by (simp add: scanned_behind_r_def)
  next
    fix m ft ft'
    assume "table_reach_r R pts precision ft \<and> scanned_behind_r R pts precision {a, b, c, d} m ft"
      and "point_step_r R ord pts precision (a, b, c, d) ft m = Inr ft'"
    then show "table_reach_r R pts precision ft' \<and> scanned_behind_r R pts precision {a, b, c, d} (Suc m) ft'"
      using point_step_scanned_behind_r table_reach_point_step_r by blast
  qed
  then show ?thesis by simp
qed

lemma later_points_behind_r:
  assumes "Hull_seed_r R pts precision = Inr (Some (a, b, c, d))"
    and "Hull_r R ord pts precision = Inr out" and "t \<in> set out"
    and "i < length pts" and "int i \<notin> {a, b, c, d}"
    and "tx t \<in> {a, b, c, d} \<or> tx t < int i"
  shows "DistanceToPlane_r R (pts ! i)
           (PlaneOfPts_r R (pts ! nat (tz t)) (pts ! nat (ty t)) (pts ! nat (tx t))) \<le> precision"
proof -
  from assms(2,3) obtain ft where tab: "Hull_table_r R ord pts precision = Inr (Some ft)"
    by (rule Hull_nonempty_table_r)
  from tab obtain seed f4 where seed: "Hull_seed_r R pts precision = Inr (Some seed)"
    and f4: "seed_table_r R pts seed = Inr f4"
    and run: "foldE (point_step_r R ord pts precision seed) [0..<length pts] f4 = Inr ft"
    by (rule Hull_table_Some_r)
  from seed assms(1) have s: "seed = (a, b, c, d)" by simp
  have r4: "table_reach_r R pts precision f4"
    using f4 by (rule table_reach_seed_table_r)
  have beh: "scanned_behind_r R pts precision {a, b, c, d} (length pts) ft"
    using point_loop_scanned_behind_r [OF r4 run [unfolded s]] .
  from tab assms(2,3) obtain j where j: "j < length (triangles ft)" "kept ft ! j" "triangles ft ! j = t"
    by (rule Hull_out_slot_r)
  have "list_all2 (stored_plane_r R pts) (triangles ft) (planes ft)"
    using tab table_reach_Hull_table_r table_reach_stored_r by blast
  with j have "stored_plane_r R pts t (planes ft ! j)"
    by (auto simp: list_all2_conv_all_nth)
  then have pl: "planes ft ! j = PlaneOfPts_r R (pts ! nat (tz t)) (pts ! nat (ty t)) (pts ! nat (tx t))"
    by (simp add: stored_plane_r_def)
  have "DistanceToPlane_r R (pts ! i) (planes ft ! j) \<le> precision"
    using beh j(1,2) assms(4,5) assms(6) [folded j(3)]
    unfolding scanned_behind_r_def by blast
  then show ?thesis by (simp add: pl)
qed

subsection \<open>Degenerate inputs\<close>

lemma sentinel_unchecked_r:
  assumes "4 \<le> length pts" and "NonCollinearTriple_r R pts precision = Inr (IVec3 (- 1) (- 1) (- 1))"
  shows "Hull_r R ord pts precision = Inl IndexOutOfRange"
  using assms
  by (simp add: Hull_r_def Hull_table_r_def Hull_seed_r_def nth_int_def)

lemma Hull_short_r: "length pts < 4 \<Longrightarrow> Hull_r R ord pts precision = Inr []"
  by (simp add: Hull_r_def Hull_table_r_def Hull_seed_r_def)

lemma NonCoplanar_from_none_r:
  assumes "\<forall>p\<in>set ps. \<bar>DistanceToPlane_r R p plane\<bar> \<le> precision"
  shows "NonCoplanar_from_r R k ps plane precision = (- 1, False)"
  using assms by (induction ps arbitrary: k) (auto simp: Let_def)

lemma Hull_coplanar_r:
  assumes "4 \<le> length pts"
    and "NonCollinearTriple_r R pts precision = Inr trip" and "0 \<le> tx trip"
    and "\<forall>p\<in>set pts. \<bar>DistanceToPlane_r R p
           (PlaneOfPts_r R (pts ! nat (tx trip)) (pts ! nat (ty trip)) (pts ! nat (tz trip)))\<bar> \<le> precision"
  shows "Hull_r R ord pts precision = Inr []"
proof -
  note t = NonCollinearTriple_bounds_r [OF assms(2,3)]
  have "NonCoplanar_r R pts (PlaneOfPts_r R (pts ! nat (tx trip)) (pts ! nat (ty trip)) (pts ! nat (tz trip)))
      precision = (- 1, False)"
    using NonCoplanar_from_none_r [OF assms(4)] by (simp add: NonCoplanar_r_def)
  moreover have "pts \<noteq> []" using assms(1) by auto
  ultimately have "Hull_seed_r R pts precision = Inr None"
    using assms(1,2) t by (simp add: Hull_seed_r_def nth_int_def Let_def)
  then show ?thesis
    by (simp add: Hull_r_def Hull_table_r_def)
qed

lemma face_table_parallel_r:
  assumes "Hull_table_r R ord pts precision = Inr (Some ft)"
  shows "table_reach_r R pts precision ft \<and>
         (\<forall>t. table_reach_r R pts precision t \<longrightarrow> table_inv t) \<and>
         Hull_r R ord pts precision =
           Inr (map (\<lambda>j. triangles ft ! j) (filter (\<lambda>j. kept ft ! j) [0..<length (triangles ft)]))"
proof -
  have r: "table_reach_r R pts precision ft"
    using assms by (rule table_reach_Hull_table_r)
  then have "table_inv ft" by (rule table_reach_inv_r)
  then have "compact ft = Inr (map (\<lambda>j. triangles ft ! j) (filter (\<lambda>j. kept ft ! j) [0..<length (triangles ft)]))"
    by (rule compact_eq)
  with r assms show ?thesis
    by (simp add: Hull_r_def table_reach_inv_r)
qed

text \<open>
  The indices of an output triangle are pairwise different when the four seed indices are:
  a repeated index in the output can only come from seed selection.
\<close>

lemma indices_distinct_of_seed:
  assumes "Hull_seed_r R pts precision = Inr (Some (a, b, c, d))" and "distinct [a, b, c, d]"
    and "Hull_r R ord pts precision = Inr out" and "t \<in> set out"
  shows "tx t \<noteq> ty t \<and> tx t \<noteq> tz t \<and> ty t \<noteq> tz t"
proof -
  from assms(3,4) obtain ft where tab: "Hull_table_r R ord pts precision = Inr (Some ft)"
    by (rule Hull_nonempty_table_r)
  from tab obtain seed f4 where seed: "Hull_seed_r R pts precision = Inr (Some seed)"
    and f4: "seed_table_r R pts seed = Inr f4"
    and run: "foldE (point_step_r R ord pts precision seed) [0..<length pts] f4 = Inr ft"
    by (rule Hull_table_Some_r)
  from seed assms(1) have s: "seed = (a, b, c, d)" by simp
  note t4 = seed_table_Inr_r [OF f4 [unfolded s]]
  have ok4: "\<forall>t\<in>set (triangles f4). tri_ok {a, b, c, d} 0 t"
    using tri_ok_seed [of a b c d] assms(2) t4 by simp
  have r4: "table_reach_r R pts precision f4"
    using f4 by (rule table_reach_seed_table_r)
  have ok: "\<forall>t\<in>set (triangles ft). tri_ok {a, b, c, d} (length pts) t"
    using point_loop_tri_ok_r [OF r4 ok4 run [unfolded s]] .
  from tab assms(3,4) obtain j where "j < length (triangles ft)" "triangles ft ! j = t"
    by (rule Hull_out_slot_r)
  with ok have "tri_ok {a, b, c, d} (length pts) t" by auto
  then show ?thesis by (simp add: tri_ok_def)
qed

text \<open>In single precision the fourth seed point ends up behind the plane of the first seed face.\<close>

lemma seed_swap_in_front_ieee:
  assumes "Hull_seed_r ieee pts precision = Inr (Some (a, b, c, d))"
  shows "DistanceToPlane_r ieee (pts ! nat d)
           (PlaneOfPts_r ieee (pts ! nat a) (pts ! nat b) (pts ! nat c)) < - precision"
  using seed_swap_in_front_r [of ieee pts precision a b c d] assms by auto

section \<open>Four points in single precision\<close>

subsection \<open>Seed selection\<close>

text \<open>
  Write \<open>fl(x)\<close> for \<open>float32 x\<close>. The triple is \<open>(0, 1, 2)\<close> and every operation up to the
  candidate plane is exact, except the divisions by the length \<open>25\<close> of the cross product
  \<open>(-15, -20, 0)\<close>: the plane stored is \<open>(-fl(3/5), -fl(4/5), 0, -fl(7/5))\<close>. The computed
  distance of the point 0 to this plane is \<open>-1 / 2 ^ 23\<close>: the sum of \<open>fl(3/5)\<close> and \<open>fl(4/5)\<close>
  lies halfway between two numbers of \<^verbatim>\<open>float\<close> and is rounded away from \<open>fl(7/5)\<close>.
\<close>

lemma sqrt25: "sqrt 25 = 5"
  by (rule real_sqrt_unique) simp_all

lemma sqrt625: "sqrt 625 = 25"
  by (rule real_sqrt_unique) simp_all

lemma lenF: "length ptsF = 4" by (simp add: ptsF_def)

lemma nthF: "ptsF ! 0 = Vec3 1 1 0" "ptsF ! 1 = Vec3 1 1 5" "ptsF ! 2 = Vec3 5 (- 2) 0"
  "ptsF ! 3 = Vec3 4 5 0" "ptsF ! Suc 0 = Vec3 1 1 5"
  by (simp_all add: ptsF_def)

lemma nth_intF: "nth_int ptsF 0 = Inr (Vec3 1 1 0)" "nth_int ptsF 1 = Inr (Vec3 1 1 5)"
  "nth_int ptsF 2 = Inr (Vec3 5 (- 2) 0)" "nth_int ptsF 3 = Inr (Vec3 4 5 0)"
  by (simp_all add: nth_int_def lenF nthF)

lemma uptF: "[2..<4] = [2, 3]" "[1..<4] = [1, 2, 3]" "[Suc 0..<4] = [1, 2, 3]" "[0..<4] = [0, 1, 2, 3]"
  by (simp_all add: upt_rec)

lemma scaleF: "foldl scale_step 0 ptsF = 5"
  by (simp add: ptsF_def scale_step_def abs3_def Let_def)

lemma dF: "distance3_r ieee (ptsF ! 0) (ptsF ! 1) = 5"
  by (simp add: nthF distance3_r_def length3_r_def sub3_r_def dot3_r_def sqrt25)

lemma fF: "foldl (furthest_step_r ieee ptsF) (1, distance3_r ieee (ptsF ! 0) (ptsF ! 1)) [2..<length ptsF] = (1, 5)"
  by (simp add: lenF uptF furthest_step_r_def nthF distance3_r_def length3_r_def sub3_r_def dot3_r_def sqrt25 Let_def)

lemma nF: "div3_r ieee (sub3_r ieee (ptsF ! 0) (ptsF ! nat 1)) 5 = Vec3 0 0 (- 1)"
  by (simp add: nthF sub3_r_def div3_r_def)

lemma planeF0: "PlaneOfPts_r ieee (Vec3 1 1 0) (Vec3 1 1 5) (Vec3 5 (- 2) 0) =
    Vec4 (- (5033165 / 8388608)) (- (13421773 / 16777216)) 0 (- (11744051 / 8388608))"
  by (simp add: PlaneOfPts_r_def Let_def cross3_r_def sub3_r_def length3_r_def dot3_r_def sqrt625)

lemma planeF1: "PlaneOfPts_r ieee (Vec3 1 1 0) (Vec3 1 1 5) (Vec3 1 1 0) = Vec4 0 0 0 0"
  by (simp add: PlaneOfPts_r_def Let_def cross3_r_def sub3_r_def length3_r_def dot3_r_def)

lemma planeF2: "PlaneOfPts_r ieee (Vec3 5 (- 2) 0) (Vec3 1 1 0) (Vec3 1 1 0) = Vec4 0 0 0 0"
  by (simp add: PlaneOfPts_r_def Let_def cross3_r_def sub3_r_def length3_r_def dot3_r_def)

lemma planeF3: "PlaneOfPts_r ieee (Vec3 1 1 5) (Vec3 1 1 0) (Vec3 5 (- 2) 0) =
    Vec4 (5033165 / 8388608) (13421773 / 16777216) 0 (11744051 / 8388608)"
  by (simp add: PlaneOfPts_r_def Let_def cross3_r_def sub3_r_def length3_r_def dot3_r_def sqrt625)

lemma distF0: "DistanceToPlane_r ieee (Vec3 1 1 0)
    (Vec4 (- (5033165 / 8388608)) (- (13421773 / 16777216)) 0 (- (11744051 / 8388608))) = - (1 / 8388608)"
  by (simp add: DistanceToPlane_r_def dot3_r_def)

lemma distF3: "DistanceToPlane_r ieee (Vec3 4 5 0)
    (Vec4 (- (5033165 / 8388608)) (- (13421773 / 16777216)) 0 (- (11744051 / 8388608))) = - 5"
  "DistanceToPlane_r ieee (Vec3 4 5 0) (Vec4 0 0 0 0) = 0"
  "DistanceToPlane_r ieee (Vec3 4 5 0)
    (Vec4 (5033165 / 8388608) (13421773 / 16777216) 0 (11744051 / 8388608)) = 5"
  by (simp_all add: DistanceToPlane_r_def dot3_r_def)

subsection \<open>With a tolerance above the rounding errors\<close>

text \<open>
  With the tolerance \<open>1 / 1024\<close> the fourth point is the point 3, and the output is the four
  faces of the tetrahedron, whatever the order in which the half-edge set is visited: no point
  is left to be processed.
\<close>

lemma float64_offsetH: "float64 (5 / 1024) = 5 / 1024"
  using round_to_exact [of 5 53 "- 1022" "- 10"] by (simp add: float64_def pow2_def)

lemma float32_tie_three [simp]: "float32 (25165825 / 8388608) = 3"
  using round_to_eq [of 1 "25165825 / 8388608" "- 126" 24 12582912]
  by (simp add: float32_def pow2_def)

lemma float32_exact_vals2 [simp]:
  "float32 (13421773 / 8388608) = 13421773 / 8388608"
  "float32 (11744051 / 8388608) = 11744051 / 8388608"
  using round_to_exact [of 13421773 24 "- 126" "- 23"]
    round_to_exact [of 11744051 24 "- 126" "- 23"]
  by (simp_all add: float32_def pow2_def)

lemma tH: "foldl (third_step_r ieee ptsF (Vec3 0 0 (- 1))) (- 1, 5 / 1024) [1..<length ptsF] = (2, 5)"
  by (simp add: lenF uptF third_step_r_def nthF DistanceToVector_r_def length3_r_def sub3_r_def
      dot3_r_def scale3_r_def sqrt25 Let_def)

lemma nctH: "NonCollinearTriple_r ieee ptsF tolH = Inr (IVec3 0 1 2)"
proof -
  have o: "dbl ieee (5 * tolH) = 5 / 1024"
    using float64_offsetH by (simp add: tolH_def)
  show ?thesis
    unfolding NonCollinearTriple_r_def Let_def fF fst_conv snd_conv nF o tH
    by (simp add: lenF tolH_def)
qed

lemma distH: "DistanceToPlane_r ieee (Vec3 1 1 5)
    (Vec4 (- (5033165 / 8388608)) (- (13421773 / 16777216)) 0 (- (11744051 / 8388608))) = - (1 / 8388608)"
  "DistanceToPlane_r ieee (Vec3 5 (- 2) 0)
    (Vec4 (- (5033165 / 8388608)) (- (13421773 / 16777216)) 0 (- (11744051 / 8388608))) = 0"
  by (simp_all add: DistanceToPlane_r_def dot3_r_def)

lemma ncpH: "NonCoplanar_r ieee ptsF
    (Vec4 (- (5033165 / 8388608)) (- (13421773 / 16777216)) 0 (- (11744051 / 8388608))) tolH = (3, False)"
  by (simp add: NonCoplanar_r_def ptsF_def distF0 distH distF3 Let_def tolH_def)

lemma seedH: "Hull_seed_r ieee ptsF tolH = Inr (Some (0, 1, 2, 3))"
  by (simp add: Hull_seed_r_def lenF nctH nth_intF planeF0 ncpH Let_def)

lemma seed_tableH: "seed_table_r ieee ptsF (0, 1, 2, 3) = Inr tabH"
  by (simp add: seed_table_r_def AddTri_r_def nth_intF empty_table_def tabH_def Let_def planeF0)

lemma tableH: "Hull_table_r ieee ord ptsF tolH = Inr (Some tabH)"
  by (simp add: Hull_table_r_def seedH seed_tableH lenF uptF point_step_r_def)

lemma hullH: "Hull_r ieee ord ptsF tolH =
    Inr [IVec3 2 1 0, IVec3 0 1 3, IVec3 0 3 2, IVec3 2 3 1]"
  by (simp add: Hull_r_def tableH compact_def compact_step_def look_def tabH_def upt_rec)

text \<open>The stored planes of this run, and the slot of its output triangle \<open>(2, 1, 0)\<close>.\<close>

theorem stored_in_reverse_order_witness:
  "IVec3 2 1 0 \<in> set [IVec3 2 1 0, IVec3 0 1 3, IVec3 0 3 2, IVec3 2 3 1] \<and>
   list_all2 (stored_plane_r ieee ptsF) (triangles tabH) (planes tabH) \<and>
   (\<exists>j<length (triangles tabH). kept tabH ! j \<and> triangles tabH ! j = IVec3 2 1 0 \<and>
      stored_plane_r ieee ptsF (IVec3 2 1 0) (planes tabH ! j))"
proof -
  have m: "IVec3 2 1 0 \<in> set [IVec3 2 1 0, IVec3 0 1 3, IVec3 0 3 2, IVec3 2 3 1]"
    by simp
  have r: "table_reach_r ieee ptsF tolH tabH"
    using tableH [of insertion_order] by (rule table_reach_Hull_table_r)
  show ?thesis
    using stored_in_reverse_order [OF tableH [of insertion_order] hullH [of insertion_order] m] r m by blast
qed

text \<open>
  C4 as stated fails in single precision. In the run with the tolerance \<open>1 / 1024\<close> the output
  triangle \<open>(2, 1, 0)\<close> sits in the slot 0, whose plane has the normal
  \<open>(-fl(3/5), -fl(4/5), 0)\<close>; \<open>cross(pts[1] - pts[2], pts[0] - pts[2])\<close> is \<open>(-15, -20, 0)\<close>,
  computed with or without rounding, and is no multiple of that normal, since
  \<open>15 / fl(3/5)\<close> and \<open>20 / fl(4/5)\<close> differ.
\<close>

theorem stored_normal_not_parallel:
  "(\<forall>ord. Hull_table_r ieee ord ptsF tolH = Inr (Some tabH)) \<and>
   (\<forall>ord. Hull_r ieee ord ptsF tolH = Inr [IVec3 2 1 0, IVec3 0 1 3, IVec3 0 3 2, IVec3 2 3 1]) \<and>
   kept tabH ! 0 \<and> triangles tabH ! 0 = IVec3 2 1 0 \<and>
   planes tabH ! 0 = PlaneOfPts_r ieee (ptsF ! 0) (ptsF ! 1) (ptsF ! 2) \<and>
   planes tabH ! 0 = Vec4 (- (5033165 / 8388608)) (- (13421773 / 16777216)) 0 (- (11744051 / 8388608)) \<and>
   cross3 (sub3 (ptsF ! 1) (ptsF ! 2)) (sub3 (ptsF ! 0) (ptsF ! 2)) = Vec3 (- 15) (- 20) 0 \<and>
   cross3_r ieee (sub3_r ieee (ptsF ! 1) (ptsF ! 2)) (sub3_r ieee (ptsF ! 0) (ptsF ! 2)) = Vec3 (- 15) (- 20) 0 \<and>
   \<not> wound ptsF (IVec3 2 1 0) (planes tabH ! 0)"
proof -
  have p: "planes tabH ! 0 = Vec4 (- (5033165 / 8388608)) (- (13421773 / 16777216)) 0 (- (11744051 / 8388608))"
    by (simp add: tabH_def)
  have c: "cross3 (sub3 (ptsF ! 1) (ptsF ! 2)) (sub3 (ptsF ! 0) (ptsF ! 2)) = Vec3 (- 15) (- 20) 0"
    by (simp add: nthF cross3_def sub3_def)
  have cr: "cross3_r ieee (sub3_r ieee (ptsF ! 1) (ptsF ! 2)) (sub3_r ieee (ptsF ! 0) (ptsF ! 2)) = Vec3 (- 15) (- 20) 0"
    by (simp add: nthF cross3_r_def sub3_r_def)
  have w: "\<not> wound ptsF (IVec3 2 1 0) (planes tabH ! 0)"
  proof
    assume "wound ptsF (IVec3 2 1 0) (planes tabH ! 0)"
    then obtain k :: real where k: "Vec3 (- 15) (- 20) 0 =
        scale3 (Vec3 (- (5033165 / 8388608)) (- (13421773 / 16777216)) 0) k"
      unfolding wound_def p using c by auto
    then have "15 = 5033165 / 8388608 * k" "20 = 13421773 / 16777216 * k"
      by (simp_all add: scale3_def)
    then show False by linarith
  qed
  show ?thesis
    using tableH hullH p c cr w by (simp add: tabH_def nthF planeF0)
qed

subsection \<open>With the tolerance of the overload without a tolerance\<close>

text \<open>
  The largest coordinate is \<open>5\<close> and the tolerance derived from it is about \<open>5 / 10 ^ 9\<close>,
  below the computed distance \<open>1 / 2 ^ 23\<close> of the point 0 to the candidate plane:
  \<^verbatim>\<open>NonCoplanar\<close>, which starts at the index 0 and does not skip the points of the triple,
  returns \<open>d = 0\<close>, the first point of the triple again. The seed faces \<open>(0, 1, 0)\<close> and
  \<open>(0, 0, 2)\<close> get the null plane, which no point is in front of.
\<close>

lemma tolF_val: "tolF = 3022314549036573 / 2 ^ 79"
  unfolding tolF_def scaleF flt_ieee float64_billionth float64_tolerance ..

lemma offsetF: "dbl ieee (5 * tolF) = 944473296573929 / 2 ^ 75"
  unfolding tolF_val flt_ieee float64_offset ..

lemma tF: "foldl (third_step_r ieee ptsF (Vec3 0 0 (- 1))) (- 1, 944473296573929 / 2 ^ 75) [1..<length ptsF] = (2, 5)"
  by (simp add: lenF uptF third_step_r_def nthF DistanceToVector_r_def length3_r_def sub3_r_def
      dot3_r_def scale3_r_def sqrt25 Let_def)

lemma nctF: "NonCollinearTriple_r ieee ptsF tolF = Inr (IVec3 0 1 2)"
  unfolding NonCollinearTriple_r_def Let_def fF fst_conv snd_conv nF offsetF tF
  by (simp add: lenF tolF_val)

lemma ncpF: "NonCoplanar_r ieee ptsF
    (Vec4 (- (5033165 / 8388608)) (- (13421773 / 16777216)) 0 (- (11744051 / 8388608))) tolF = (0, False)"
  by (simp add: NonCoplanar_r_def ptsF_def distF0 Let_def tolF_val)

lemma seedF: "Hull_seed_r ieee ptsF tolF = Inr (Some (0, 1, 2, 0))"
  by (simp add: Hull_seed_r_def lenF nctF nth_intF planeF0 ncpF Let_def)

lemma seed_tableF: "seed_table_r ieee ptsF (0, 1, 2, 0) = Inr tabF4"
  by (simp add: seed_table_r_def AddTri_r_def nth_intF empty_table_def tabF4_def Let_def
      planeF0 planeF1 planeF2 planeF3)

lemma scanF: "foldE (scan_step_r ieee ptsF tolF 3) [0..<length (triangles tabF4)] (tabF4, []) =
    Inr (tabF4\<lparr>dropped := [3], kept := [True, True, True, False]\<rparr>, [IVec2 2 1, IVec2 1 0, IVec2 0 2])"
proof -
  have l: "[0..<length (triangles tabF4)] = [0, 1, 2, 3]"
    by (simp add: tabF4_def uptF)
  show ?thesis
    unfolding l
    by (simp add: scan_step_r_def look_def tabF4_def nth_intF Let_def distF3 tolF_val insert_edge_def)
qed

lemma horizonF: "horizon_loop_r ieee ptsF 3 [] [IVec2 2 1, IVec2 1 0, IVec2 0 2]
    (tabF4\<lparr>dropped := [3], kept := [True, True, True, False]\<rparr>) = Inr tabF6"
  by (simp add: tabF4_def tabF6_def AddTri_r_def nth_intF Let_def)

lemma processF: "process_point_r ieee insertion_order ptsF tolF 3 tabF4 = Inr tabF6"
  by (simp add: process_point_r_def scanF iter_order_def insertion_order_def horizonF
      del: horizon_loop_r.simps)

lemma tableF: "Hull_table_r ieee insertion_order ptsF tolF = Inr (Some tabF6)"
  by (simp add: Hull_table_r_def seedF seed_tableF lenF uptF point_step_r_def processF)

lemma hullF: "Hull_r ieee insertion_order ptsF tolF =
    Inr [IVec3 2 1 0, IVec3 0 1 0, IVec3 0 0 2, IVec3 3 1 2, IVec3 3 0 1, IVec3 3 2 0]"
  by (simp add: Hull_r_def tableF compact_def compact_step_def look_def tabF6_def upt_rec)

lemma hull_defaultF: "Hull_default_r ieee insertion_order ptsF =
    Inr [IVec3 2 1 0, IVec3 0 1 0, IVec3 0 0 2, IVec3 3 1 2, IVec3 3 0 1, IVec3 3 2 0]"
  using hullF by (simp add: Hull_default_r_def tolF_def)

lemma three_orders:
  assumes "mset es = mset [a, b, c]" and "distinct [a, b, c]"
  shows "es \<in> {[a, b, c], [a, c, b], [b, a, c], [b, c, a], [c, a, b], [c, b, a]}"
proof -
  from assms(1) have l: "length es = 3"
    using mset_eq_length by fastforce
  then obtain x y z where es: "es = [x, y, z]"
    by (auto simp: length_Suc_conv numeral_3_eq_3)
  from assms have d: "distinct es" and s: "set es = {a, b, c}"
    using mset_eq_imp_distinct_iff mset_eq_setD by fastforce+
  from s have "x \<in> {a, b, c}" "y \<in> {a, b, c}" "z \<in> {a, b, c}"
    unfolding es by auto
  with d show ?thesis
    unfolding es by auto
qed

lemma horizonF_orders:
  assumes "es \<in> {[IVec2 2 1, IVec2 1 0, IVec2 0 2], [IVec2 2 1, IVec2 0 2, IVec2 1 0],
                  [IVec2 1 0, IVec2 2 1, IVec2 0 2], [IVec2 1 0, IVec2 0 2, IVec2 2 1],
                  [IVec2 0 2, IVec2 2 1, IVec2 1 0], [IVec2 0 2, IVec2 1 0, IVec2 2 1]}"
  shows "\<exists>ft. horizon_loop_r ieee ptsF 3 [] es scannedF = Inr ft \<and>
           length (triangles ft) = 6 \<and> kept ft = [True, True, True, True, True, True] \<and>
           triangles ft ! 1 = IVec3 0 1 0 \<and> triangles ft ! 2 = IVec3 0 0 2"
  using assms
  by (auto simp: scannedF_def tabF4_def AddTri_r_def nth_intF Let_def)

lemma processF_any:
  "\<exists>ft. process_point_r ieee ord ptsF tolF 3 tabF4 = Inr ft \<and>
        length (triangles ft) = 6 \<and> kept ft = [True, True, True, True, True, True] \<and>
        triangles ft ! 1 = IVec3 0 1 0 \<and> triangles ft ! 2 = IVec3 0 0 2"
proof -
  have "mset (iter_order ord 3 [IVec2 2 1, IVec2 1 0, IVec2 0 2]) = mset [IVec2 2 1, IVec2 1 0, IVec2 0 2]"
    by (simp add: iter_order_def)
  then have "iter_order ord 3 [IVec2 2 1, IVec2 1 0, IVec2 0 2] \<in>
      {[IVec2 2 1, IVec2 1 0, IVec2 0 2], [IVec2 2 1, IVec2 0 2, IVec2 1 0],
       [IVec2 1 0, IVec2 2 1, IVec2 0 2], [IVec2 1 0, IVec2 0 2, IVec2 2 1],
       [IVec2 0 2, IVec2 2 1, IVec2 1 0], [IVec2 0 2, IVec2 1 0, IVec2 2 1]}"
    by (rule three_orders) simp
  from horizonF_orders [OF this] show ?thesis
    by (simp add: process_point_r_def scanF scannedF_def del: horizon_loop_r.simps)
qed

lemma hullF_any:
  "\<exists>out. Hull_r ieee ord ptsF tolF = Inr out \<and> length out = 6 \<and>
         out ! 1 = IVec3 0 1 0 \<and> out ! 2 = IVec3 0 0 2"
proof -
  from processF_any [of ord] obtain ft where ft: "process_point_r ieee ord ptsF tolF 3 tabF4 = Inr ft"
    "length (triangles ft) = 6" "kept ft = [True, True, True, True, True, True]"
    "triangles ft ! 1 = IVec3 0 1 0" "triangles ft ! 2 = IVec3 0 0 2"
    by blast
  have t: "Hull_table_r ieee ord ptsF tolF = Inr (Some ft)"
    by (simp add: Hull_table_r_def seedF seed_tableF lenF uptF point_step_r_def ft(1))
  have u: "[0..<6] = [0, 1, 2, 3, 4, 5]" by (simp add: upt_rec)
  have "compact ft = Inr [triangles ft ! 0, triangles ft ! 1, triangles ft ! 2, triangles ft ! 3,
      triangles ft ! 4, triangles ft ! 5]"
    by (simp add: compact_def compact_step_def look_def ft(2,3) u)
  then show ?thesis
    using ft(4,5) by (simp add: Hull_r_def t)
qed

text \<open>
  C10. The four points passed to the overload without a tolerance, in single precision: the
  output has six triangles, and the triangles \<open>(0, 1, 0)\<close> and \<open>(0, 0, 2)\<close>, each with an index
  that occurs twice, are among them whatever the order in which the half-edge set is visited.
\<close>

theorem hull_default_repeated_index:
  "Hull_default_r ieee insertion_order ptsF =
     Inr [IVec3 2 1 0, IVec3 0 1 0, IVec3 0 0 2, IVec3 3 1 2, IVec3 3 0 1, IVec3 3 2 0] \<and>
   (\<forall>ord. \<exists>out. Hull_default_r ieee ord ptsF = Inr out \<and> length out = 6 \<and>
      out ! 1 = IVec3 0 1 0 \<and> out ! 2 = IVec3 0 0 2)"
  using hull_defaultF hullF_any by (simp add: Hull_default_r_def tolF_def)

subsection \<open>The same call in exact arithmetic\<close>

text \<open>
  Without rounding the points 0, 1 and 2 are at the distance zero from the candidate plane,
  the fourth point is the point 3, and the output is the four faces of the tetrahedron.
\<close>

lemma exact_nctF: "NonCollinearTriple ptsF (1 / 200000000) = Inr (IVec3 0 1 2)"
proof -
  have f: "foldl (furthest_step ptsF) (1, distance3 (ptsF ! 0) (ptsF ! 1)) [2..<length ptsF] = (1, 5)"
    by (simp add: lenF uptF furthest_step_def nthF distance3_def length3_def sub3_def dot3_def sqrt25 Let_def)
  have n: "div3 (sub3 (ptsF ! 0) (ptsF ! nat 1)) 5 = Vec3 0 0 (- 1)"
    by (simp add: nthF sub3_def div3_def)
  have t: "foldl (third_step ptsF (Vec3 0 0 (- 1))) (- 1, 5 * (1 / 200000000)) [1..<length ptsF] = (2, 5)"
    by (simp add: lenF uptF third_step_def nthF DistanceToVector_def length3_def sub3_def
        dot3_def scale3_def sqrt25 Let_def)
  show ?thesis
    unfolding NonCollinearTriple_def Let_def f fst_conv snd_conv n t
    by (simp add: lenF)
qed

lemma exact_planeF: "PlaneOfPts (Vec3 1 1 0) (Vec3 1 1 5) (Vec3 5 (- 2) 0) =
    Vec4 (- (3 / 5)) (- (4 / 5)) 0 (- (7 / 5))"
  by (simp add: PlaneOfPts_def Let_def cross3_def sub3_def length3_def dot3_def sqrt625)

lemma exact_ncpF: "NonCoplanar ptsF (Vec4 (- (3 / 5)) (- (4 / 5)) 0 (- (7 / 5))) (1 / 200000000) = (3, False)"
  by (simp add: NonCoplanar_def ptsF_def DistanceToPlane_def dot3_def Let_def)

lemma exact_seedF: "Hull_seed ptsF (1 / 200000000) = Inr (Some (0, 1, 2, 3))"
  by (simp add: Hull_seed_def lenF exact_nctF nth_intF exact_planeF exact_ncpF Let_def)

lemma exact_hullF: "Hull_default ord ptsF = Inr [IVec3 2 1 0, IVec3 0 1 3, IVec3 0 3 2, IVec3 2 3 1]"
proof -
  have s: "1 / 10 ^ 9 * foldl scale_step 0 ptsF = 1 / 200000000"
    by (simp add: scaleF)
  have t: "Hull_table ord ptsF (1 / 200000000) = Inr (Some
      \<lparr>triangles = [IVec3 2 1 0, IVec3 0 1 3, IVec3 0 3 2, IVec3 2 3 1],
       planes = [PlaneOfPts (Vec3 1 1 0) (Vec3 1 1 5) (Vec3 5 (- 2) 0),
                 PlaneOfPts (Vec3 4 5 0) (Vec3 1 1 5) (Vec3 1 1 0),
                 PlaneOfPts (Vec3 5 (- 2) 0) (Vec3 4 5 0) (Vec3 1 1 0),
                 PlaneOfPts (Vec3 1 1 5) (Vec3 4 5 0) (Vec3 5 (- 2) 0)],
       dropped = [], kept = [True, True, True, True]\<rparr>)"
    by (simp add: Hull_table_def exact_seedF seed_table_def AddTri_def nth_intF empty_table_def
        lenF uptF point_step_def Let_def)
  show ?thesis
    unfolding Hull_default_def s
    by (simp add: Hull_def t compact_def compact_step_def look_def upt_rec)
qed

section \<open>The input of five points in single precision\<close>

text \<open>
  The rounding of a square root, from two comparisons of squares. With it the run on the input
  of five points is evaluated in single precision: the seed, the conflicts of the point 4, the
  half-edge set and the output are those of the run without rounding, and so are the three
  observations made on it: the output triangle \<open>(4, 0, 1)\<close> has the point 2 in front of its
  plane by more than the tolerance, the fourth seed point lies behind the candidate plane
  and the in-plane indices keep their order, and the half-edge set holds an edge and its
  reverse after the conflict scan.
\<close>

lemma round_to_sqrt:
  assumes e: "pow2 e * pow2 e \<le> y" "y < pow2 (e + 1) * pow2 (e + 1)" "emin \<le> e"
    and m: "0 < m"
      "(of_int m - 1 / 2) * (of_int m - 1 / 2) * (pow2 (e - int p + 1) * pow2 (e - int p + 1)) < y"
      "y < (of_int m + 1 / 2) * (of_int m + 1 / 2) * (pow2 (e - int p + 1) * pow2 (e - int p + 1))"
  shows "round_to p emin (sqrt y) = of_int m * pow2 (e - int p + 1)"
proof -
  define u where "u = pow2 (e - int p + 1)"
  have u: "0 < u" by (simp add: u_def pow2_pos)
  have p0: "0 \<le> pow2 e" "0 \<le> pow2 (e + 1)"
    using pow2_pos [of e] pow2_pos [of "e + 1"] by simp_all
  have "0 \<le> pow2 e * pow2 e" by simp
  with e(1) have y: "0 \<le> y" by linarith
  have lo: "0 \<le> (of_int m - 1 / 2) * u" using m(1) u by simp
  have hi: "0 \<le> (of_int m + 1 / 2) * u" using m(1) u by simp
  have "((of_int m - 1 / 2) * u) * ((of_int m - 1 / 2) * u) < y"
    using m(2) by (simp add: u_def algebra_simps)
  then have a: "(of_int m - 1 / 2) * u < sqrt y"
    using less_sqrt_iff [OF lo] by simp
  have "y < ((of_int m + 1 / 2) * u)\<^sup>2"
    using m(3) by (simp add: u_def algebra_simps power2_eq_square)
  with hi have b: "sqrt y < (of_int m + 1 / 2) * u"
    by (rule real_less_lsqrt)
  have n: "\<bar>sqrt y / u - of_int m\<bar> < 1 / 2"
  proof -
    from a u have "of_int m - 1 / 2 < sqrt y / u" by (simp add: pos_less_divide_eq)
    moreover from b u have "sqrt y / u < of_int m + 1 / 2" by (simp add: pos_divide_less_eq)
    ultimately show ?thesis by linarith
  qed
  have "(pow2 e)\<^sup>2 \<le> y" using e(1) by (simp add: power2_eq_square)
  then have c: "pow2 e \<le> sqrt y" by (rule real_le_rsqrt)
  have "y < (pow2 (e + 1))\<^sup>2" using e(2) by (simp add: power2_eq_square)
  with p0(2) have d: "sqrt y < pow2 (e + 1)" by (rule real_less_lsqrt)
  have s: "\<bar>sqrt y\<bar> = sqrt y" using y by simp
  show ?thesis
    using round_to_eq [of e "sqrt y" emin p m] c d e(3) n
    by (simp add: s u_def)
qed

lemma float32_sqrt_vals:
  "float32 (sqrt (33 / 16)) = 12047221 / 8388608"
  "float32 (sqrt (17 / 16)) = 8646779 / 8388608"
  "float32 (sqrt 768) = 14529495 / 524288"
  "float32 (sqrt 17) = 8646779 / 2097152"
  using round_to_sqrt [of 0 "33 / 16" "- 126" 12047221 24]
    round_to_sqrt [of 0 "17 / 16" "- 126" 8646779 24]
    round_to_sqrt [of 4 768 "- 126" 14529495 24]
    round_to_sqrt [of 2 17 "- 126" 8646779 24]
  by (simp_all add: float32_def pow2_def)

lemma sqrt256: "sqrt 256 = 16"
  by (rule real_sqrt_unique) simp_all

lemma float64_2: "float64 2 = 2"
  using float64_of_int [of 2] by simp

lemma float32_exact_vals5 [simp]:
  "float32 (1 / 4) = 1 / 4"
  "float32 (1 / 16) = 1 / 16"
  "float32 (33 / 16) = 33 / 16"
  "float32 (17 / 16) = 17 / 16"
  "float32 (4843165 / 8388608) = 4843165 / 8388608"
  "float32 (4843165 / 4194304) = 4843165 / 4194304"
  "float32 (4843165 / 33554432) = 4843165 / 33554432"
  "float32 (16276291 / 16777216) = 16276291 / 16777216"
  using round_to_exact [of 1 24 "- 126" "- 2"]
    round_to_exact [of 1 24 "- 126" "- 4"]
    round_to_exact [of 33 24 "- 126" "- 4"]
    round_to_exact [of 17 24 "- 126" "- 4"]
    round_to_exact [of 4843165 24 "- 126" "- 23"]
    round_to_exact [of 4843165 24 "- 126" "- 22"]
    round_to_exact [of 4843165 24 "- 126" "- 25"]
    round_to_exact [of 16276291 24 "- 126" "- 24"]
  by (simp_all add: float32_def pow2_def)

lemma float32_vals5 [simp]:
  "float32 (8388608 / 14529495) = 4843165 / 8388608"
  "float32 (33554432 / 14529495) = 4843165 / 2097152"
  "float32 (43588485 / 33554432) = 10897121 / 8388608"
  "float32 (30269781 / 8388608) = 7567445 / 2097152"
  "float32 (2097152 / 8646779) = 16276291 / 67108864"
  using round_to_eq [of "- 1" "8388608 / 14529495" "- 126" 24 9686330]
    round_to_eq [of 1 "33554432 / 14529495" "- 126" 24 9686330]
    round_to_eq [of 0 "43588485 / 33554432" "- 126" 24 10897121]
    round_to_eq [of 1 "30269781 / 8388608" "- 126" 24 15134890]
    round_to_eq [of "- 3" "2097152 / 8646779" "- 126" 24 16276291]
  by (simp_all add: float32_def pow2_def)

lemma f5_ieee: "foldl (furthest_step_r ieee pts5) (1, distance3_r ieee (pts5 ! 0) (pts5 ! 1)) [2..<length pts5] = (1, 4)"
  by (simp add: len5 upt_5 furthest_step_r_def nth5 distance3_r_def length3_r_def sub3_r_def
      dot3_r_def sqrt16 float32_sqrt_vals Let_def)

lemma n5_ieee: "div3_r ieee (sub3_r ieee (pts5 ! 0) (pts5 ! nat 1)) 4 = Vec3 (- 1) 0 0"
  by (simp add: nth5 sub3_r_def div3_r_def)

lemma t5_ieee: "foldl (third_step_r ieee pts5 (Vec3 (- 1) 0 0)) (- 1, 2) [1..<length pts5] = (2, 4)"
  by (simp add: len5 upt_5 third_step_r_def nth5 DistanceToVector_r_def length3_r_def sub3_r_def
      dot3_r_def scale3_r_def sqrt16 float32_sqrt_vals Let_def)

lemma nct5_ieee: "NonCollinearTriple_r ieee pts5 tol5 = Inr (IVec3 0 1 2)"
proof -
  have o: "dbl ieee (4 * tol5) = 2"
    by (simp add: tol5_def float64_2)
  show ?thesis
    unfolding NonCollinearTriple_r_def Let_def f5_ieee fst_conv snd_conv n5_ieee o t5_ieee
    by (simp add: len5 tol5_def)
qed

lemma planes5_ieee:
  "PlaneOfPts_r ieee (Vec3 0 0 0) (Vec3 4 0 0) (Vec3 0 4 0) = Vec4 0 0 (- 1) 0"
  "PlaneOfPts_r ieee (Vec3 0 0 4) (Vec3 4 0 0) (Vec3 0 0 0) = Vec4 0 (- 1) 0 0"
  "PlaneOfPts_r ieee (Vec3 0 4 0) (Vec3 0 0 4) (Vec3 0 0 0) = Vec4 (- 1) 0 0 0"
  "PlaneOfPts_r ieee (Vec3 4 0 0) (Vec3 0 0 4) (Vec3 0 4 0) =
     Vec4 (4843165 / 8388608) (4843165 / 8388608) (4843165 / 8388608) (4843165 / 2097152)"
  by (simp_all add: PlaneOfPts_r_def Let_def cross3_r_def sub3_r_def length3_r_def dot3_r_def
      sqrt256 float32_sqrt_vals)

lemma ncp5_ieee: "NonCoplanar_r ieee pts5 (Vec4 0 0 (- 1) 0) tol5 = (3, False)"
  by (simp add: NonCoplanar_r_def pts5_def DistanceToPlane_r_def dot3_r_def Let_def tol5_def)

lemma seed5_ieee: "Hull_seed_r ieee pts5 tol5 = Inr (Some (0, 1, 2, 3))"
  by (simp add: Hull_seed_r_def len5 nct5_ieee nth_int5 planes5_ieee ncp5_ieee Let_def)

lemma seed_table5_ieee: "seed_table_r ieee pts5 (0, 1, 2, 3) = Inr tab4_ieee"
  by (simp add: seed_table_r_def AddTri_r_def nth_int5 empty_table_def tab4_ieee_def Let_def planes5_ieee)

lemma dist5_ieee:
  "DistanceToPlane_r ieee (Vec3 (- 1) (- 1) (- (1 / 4))) (Vec4 0 0 (- 1) 0) = 1 / 4"
  "DistanceToPlane_r ieee (Vec3 (- 1) (- 1) (- (1 / 4))) (Vec4 0 (- 1) 0 0) = 1"
  "DistanceToPlane_r ieee (Vec3 (- 1) (- 1) (- (1 / 4))) (Vec4 (- 1) 0 0 0) = 1"
  "DistanceToPlane_r ieee (Vec3 (- 1) (- 1) (- (1 / 4)))
     (Vec4 (4843165 / 8388608) (4843165 / 8388608) (4843165 / 8388608) (4843165 / 2097152)) =
     - (7567445 / 2097152)"
  by (simp_all add: DistanceToPlane_r_def dot3_r_def)

lemma scan5_ieee: "foldE (scan_step_r ieee pts5 tol5 4) [0..<length (triangles tab4_ieee)] (tab4_ieee, []) =
    Inr (tab4_scanned_ieee, edges5)"
proof -
  have l: "[0..<length (triangles tab4_ieee)] = [0, 1, 2, 3]"
    by (simp add: tab4_ieee_def upt_5)
  show ?thesis
    unfolding l
    by (simp add: scan_step_r_def look_def tab4_ieee_def nth_int5 Let_def dist5_ieee tol5_def
        insert_edge_def tab4_scanned_ieee_def edges5_def)
qed

lemma horizon5_ieee: "horizon_loop_r ieee pts5 4 [] edges5 tab4_scanned_ieee = Inr tab6_ieee"
  by (simp add: edges5_def tab4_scanned_ieee_def tab4_ieee_def tab6_ieee_def AddTri_r_def nth_int5 Let_def)

lemma process5_ieee: "process_point_r ieee insertion_order pts5 tol5 4 tab4_ieee = Inr tab6_ieee"
  by (simp add: process_point_r_def scan5_ieee iter_order_def insertion_order_def horizon5_ieee)

lemma table5_ieee: "Hull_table_r ieee insertion_order pts5 tol5 = Inr (Some tab6_ieee)"
  by (simp add: Hull_table_r_def seed5_ieee seed_table5_ieee len5 upt_5 point_step_r_def process5_ieee)

lemma hull5_ieee: "Hull_r ieee insertion_order pts5 tol5 =
    Inr [IVec3 2 1 0, IVec3 4 0 1, IVec3 4 1 3, IVec3 2 3 1, IVec3 4 2 0, IVec3 4 3 2]"
  by (simp add: Hull_r_def table5_ieee compact_def compact_step_def look_def tab6_ieee_def upt_rec)

lemma dist5_new_ieee:
  "DistanceToPlane_r ieee (Vec3 0 4 0)
     (PlaneOfPts_r ieee (Vec3 4 0 0) (Vec3 0 0 0) (Vec3 (- 1) (- 1) (- (1 / 4)))) = 16276291 / 16777216"
  by (simp add: PlaneOfPts_r_def Let_def cross3_r_def sub3_r_def length3_r_def dot3_r_def
      DistanceToPlane_r_def float32_sqrt_vals)

lemma hull5_not_convex_ieee:
  "Hull_r ieee insertion_order pts5 tol5 =
     Inr [IVec3 2 1 0, IVec3 4 0 1, IVec3 4 1 3, IVec3 2 3 1, IVec3 4 2 0, IVec3 4 3 2] \<and>
   Hull_table_r ieee insertion_order pts5 tol5 = Inr (Some tab6_ieee) \<and>
   triangles tab6_ieee ! 1 = IVec3 4 0 1 \<and> kept tab6_ieee ! 1 \<and>
   planes tab6_ieee ! 1 = PlaneOfPts_r ieee (pts5 ! 1) (pts5 ! 0) (pts5 ! 4) \<and>
   tol5 < DistanceToPlane_r ieee (pts5 ! 2) (PlaneOfPts_r ieee (pts5 ! 1) (pts5 ! 0) (pts5 ! 4))"
  by (simp add: hull5_ieee table5_ieee nth5 dist5_new_ieee) (simp add: tab6_ieee_def tol5_def)

lemma seed_swap_counterexample_ieee:
  "NonCollinearTriple_r ieee pts5 tol5 = Inr (IVec3 0 1 2) \<and>
   DistanceToPlane_r ieee (pts5 ! 3) (PlaneOfPts_r ieee (pts5 ! 0) (pts5 ! 1) (pts5 ! 2)) < - tol5 \<and>
   Hull_seed_r ieee pts5 tol5 = Inr (Some (0, 1, 2, 3)) \<and>
   Hull_seed_r ieee pts5 tol5 \<noteq> Inr (Some (0, 2, 1, 3))"
proof -
  have "DistanceToPlane_r ieee (pts5 ! 3) (PlaneOfPts_r ieee (pts5 ! 0) (pts5 ! 1) (pts5 ! 2)) < - tol5"
    by (simp add: nth5 planes5_ieee DistanceToPlane_r_def dot3_r_def tol5_def)
  then show ?thesis
    by (simp add: nct5_ieee seed5_ieee)
qed

lemma half_edges_both_directions_ieee:
  "Hull_seed_r ieee pts5 tol5 = Inr (Some (0, 1, 2, 3)) \<and>
   seed_table_r ieee pts5 (0, 1, 2, 3) = Inr tab4_ieee \<and>
   foldE (scan_step_r ieee pts5 tol5 4) [0..<length (triangles tab4_ieee)] (tab4_ieee, []) =
     Inr (tab4_scanned_ieee, edges5) \<and>
   IVec2 0 3 \<in> set edges5 \<and> IVec2 3 0 \<in> set edges5"
  by (simp add: seed5_ieee seed_table5_ieee scan5_ieee) (simp add: edges5_def)

section \<open>Degenerate inputs in single precision\<close>

text \<open>
  The three degenerate inputs of four points, in single precision: seed selection returns the
  sentinel triple and \<^verbatim>\<open>Hull\<close> reads \<^verbatim>\<open>pts[-1]\<close>, as without rounding.
\<close>

lemma float64_0 [simp]: "float64 0 = 0"
  by (simp add: float64_def round_to_zero)

lemma sqrt4: "sqrt 4 = 2"
  by (rule real_sqrt_unique) simp_all

lemma nct_collinear4_ieee: "NonCollinearTriple_r ieee collinear4 0 = Inr (IVec3 (- 1) (- 1) (- 1))"
proof -
  have l: "[2..<length collinear4] = [2, 3]" "[1..<length collinear4] = [1, 2, 3]"
    by (simp_all add: collinear4_def upt_rec)
  have f: "foldl (furthest_step_r ieee collinear4) (1, distance3_r ieee (collinear4 ! 0) (collinear4 ! 1))
             [2..<length collinear4] = (3, 3)"
    unfolding l
    by (simp add: collinear4_def furthest_step_r_def distance3_r_def length3_r_def sub3_r_def
        dot3_r_def Let_def sqrt9 sqrt4)
  have t: "foldl (third_step_r ieee collinear4 (div3_r ieee (sub3_r ieee (collinear4 ! 0) (collinear4 ! nat 3)) 3))
             (- 1, dbl ieee (3 * 0)) [1..<length collinear4] = (- 1, 0)"
    unfolding l
    by (simp add: collinear4_def third_step_r_def DistanceToVector_r_def length3_r_def sub3_r_def
        dot3_r_def div3_r_def scale3_r_def Let_def)
  show ?thesis
    unfolding NonCollinearTriple_r_def Let_def f fst_conv snd_conv t
    by (simp add: collinear4_def)
qed

lemma hull_collinear4_ieee: "Hull_r ieee ord collinear4 0 = Inl IndexOutOfRange"
  using sentinel_unchecked_r [of collinear4 ieee 0 ord] nct_collinear4_ieee
  by (simp add: collinear4_def)

lemma nct_same4_ieee: "NonCollinearTriple_r ieee same4 precision = Inr (IVec3 (- 1) (- 1) (- 1))"
  if "0 \<le> precision"
proof -
  have l: "[2..<length same4] = [2, 3]"
    by (simp_all add: same4_def upt_rec)
  have f: "foldl (furthest_step_r ieee same4) (1, distance3_r ieee (same4 ! 0) (same4 ! 1)) [2..<length same4] = (1, 0)"
    unfolding l
    by (simp add: same4_def furthest_step_r_def distance3_r_def length3_r_def sub3_r_def dot3_r_def Let_def)
  show ?thesis
    unfolding NonCollinearTriple_r_def Let_def f fst_conv snd_conv
    using that by (simp add: same4_def)
qed

lemma hull_same4_ieee: "Hull_r ieee ord same4 tol5 = Inl IndexOutOfRange"
  using sentinel_unchecked_r [of same4 ieee tol5 ord] nct_same4_ieee [OF tol5_nonneg]
  by (simp add: same4_def)

lemma nct_origin4_ieee: "NonCollinearTriple_r ieee origin4 0 = Inr (IVec3 (- 1) (- 1) (- 1))"
proof -
  have l: "[2..<length origin4] = [2, 3]"
    by (simp_all add: origin4_def upt_rec)
  have f: "foldl (furthest_step_r ieee origin4) (1, distance3_r ieee (origin4 ! 0) (origin4 ! 1)) [2..<length origin4] = (1, 0)"
    unfolding l
    by (simp add: origin4_def furthest_step_r_def distance3_r_def length3_r_def sub3_r_def dot3_r_def Let_def)
  show ?thesis
    unfolding NonCollinearTriple_r_def Let_def f fst_conv snd_conv
    by (simp add: origin4_def)
qed

lemma hull_default_origin4_ieee: "Hull_default_r ieee ord origin4 = Inl IndexOutOfRange"
  using sentinel_unchecked_r [of origin4 ieee 0 ord] nct_origin4_ieee
  by (simp add: Hull_default_r_def scale_origin4) (simp add: origin4_def)

end
